(* ===== verification/Go_Conv.thy ===== *)
theory Go_Conv
  imports Go_Strings
begin

text \<open>
  The part of Go's packages \<^verbatim>\<open>strconv\<close> and \<^verbatim>\<open>time\<close> the detector uses: decimal numbers
  within 64 bits, quoting, durations and their textual form.
\<close>

subsection \<open>Package strconv\<close>

definition is_digit :: "char \<Rightarrow> bool" where
  "is_digit c \<longleftrightarrow> 48 \<le> (of_char c :: nat) \<and> (of_char c :: nat) \<le> 57"

definition digit_val :: "char \<Rightarrow> nat" where
  "digit_val c = of_char c - 48"

definition digit_char :: "nat \<Rightarrow> char" where
  "digit_char d = char_of (48 + d)"

fun dec_nat :: "nat \<Rightarrow> string" where
  "dec_nat n = (if n < 10 then [digit_char n] else dec_nat (n div 10) @ [digit_char (n mod 10)])"

declare dec_nat.simps [simp del]

definition strconv_Itoa :: "int \<Rightarrow> string" where
  "strconv_Itoa i = (if i < 0 then CHR ''-'' # dec_nat (nat (- i)) else dec_nat (nat i))"

datatype num_error = ErrSyntax | ErrRange

text \<open>
  The digit loop of \<^verbatim>\<open>strconv.ParseUint(s, 10, 64)\<close>: it reports a range error at the
  digit that overflows, before it looks at what follows.
\<close>

fun parse_uint_loop :: "string \<Rightarrow> nat \<Rightarrow> num_error + nat" where
  "parse_uint_loop [] n = Ok n"
| "parse_uint_loop (c # cs) n =
     (if \<not> is_digit c then Err ErrSyntax
      else if n * 10 + digit_val c \<ge> 2 ^ 64 then Err ErrRange
      else parse_uint_loop cs (n * 10 + digit_val c))"

definition strconv_ParseUint :: "string \<Rightarrow> num_error + nat" where
  "strconv_ParseUint s = (if s = [] then Err ErrSyntax else parse_uint_loop s 0)"

text \<open>
  \<^verbatim>\<open>strconv.ParseInt(s, 10, 64)\<close> returns a value together with the error: 0 with a
  syntax error, the nearest bound with a range error.
\<close>

definition strconv_ParseInt :: "string \<Rightarrow> int \<times> num_error option" where
  "strconv_ParseInt s =
     (let neg = (s \<noteq> [] \<and> hd s = CHR ''-'');
          body = (if s \<noteq> [] \<and> (hd s = CHR ''-'' \<or> hd s = CHR ''+'') then tl s else s)
      in case strconv_ParseUint body of
           Inl ErrSyntax \<Rightarrow> (0, Some ErrSyntax)
         | Inl ErrRange \<Rightarrow> (if neg then (- (2 ^ 63), Some ErrRange) else (2 ^ 63 - 1, Some ErrRange))
         | Inr un \<Rightarrow>
             (if \<not> neg \<and> un \<ge> 2 ^ 63 then (2 ^ 63 - 1, Some ErrRange)
              else if neg \<and> un > 2 ^ 63 then (- (2 ^ 63), Some ErrRange)
              else (if neg then - int un else int un, None)))"

definition strconv_Atoi :: "string \<Rightarrow> num_error + int" where
  "strconv_Atoi s = (case strconv_ParseInt s of (v, None) \<Rightarrow> Ok v | (_, Some e) \<Rightarrow> Err e)"

text \<open>
  \<^verbatim>\<open>strconv.Quote\<close>, the rendering of \<^verbatim>\<open>%q\<close>. Bytes below 128 are quoted as Go does;
  the bytes of a multi-byte rune are copied, which is what Go does for printable runes of a
  valid UTF-8 text.
\<close>

definition hex_digit :: "nat \<Rightarrow> char" where
  "hex_digit d = (if d < 10 then char_of (48 + d) else char_of (87 + d))"

definition quote_byte :: "char \<Rightarrow> string" where
  "quote_byte c =
     (let n = (of_char c :: nat); bs = CHR 0x5C in
      if c = CHR 0x22 \<or> c = bs then [bs, c]
      else if n = 7 then [bs, CHR ''a''] else if n = 8 then [bs, CHR ''b'']
      else if n = 12 then [bs, CHR ''f''] else if n = 10 then [bs, CHR ''n'']
      else if n = 13 then [bs, CHR ''r''] else if n = 9 then [bs, CHR ''t'']
      else if n = 11 then [bs, CHR ''v'']
      else if n < 32 \<or> n = 127 then [bs, CHR ''x'', hex_digit (n div 16), hex_digit (n mod 16)]
      else [c])"

definition strconv_Quote :: "string \<Rightarrow> string" where
  "strconv_Quote s = CHR 0x22 # concat (map quote_byte s) @ [CHR 0x22]"

lemma digit_char_props [simp]:
  assumes "d < 10"
  shows "is_digit (digit_char d)" and "digit_val (digit_char d) = d"
proof -
  from assms have "(of_char (digit_char d) :: nat) = 48 + d"
    by (simp add: digit_char_def of_char_of)
  with assms show "is_digit (digit_char d)" and "digit_val (digit_char d) = d"
    by (simp_all add: is_digit_def digit_val_def)
qed

lemma parse_uint_loop_append:
  "parse_uint_loop (xs @ ys) n = and_then (parse_uint_loop xs n) (parse_uint_loop ys)"
  by (induction xs n rule: parse_uint_loop.induct) simp_all

lemma dec_nat_nonempty [simp]: "dec_nat n \<noteq> []"
  by (subst dec_nat.simps) simp

lemma dec_nat_digits: "c \<in> set (dec_nat n) \<Longrightarrow> is_digit c"
proof (induction n rule: dec_nat.induct)
  case (1 n)
  show ?case
  proof (cases "n < 10")
    case True
    with "1.prems" show ?thesis by (simp add: dec_nat.simps [of n])
  next
    case False
    with "1" show ?thesis by (auto simp: dec_nat.simps [of n])
  qed
qed

lemma parse_uint_loop_dec_nat: "n < 2 ^ 64 \<Longrightarrow> parse_uint_loop (dec_nat n) 0 = Ok n"
proof (induction n rule: dec_nat.induct)
  case (1 n)
  show ?case
  proof (cases "n < 10")
    case True
    then show ?thesis by (simp add: dec_nat.simps [of n])
  next
    case False
    with "1.prems" have "n div 10 < 2 ^ 64" by simp
    with "1.IH" False have "parse_uint_loop (dec_nat (n div 10)) 0 = Ok (n div 10)" by simp
    with False "1.prems" show ?thesis
      by (simp add: dec_nat.simps [of n] parse_uint_loop_append)
  qed
qed

text \<open>Printing a number that fits 64 bits and parsing it back is the identity.\<close>

lemma is_digit_not_sign: "is_digit c \<Longrightarrow> c \<noteq> CHR ''-'' \<and> c \<noteq> CHR ''+''"
  by (auto simp: is_digit_def)

lemma strconv_Atoi_Itoa:
  assumes "- (2 ^ 63) \<le> i" and "i < 2 ^ 63"
  shows "strconv_Atoi (strconv_Itoa i) = Ok i"
proof (cases "i < 0")
  case True
  then have "strconv_ParseUint (dec_nat (nat (- i))) = Ok (nat (- i))"
    using assms by (simp add: strconv_ParseUint_def parse_uint_loop_dec_nat)
  with True assms show ?thesis
    by (simp add: strconv_Atoi_def strconv_ParseInt_def strconv_Itoa_def Let_def)
next
  case False
  have "is_digit (hd (dec_nat (nat i)))"
    by (rule dec_nat_digits [of _ "nat i"]) simp
  then have "hd (dec_nat (nat i)) \<noteq> CHR ''-''" and "hd (dec_nat (nat i)) \<noteq> CHR ''+''"
    by (auto dest: is_digit_not_sign)
  moreover have "strconv_ParseUint (dec_nat (nat i)) = Ok (nat i)"
    using False assms by (simp add: strconv_ParseUint_def parse_uint_loop_dec_nat)
  ultimately show ?thesis
    using False assms
    by (simp add: strconv_Atoi_def strconv_ParseInt_def strconv_Itoa_def Let_def)
qed

subsection \<open>Package time\<close>

abbreviation (input) Nanosecond :: duration where "Nanosecond \<equiv> 1"
abbreviation (input) Microsecond :: duration where "Microsecond \<equiv> 1000"
abbreviation (input) Millisecond :: duration where "Millisecond \<equiv> 1000000"
abbreviation (input) Second :: duration where "Second \<equiv> 1000000000"
abbreviation (input) Minute :: duration where "Minute \<equiv> 60000000000"
abbreviation (input) Hour :: duration where "Hour \<equiv> 3600000000000"

text \<open>The zero \<^verbatim>\<open>time.Time\<close> is January 1 of year 1, UTC.\<close>

definition zero_time :: gotime where
  "zero_time = - 62135596800 * Second"

text \<open>\<^verbatim>\<open>Time.Sub\<close> saturates at the bounds of a 64-bit duration.\<close>

definition time_Sub :: "gotime \<Rightarrow> gotime \<Rightarrow> duration" where
  "time_Sub t u = max (- (2 ^ 63)) (min (2 ^ 63 - 1) (t - u))"

fun leadingInt :: "nat \<Rightarrow> string \<Rightarrow> (nat \<times> string) option" where
  "leadingInt x [] = Some (x, [])"
| "leadingInt x (c # cs) =
     (if \<not> is_digit c then Some (x, c # cs)
      else if x > 2 ^ 63 div 10 then None
      else if x * 10 + digit_val c > 2 ^ 63 then None
      else leadingInt (x * 10 + digit_val c) cs)"

text \<open>Digits after the point: their value, the power of ten they stand over, the rest.\<close>

fun leadingFraction :: "bool \<Rightarrow> nat \<Rightarrow> nat \<Rightarrow> string \<Rightarrow> nat \<times> nat \<times> string" where
  "leadingFraction ovf x scale [] = (x, scale, [])"
| "leadingFraction ovf x scale (c # cs) =
     (if \<not> is_digit c then (x, scale, c # cs)
      else if ovf then leadingFraction True x scale cs
      else if x > (2 ^ 63 - 1) div 10 then leadingFraction True x scale cs
      else if x * 10 + digit_val c > 2 ^ 63 then leadingFraction True x scale cs
      else leadingFraction False (x * 10 + digit_val c) (scale * 10) cs)"

definition unitMap :: "string \<Rightarrow> nat option" where
  "unitMap u =
     (if u = ''ns'' then Some 1
      else if u = ''us'' \<or> u = [CHR 0xC2, CHR 0xB5, CHR ''s''] \<or> u = [CHR 0xCE, CHR 0xBC, CHR ''s'']
      then Some 1000
      else if u = ''ms'' then Some 1000000
      else if u = ''s'' then Some 1000000000
      else if u = ''m'' then Some 60000000000
      else if u = ''h'' then Some 3600000000000
      else None)"

text \<open>
  One component of a duration string (\<^verbatim>\<open>1.5h\<close>): its value and the rest of the string.
  The fraction is computed exactly and rounded down; Go computes it in floating point, so
  the two can differ by the rounding of one multiplication.
\<close>

definition parse_component :: "string \<Rightarrow> (nat \<times> string) option" where
  "parse_component s =
     (case leadingInt 0 s of None \<Rightarrow> None
      | Some (v, s1) \<Rightarrow>
          (let pre = (length s1 \<noteq> length s);
               (f, scale, s2) = (if s1 \<noteq> [] \<and> hd s1 = CHR ''.''
                                 then leadingFraction False 0 1 (tl s1) else (0, 1, s1));
               post = (s1 \<noteq> [] \<and> hd s1 = CHR ''.'' \<and> length s2 \<noteq> length (tl s1));
               u = takeWhile (\<lambda>c. \<not> (c = CHR ''.'' \<or> is_digit c)) s2;
               s3 = dropWhile (\<lambda>c. \<not> (c = CHR ''.'' \<or> is_digit c)) s2
           in if \<not> pre \<and> \<not> post then None
              else if u = [] then None
              else (case unitMap u of None \<Rightarrow> None
                    | Some unit \<Rightarrow>
                        if v > 2 ^ 63 div unit then None
                        else if v * unit + f * unit div scale > 2 ^ 63 then None
                        else Some (v * unit + f * unit div scale, s3))))"

lemma leadingInt_length: "leadingInt x s = Some (v, r) \<Longrightarrow> length r \<le> length s"
  by (induction x s rule: leadingInt.induct) (auto split: if_splits)

lemma leadingFraction_length:
  "leadingFraction b x sc s = (f, sc', r) \<Longrightarrow> length r \<le> length s"
  by (induction b x sc s rule: leadingFraction.induct) (auto split: if_splits)

lemma takeWhile_nonempty_dropWhile_less:
  "takeWhile P s \<noteq> [] \<Longrightarrow> length (dropWhile P s) < length s"
  by (cases s) (auto simp: length_dropWhile_le less_Suc_eq_le split: if_splits)

lemma parse_component_length:
  assumes "parse_component s = Some (v, r)"
  shows "length r < length s"
proof -
  obtain w s1 where s1: "leadingInt 0 s = Some (w, s1)"
    using assms by (auto simp: parse_component_def split: option.splits)
  define s2 where "s2 = snd (snd (if s1 \<noteq> [] \<and> hd s1 = CHR ''.''
                                 then leadingFraction False 0 1 (tl s1) else (0, 1, s1)))"
  have l1: "length s1 \<le> length s" using s1 by (rule leadingInt_length)
  have "length s2 \<le> length s1"
  proof (cases "s1 \<noteq> [] \<and> hd s1 = CHR ''.''")
    case True
    obtain f sc r' where "leadingFraction False 0 1 (tl s1) = (f, sc, r')"
      by (cases "leadingFraction False 0 1 (tl s1)") auto
    with True leadingFraction_length [OF this] show ?thesis by (simp add: s2_def)
  qed (auto simp: s2_def)
  moreover have "length r < length s2"
    using assms s1 takeWhile_nonempty_dropWhile_less [of _ s2]
    by (auto simp: parse_component_def s2_def Let_def split: option.splits if_splits prod.splits)
  ultimately show ?thesis using l1 by linarith
qed

function parse_components :: "nat \<Rightarrow> string \<Rightarrow> nat option" where
  "parse_components d s =
     (if s = [] then Some d
      else if \<not> (hd s = CHR ''.'' \<or> is_digit (hd s)) then None
      else (case parse_component s of None \<Rightarrow> None
            | Some (v, r) \<Rightarrow> if d + v > 2 ^ 63 then None else parse_components (d + v) r))"
  by pat_completeness auto
termination
  by (relation "measure (\<lambda>(d, s). length s)") (auto dest: parse_component_length)

declare parse_components.simps [simp del]

definition time_ParseDuration :: "string \<Rightarrow> duration option" where
  "time_ParseDuration s =
     (let neg = (s \<noteq> [] \<and> hd s = CHR ''-'');
          body = (if s \<noteq> [] \<and> (hd s = CHR ''-'' \<or> hd s = CHR ''+'') then tl s else s)
      in if body = ''0'' then Some 0
         else if body = [] then None
         else (case parse_components 0 body of None \<Rightarrow> None
               | Some d \<Rightarrow>
                   if neg then Some (- int d)
                   else if d > 2 ^ 63 - 1 then None else Some (int d)))"

text \<open>The simplifier evaluates these on literal strings.\<close>

lemmas parse_eval =
  time_ParseDuration_def parse_components.simps parse_component_def unitMap_def
  is_digit_def digit_val_def Let_def

lemma time_ParseDuration_examples:
  "time_ParseDuration ''5s'' = Some (5 * Second)"
  "time_ParseDuration ''30s'' = Some (30 * Second)"
  "time_ParseDuration ''1m0s'' = Some (60 * Second)"
  "time_ParseDuration ''1.5h'' = Some (90 * Minute)"
  "time_ParseDuration ''0'' = Some 0"
  "time_ParseDuration ''-10ms'' = Some (- 10 * Millisecond)"
  "time_ParseDuration ''5'' = None"
  "time_ParseDuration [] = None"
  by (simp_all add: parse_eval)

text \<open>
  \<^verbatim>\<open>Duration.String\<close>: hours, minutes and seconds with a fraction, or a smaller unit below a
  second. A fraction has no trailing zeros, and none at all when it is zero.
\<close>

definition strip_zeros :: "string \<Rightarrow> string" where
  "strip_zeros s = rev (dropWhile (\<lambda>c. c = CHR ''0'') (rev s))"

definition fmtFrac :: "nat \<Rightarrow> nat \<Rightarrow> string" where
  "fmtFrac v prec =
     (let frac = dec_nat (v mod 10 ^ prec);
          digits = strip_zeros (replicate (prec - length frac) CHR ''0'' @ frac)
      in if v mod 10 ^ prec = 0 then [] else CHR ''.'' # digits)"

definition time_Duration_String :: "duration \<Rightarrow> string" where
  "time_Duration_String d =
     (let u = nat \<bar>d\<bar>;
          text =
            (if u < 1000000000 then
               (if u = 0 then ''0s''
                else if u < 1000 then dec_nat u @ ''ns''
                else if u < 1000000 then dec_nat (u div 1000) @ fmtFrac u 3 @ [CHR 0xC2, CHR 0xB5, CHR ''s'']
                else dec_nat (u div 1000000) @ fmtFrac u 6 @ ''ms'')
             else
               let secs = u div 1000000000;
                   mins = secs div 60;
                   hours = mins div 60
               in (if hours > 0 then dec_nat hours @ ''h'' else []) @
                  (if mins > 0 then dec_nat (mins mod 60) @ ''m'' else []) @
                  dec_nat (secs mod 60) @ fmtFrac u 9 @ ''s'')
      in if d < 0 then CHR ''-'' # text else text)"

lemma digit_char_eval:
  "digit_char 0 = CHR ''0''" "digit_char (Suc 0) = CHR ''1''" "digit_char 2 = CHR ''2''" "digit_char 3 = CHR ''3''"
  "digit_char 5 = CHR ''5''"
  by code_simp+

lemma time_Duration_String_examples:
  "time_Duration_String (2 * Second) = ''2s''"
  "time_Duration_String (30 * Second) = ''30s''"
  "time_Duration_String Minute = ''1m0s''"
  "time_Duration_String (1500 * Millisecond) = ''1.5s''"
  "time_Duration_String (- 10 * Millisecond) = ''-10ms''"
  "time_Duration_String 0 = ''0s''"
  by (simp_all add: time_Duration_String_def fmtFrac_def strip_zeros_def dec_nat.simps digit_char_eval Let_def)

subsection \<open>Package net\<close>

text \<open>A host with a colon is an IPv6 address and gets brackets.\<close>

definition net_JoinHostPort :: "string \<Rightarrow> string \<Rightarrow> string" where
  "net_JoinHostPort host port = (if CHR '':'' \<in> set host then ''['' @ host @ '']:'' @ port else host @ '':'' @ port)"

end
