(* ===== verification/NPD_Types.thy ===== *)
theory NPD_Types
  imports Go_Conv
begin

text \<open>
  The data that problem daemons and exporters exchange (\<^verbatim>\<open>pkg/types/types.go\<close>) and the
  helpers of \<^verbatim>\<open>pkg/util\<close> on it: the event for a condition change, the conversion to the
  Kubernetes API types, and the time from which a log watcher starts to look.

  Severities, condition statuses and problem types are open string types in the source, with
  a few named values; they are strings here as well, so that the \<^verbatim>\<open>default\<close> branches of the
  code are branches of the model.
\<close>

subsection \<open>pkg/types\<close>

type_synonym Severity = string
type_synonym ConditionStatus = string
type_synonym ProblemType = string

definition Info :: Severity where "Info = ''info''"
definition Warn :: Severity where "Warn = ''warn''"

definition CondTrue :: ConditionStatus where "CondTrue = ''True''"
definition CondFalse :: ConditionStatus where "CondFalse = ''False''"
definition CondUnknown :: ConditionStatus where "CondUnknown = ''Unknown''"

definition Temp :: ProblemType where "Temp = ''temporary''"
definition Perm :: ProblemType where "Perm = ''permanent''"

lemma status_distinct [simp]:
  "CondTrue \<noteq> CondFalse" "CondFalse \<noteq> CondTrue" "CondTrue \<noteq> CondUnknown"
  "CondUnknown \<noteq> CondTrue" "CondFalse \<noteq> CondUnknown" "CondUnknown \<noteq> CondFalse"
  by (simp_all add: CondTrue_def CondFalse_def CondUnknown_def)

lemma type_severity_distinct [simp]:
  "Temp \<noteq> Perm" "Perm \<noteq> Temp" "Info \<noteq> Warn" "Warn \<noteq> Info"
  by (simp_all add: Temp_def Perm_def Info_def Warn_def)

record Condition =
  c_Type :: string
  c_Status :: ConditionStatus
  c_Transition :: gotime
  c_Reason :: string
  c_Message :: string

record Event =
  e_Severity :: Severity
  e_Timestamp :: gotime
  e_Reason :: string
  e_Message :: string

record Status =
  s_Source :: string
  s_Events :: "Event list"
  s_Conditions :: "Condition list"

text \<open>The zero value of the struct, which a Go map returns for a missing key.\<close>

definition zero_Condition :: Condition where
  "zero_Condition =
     \<lparr>c_Type = [], c_Status = [], c_Transition = zero_time, c_Reason = [], c_Message = []\<rparr>"

text \<open>The condition of a type that counts: the first one.\<close>

definition condition_of :: "string \<Rightarrow> Condition list \<Rightarrow> Condition option" where
  "condition_of t cs = find (\<lambda>c. c_Type c = t) cs"

subsection \<open>pkg/util/helpers.go\<close>

definition GenerateConditionChangeEvent ::
    "string \<Rightarrow> ConditionStatus \<Rightarrow> string \<Rightarrow> string \<Rightarrow> gotime \<Rightarrow> Event" where
  "GenerateConditionChangeEvent t status reason message timestamp =
     \<lparr>e_Severity = (if status = CondTrue then Warn else Info),
      e_Timestamp = timestamp,
      e_Reason = reason,
      e_Message = ''Node condition '' @ t @ '' is now: '' @ status @ '', reason: '' @ reason @
                  '', message: '' @ strconv_Quote message\<rparr>"

lemma GenerateConditionChangeEvent_simps [simp]:
  "e_Severity (GenerateConditionChangeEvent t st r m ts) = (if st = CondTrue then Warn else Info)"
  "e_Timestamp (GenerateConditionChangeEvent t st r m ts) = ts"
  "e_Reason (GenerateConditionChangeEvent t st r m ts) = r"
  by (simp_all add: GenerateConditionChangeEvent_def)

datatype start_error = BadDelay string | BadLookback string

definition GetStartTime ::
    "gotime \<Rightarrow> duration \<Rightarrow> string \<Rightarrow> string \<Rightarrow> start_error + gotime" where
  "GetStartTime now uptimeDuration lookbackStr delayStr =
     and_then
       (if delayStr \<noteq> [] then
          (case time_ParseDuration delayStr of
             None \<Rightarrow> Err (BadDelay delayStr)
           | Some delay \<Rightarrow> Ok ((now - uptimeDuration) + delay))
        else Ok (now - uptimeDuration))
       (\<lambda>startTime.
          and_then
            (if lookbackStr \<noteq> [] then
               (case time_ParseDuration lookbackStr of
                  None \<Rightarrow> Err (BadLookback lookbackStr)
                | Some lookback \<Rightarrow> Ok (now - lookback))
             else Ok now)
            (\<lambda>lookbackStartTime.
               Ok (if startTime < lookbackStartTime then lookbackStartTime else startTime)))"

subsection \<open>pkg/util/convert.go\<close>

record NodeCondition =
  nc_Type :: string
  nc_Status :: string
  nc_LastHeartbeatTime :: gotime
  nc_LastTransitionTime :: gotime
  nc_Reason :: string
  nc_Message :: string

datatype convert_panic = UnknownConditionStatus

text \<open>The API's names of the statuses and event types.\<close>

definition ConditionTrue :: string where "ConditionTrue = ''True''"
definition ConditionFalse :: string where "ConditionFalse = ''False''"
definition ConditionUnknown :: string where "ConditionUnknown = ''Unknown''"
definition EventTypeNormal :: string where "EventTypeNormal = ''Normal''"
definition EventTypeWarning :: string where "EventTypeWarning = ''Warning''"

definition ConvertToAPIConditionStatus :: "ConditionStatus \<Rightarrow> convert_panic + string" where
  "ConvertToAPIConditionStatus status =
     (if status = CondTrue then Ok ConditionTrue
      else if status = CondFalse then Ok ConditionFalse
      else if status = CondUnknown then Ok ConditionUnknown
      else Err UnknownConditionStatus)"

definition ConvertToAPITimestamp :: "gotime \<Rightarrow> gotime" where
  "ConvertToAPITimestamp timestamp = timestamp"

definition ConvertToAPICondition :: "Condition \<Rightarrow> convert_panic + NodeCondition" where
  "ConvertToAPICondition condition =
     and_then (ConvertToAPIConditionStatus (c_Status condition)) (\<lambda>status.
       Ok \<lparr>nc_Type = c_Type condition,
           nc_Status = status,
           nc_LastHeartbeatTime = zero_time,
           nc_LastTransitionTime = ConvertToAPITimestamp (c_Transition condition),
           nc_Reason = c_Reason condition,
           nc_Message = c_Message condition\<rparr>)"

definition ConvertToAPIEventType :: "Severity \<Rightarrow> string" where
  "ConvertToAPIEventType severity =
     (if severity = Info then EventTypeNormal
      else if severity = Warn then EventTypeWarning
      else EventTypeNormal)"

definition known_status :: "Condition \<Rightarrow> bool" where
  "known_status c \<longleftrightarrow> c_Status c \<in> {CondTrue, CondFalse, CondUnknown}"

lemma ConvertToAPICondition_total:
  "known_status c \<Longrightarrow> \<exists>nc. ConvertToAPICondition c = Ok nc"
  by (auto simp: known_status_def ConvertToAPICondition_def ConvertToAPIConditionStatus_def)

lemma ConvertToAPICondition_fields:
  "ConvertToAPICondition c = Ok nc \<Longrightarrow>
   nc_Type nc = c_Type c \<and> nc_Status nc = c_Status c \<and> nc_Reason nc = c_Reason c \<and>
   nc_Message nc = c_Message c \<and> nc_LastTransitionTime nc = c_Transition c"
  by (auto simp: ConvertToAPICondition_def ConvertToAPIConditionStatus_def ConvertToAPITimestamp_def
      CondTrue_def CondFalse_def CondUnknown_def ConditionTrue_def ConditionFalse_def
      ConditionUnknown_def split: if_splits)

end
