(* ===== verification/Go_Regexp.thy ===== *)
theory Go_Regexp
  imports Go_Strings
begin

text \<open>
  Go's \<^verbatim>\<open>regexp\<close> and \<^verbatim>\<open>regexp/syntax\<close>, as far as the detector depends on them: the
  syntax tree of a parsed expression, the meaning of a tree as a relation between the start
  and the end (byte offsets) of a match, and an executable matcher that computes the ends.
  The leftmost match is the one at the least start that has any match, so its start, the only
  part the detector reads, does not depend on the preference among matches of the same start.
  Parsing is not defined here: the functions that need it take the parser as an argument.
\<close>

subsection \<open>Runes of a byte string\<close>

type_synonym rune = nat

definition RuneError :: rune where
  "RuneError = 65533"

text \<open>
  The lead bytes of multi-byte sequences: the length of the sequence and the range its second
  byte must be in.
\<close>

definition utf8_lead :: "nat \<Rightarrow> (nat \<times> nat \<times> nat) option" where
  "utf8_lead b =
     (if 0xC2 \<le> b \<and> b \<le> 0xDF then Some (2, 0x80, 0xBF)
      else if b = 0xE0 then Some (3, 0xA0, 0xBF)
      else if b = 0xED then Some (3, 0x80, 0x9F)
      else if 0xE1 \<le> b \<and> b \<le> 0xEF then Some (3, 0x80, 0xBF)
      else if b = 0xF0 then Some (4, 0x90, 0xBF)
      else if b = 0xF4 then Some (4, 0x80, 0x8F)
      else if 0xF1 \<le> b \<and> b \<le> 0xF3 then Some (4, 0x80, 0xBF)
      else None)"

definition utf8_cont :: "nat \<Rightarrow> bool" where
  "utf8_cont b \<longleftrightarrow> 0x80 \<le> b \<and> b \<le> 0xBF"

text \<open>\<^verbatim>\<open>utf8.DecodeRuneInString\<close>: the first rune and its width; a byte that starts no
  valid sequence is the error rune of width 1.\<close>

definition utf8_DecodeRune :: "string \<Rightarrow> rune \<times> nat" where
  "utf8_DecodeRune s =
     (case map of_char s of
        [] \<Rightarrow> (RuneError, 0)
      | b0 # bs \<Rightarrow>
          if b0 < 0x80 then (b0, 1)
          else (case utf8_lead b0 of
                  None \<Rightarrow> (RuneError, 1)
                | Some (n, lo, hi) \<Rightarrow>
                    (case bs of
                       [] \<Rightarrow> (RuneError, 1)
                     | b1 # bs1 \<Rightarrow>
                         if b1 < lo \<or> hi < b1 then (RuneError, 1)
                         else if n = 2 then ((b0 - 0xC0) * 64 + (b1 - 0x80), 2)
                         else (case bs1 of
                                 [] \<Rightarrow> (RuneError, 1)
                               | b2 # bs2 \<Rightarrow>
                                   if \<not> utf8_cont b2 then (RuneError, 1)
                                   else if n = 3
                                   then ((b0 - 0xE0) * 4096 + (b1 - 0x80) * 64 + (b2 - 0x80), 3)
                                   else (case bs2 of
                                           [] \<Rightarrow> (RuneError, 1)
                                         | b3 # _ \<Rightarrow>
                                             if \<not> utf8_cont b3 then (RuneError, 1)
                                             else ((b0 - 0xF0) * 262144 + (b1 - 0x80) * 4096
                                                   + (b2 - 0x80) * 64 + (b3 - 0x80), 4))))))"

lemma utf8_DecodeRune_width:
  "s \<noteq> [] \<Longrightarrow> 0 < snd (utf8_DecodeRune s) \<and> snd (utf8_DecodeRune s) \<le> length s"
  by (cases s) (auto simp: utf8_DecodeRune_def split: list.splits option.splits)

lemma utf8_DecodeRune_ascii:
  "(of_char c :: nat) < 0x80 \<Longrightarrow> utf8_DecodeRune (c # cs) = (of_char c, 1)"
  by (simp add: utf8_DecodeRune_def)

lemma utf8_DecodeRune_nl [simp]: "utf8_DecodeRune (nl # cs) = (10, 1)"
  by (simp add: utf8_DecodeRune_ascii)

lemma utf8_lead_bounds:
  "utf8_lead b = Some (n, lo, hi) \<Longrightarrow>
   0xC2 \<le> b \<and> 0x80 \<le> lo \<and> (n = 2 \<or> n = 3 \<and> 0xE0 \<le> b \<and> (b = 0xE0 \<longrightarrow> 0xA0 \<le> lo)
     \<or> n = 4 \<and> 0xF0 \<le> b \<and> (b = 0xF0 \<longrightarrow> 0x90 \<le> lo))"
  by (auto simp: utf8_lead_def split: if_splits)

lemma of_char_nl_iff: "(of_char c :: nat) = 10 \<longleftrightarrow> c = nl"
proof -
  have "(of_char nl :: nat) = 10" by simp
  then show ?thesis by (metis char_of_char)
qed

text \<open>A rune other than the newline takes up no byte that is a newline, and is not 10.\<close>

lemma utf8_DecodeRune_not_nl:
  assumes "c \<noteq> nl"
  shows "fst (utf8_DecodeRune (c # cs)) \<noteq> 10"
    and "nl \<notin> set (take (snd (utf8_DecodeRune (c # cs))) (c # cs))"
proof -
  have ne: "(of_char c :: nat) \<noteq> 10" using assms by (simp add: of_char_nl_iff)
  show "fst (utf8_DecodeRune (c # cs)) \<noteq> 10"
    using ne utf8_lead_bounds [of "of_char c"]
    by (auto simp: utf8_DecodeRune_def RuneError_def split: list.splits option.splits)
  show "nl \<notin> set (take (snd (utf8_DecodeRune (c # cs))) (c # cs))"
    using assms utf8_lead_bounds [of "of_char c"]
    by (auto simp: utf8_DecodeRune_def utf8_cont_def split: list.splits option.splits)
qed

subsection \<open>Syntax trees\<close>

datatype RegexpOp =
    OpNoMatch | OpEmptyMatch | OpLiteral | OpCharClass | OpAnyCharNotNL | OpAnyChar
  | OpBeginLine | OpEndLine | OpBeginText | OpEndText | OpWordBoundary | OpNoWordBoundary
  | OpCapture | OpStar | OpPlus | OpQuest | OpRepeat | OpConcat | OpAlternate

record re_attr =
  FoldCase :: bool
  NonGreedy :: bool
  WasDollar :: bool
  re_Min :: nat
  re_Max :: int
  re_Cap :: int
  re_Name :: string

text \<open>The struct \<^verbatim>\<open>syntax.Regexp\<close>: operator, flags and counts, children, runes.\<close>

datatype Regexp = Regexp (Op: RegexpOp) (Attr: re_attr) (Sub: "Regexp list") (Rune: "rune list")

definition no_attr :: re_attr where
  "no_attr = \<lparr>FoldCase = False, NonGreedy = False, WasDollar = False,
              re_Min = 0, re_Max = 0, re_Cap = 0, re_Name = []\<rparr>"

text \<open>\<^verbatim>\<open>Regexp.Equal\<close>.\<close>

lemma size_Sub: "x \<in> set xs \<Longrightarrow> size x < Suc (size_list size xs)"
  by (induction xs) auto

function Regexp_Equal :: "Regexp \<Rightarrow> Regexp \<Rightarrow> bool" where
  "Regexp_Equal (Regexp op a subs rs) (Regexp op' a' subs' rs') =
     (op = op' \<and>
      (case op of
         OpEndText \<Rightarrow> WasDollar a = WasDollar a'
       | OpLiteral \<Rightarrow> rs = rs'
       | OpCharClass \<Rightarrow> rs = rs'
       | OpAlternate \<Rightarrow>
           length subs = length subs' \<and> (\<forall>(x, y) \<in> set (zip subs subs'). Regexp_Equal x y)
       | OpConcat \<Rightarrow>
           length subs = length subs' \<and> (\<forall>(x, y) \<in> set (zip subs subs'). Regexp_Equal x y)
       | OpStar \<Rightarrow> NonGreedy a = NonGreedy a' \<and>
           (\<forall>(x, y) \<in> set (zip (take 1 subs) (take 1 subs')). Regexp_Equal x y)
       | OpPlus \<Rightarrow> NonGreedy a = NonGreedy a' \<and>
           (\<forall>(x, y) \<in> set (zip (take 1 subs) (take 1 subs')). Regexp_Equal x y)
       | OpQuest \<Rightarrow> NonGreedy a = NonGreedy a' \<and>
           (\<forall>(x, y) \<in> set (zip (take 1 subs) (take 1 subs')). Regexp_Equal x y)
       | OpRepeat \<Rightarrow> NonGreedy a = NonGreedy a' \<and> re_Min a = re_Min a' \<and> re_Max a = re_Max a' \<and>
           (\<forall>(x, y) \<in> set (zip (take 1 subs) (take 1 subs')). Regexp_Equal x y)
       | OpCapture \<Rightarrow> re_Cap a = re_Cap a' \<and> re_Name a = re_Name a' \<and>
           (\<forall>(x, y) \<in> set (zip (take 1 subs) (take 1 subs')). Regexp_Equal x y)
       | _ \<Rightarrow> True))"
  by pat_completeness auto
termination
  by (relation "measure (\<lambda>(x, y). size x)")
    (auto dest!: set_zip_leftD in_set_takeD intro: size_Sub)

lemma Regexp_Equal_Op: "Regexp_Equal x y \<Longrightarrow> Op x = Op y"
  by (cases x; cases y) simp

subsection \<open>The meaning of a tree\<close>

text \<open>
  Simple case folding on the ASCII letters and the two other runes that fold to one; other
  runes only match themselves.
\<close>

definition fold_key :: "rune \<Rightarrow> rune" where
  "fold_key r =
     (if 65 \<le> r \<and> r \<le> 90 then r + 32 else if r = 0x212A then 107 else if r = 0x17F then 115 else r)"

definition rune_eq :: "bool \<Rightarrow> rune \<Rightarrow> rune \<Rightarrow> bool" where
  "rune_eq fc r r' = (if fc then fold_key r = fold_key r' else r = r')"

text \<open>A character class holds its runes as inclusive pairs of bounds.\<close>

fun class_mem :: "rune list \<Rightarrow> rune \<Rightarrow> bool" where
  "class_mem (lo # hi # rs) r = (lo \<le> r \<and> r \<le> hi \<or> class_mem rs r)"
| "class_mem _ r = False"

text \<open>Consuming one rune that satisfies a predicate, and a sequence of given runes.\<close>

definition eat :: "(rune \<Rightarrow> bool) \<Rightarrow> string \<Rightarrow> nat \<Rightarrow> nat option" where
  "eat p s i =
     (if i < length s \<and> p (fst (utf8_DecodeRune (drop i s)))
      then Some (i + snd (utf8_DecodeRune (drop i s))) else None)"

fun eat_all :: "bool \<Rightarrow> rune list \<Rightarrow> string \<Rightarrow> nat \<Rightarrow> nat option" where
  "eat_all fc [] s i = Some i"
| "eat_all fc (r # rs) s i =
     (case eat (rune_eq fc r) s i of None \<Rightarrow> None | Some k \<Rightarrow> eat_all fc rs s k)"

definition is_word_char :: "char \<Rightarrow> bool" where
  "is_word_char c \<longleftrightarrow>
     (let n = (of_char c :: nat) in
      48 \<le> n \<and> n \<le> 57 \<or> 65 \<le> n \<and> n \<le> 90 \<or> n = 95 \<or> 97 \<le> n \<and> n \<le> 122)"

definition word_boundary :: "string \<Rightarrow> nat \<Rightarrow> bool" where
  "word_boundary s i \<longleftrightarrow>
     (0 < i \<and> is_word_char (s ! (i - 1))) \<noteq> (i < length s \<and> is_word_char (s ! i))"

text \<open>\<open>re_match r s i j\<close>: the text of \<open>s\<close> from \<open>i\<close> to \<open>j\<close> is a match of \<open>r\<close>.\<close>

function re_match :: "Regexp \<Rightarrow> string \<Rightarrow> nat \<Rightarrow> nat \<Rightarrow> bool" where
  "re_match (Regexp op a subs rs) s i j =
     (case op of
        OpNoMatch \<Rightarrow> False
      | OpEmptyMatch \<Rightarrow> j = i
      | OpLiteral \<Rightarrow> eat_all (FoldCase a) rs s i = Some j
      | OpCharClass \<Rightarrow> eat (class_mem rs) s i = Some j
      | OpAnyCharNotNL \<Rightarrow> eat (\<lambda>r. r \<noteq> 10) s i = Some j
      | OpAnyChar \<Rightarrow> eat (\<lambda>r. True) s i = Some j
      | OpBeginLine \<Rightarrow> j = i \<and> (i = 0 \<or> s ! (i - 1) = nl)
      | OpEndLine \<Rightarrow> j = i \<and> (i = length s \<or> s ! i = nl)
      | OpBeginText \<Rightarrow> j = i \<and> i = 0
      | OpEndText \<Rightarrow> j = i \<and> i = length s
      | OpWordBoundary \<Rightarrow> j = i \<and> word_boundary s i
      | OpNoWordBoundary \<Rightarrow> j = i \<and> \<not> word_boundary s i
      | OpCapture \<Rightarrow> (\<exists>r \<in> set (take 1 subs). re_match r s i j)
      | OpStar \<Rightarrow> (\<exists>r \<in> set (take 1 subs). (re_match r s)\<^sup>*\<^sup>* i j)
      | OpPlus \<Rightarrow> (\<exists>r \<in> set (take 1 subs). (re_match r s)\<^sup>+\<^sup>+ i j)
      | OpQuest \<Rightarrow> j = i \<or> (\<exists>r \<in> set (take 1 subs). re_match r s i j)
      | OpRepeat \<Rightarrow>
          (\<exists>r \<in> set (take 1 subs). \<exists>n \<ge> re_Min a.
             (re_Max a = -1 \<or> int n \<le> re_Max a) \<and> (re_match r s ^^ n) i j)
      | OpConcat \<Rightarrow> foldr (OO) (map (\<lambda>r. re_match r s) subs) (=) i j
      | OpAlternate \<Rightarrow> (\<exists>r \<in> set subs. re_match r s i j))"
  by pat_completeness auto
termination
  by (relation "measure (\<lambda>(r, s, i, j). size r)")
    (auto dest!: in_set_takeD intro: size_Sub)

declare re_match.simps [simp del]

lemmas re_match_op = re_match.simps

subsection \<open>The executable matcher\<close>

definition ends_option :: "nat option \<Rightarrow> nat list" where
  "ends_option x = (case x of None \<Rightarrow> [] | Some j \<Rightarrow> [j])"

definition ends_if :: "bool \<Rightarrow> nat \<Rightarrow> nat list" where
  "ends_if b i = (if b then [i] else [])"

text \<open>
  The ends of a repetition from \<open>i\<close>. An iteration that consumes nothing adds no end, so the
  length of the text is enough fuel.
\<close>

fun star_ends :: "(nat \<Rightarrow> nat list) \<Rightarrow> nat \<Rightarrow> nat \<Rightarrow> nat list" where
  "star_ends f 0 i = [i]"
| "star_ends f (Suc n) i = i # concat (map (star_ends f n) (filter (\<lambda>j. i < j) (f i)))"

definition seq_ends :: "(nat \<Rightarrow> nat list) list \<Rightarrow> nat list \<Rightarrow> nat list" where
  "seq_ends fs is = fold (\<lambda>f js. remdups (concat (map f js))) fs is"

text \<open>At most \<open>n\<close> further iterations.\<close>

fun upto_ends :: "(nat \<Rightarrow> nat list) \<Rightarrow> nat \<Rightarrow> nat list \<Rightarrow> nat list" where
  "upto_ends f 0 is = is"
| "upto_ends f (Suc n) is = remdups (is @ upto_ends f n (remdups (concat (map f is))))"

function re_ends :: "Regexp \<Rightarrow> string \<Rightarrow> nat \<Rightarrow> nat list" where
  "re_ends (Regexp op a subs rs) s i =
     (case op of
        OpNoMatch \<Rightarrow> []
      | OpEmptyMatch \<Rightarrow> [i]
      | OpLiteral \<Rightarrow> ends_option (eat_all (FoldCase a) rs s i)
      | OpCharClass \<Rightarrow> ends_option (eat (class_mem rs) s i)
      | OpAnyCharNotNL \<Rightarrow> ends_option (eat (\<lambda>r. r \<noteq> 10) s i)
      | OpAnyChar \<Rightarrow> ends_option (eat (\<lambda>r. True) s i)
      | OpBeginLine \<Rightarrow> ends_if (i = 0 \<or> s ! (i - 1) = nl) i
      | OpEndLine \<Rightarrow> ends_if (i = length s \<or> s ! i = nl) i
      | OpBeginText \<Rightarrow> ends_if (i = 0) i
      | OpEndText \<Rightarrow> ends_if (i = length s) i
      | OpWordBoundary \<Rightarrow> ends_if (word_boundary s i) i
      | OpNoWordBoundary \<Rightarrow> ends_if (\<not> word_boundary s i) i
      | OpCapture \<Rightarrow> concat (map (\<lambda>r. re_ends r s i) (take 1 subs))
      | OpStar \<Rightarrow> concat (map (\<lambda>r. star_ends (re_ends r s) (length s) i) (take 1 subs))
      | OpPlus \<Rightarrow>
          concat (map (\<lambda>r. concat (map (star_ends (re_ends r s) (length s)) (re_ends r s i)))
                      (take 1 subs))
      | OpQuest \<Rightarrow> i # concat (map (\<lambda>r. re_ends r s i) (take 1 subs))
      | OpRepeat \<Rightarrow>
          concat (map (\<lambda>r.
            let js = seq_ends (replicate (re_Min a) (re_ends r s)) [i]
            in if re_Max a = -1 then concat (map (star_ends (re_ends r s) (length s)) js)
               else if re_Max a < int (re_Min a) then []
               else upto_ends (re_ends r s) (nat (re_Max a) - re_Min a) js)
            (take 1 subs))
      | OpConcat \<Rightarrow> seq_ends (map (\<lambda>r. re_ends r s) subs) [i]
      | OpAlternate \<Rightarrow> concat (map (\<lambda>r. re_ends r s i) subs))"
  by pat_completeness auto
termination
  by (relation "measure (\<lambda>(r, s, i). size r)")
    (auto dest!: in_set_takeD intro: size_Sub)

declare re_ends.simps [simp del]

subsection \<open>The matcher computes the relation\<close>

lemma eat_bounds: "eat p s i = Some j \<Longrightarrow> i < j \<and> j \<le> length s"
  using utf8_DecodeRune_width [of "drop i s"]
  by (auto simp: eat_def split: if_splits)

lemma eat_all_bounds: "eat_all fc rs s i = Some j \<Longrightarrow> i \<le> j \<and> (i \<le> length s \<longrightarrow> j \<le> length s)"
proof (induction rs arbitrary: i)
  case Nil
  then show ?case by simp
next
  case (Cons r rs)
  then show ?case by (fastforce split: option.splits dest: eat_bounds)
qed

text \<open>A step relation on offsets that moves forward and stays within the text.\<close>

definition forward :: "nat \<Rightarrow> (nat \<Rightarrow> nat \<Rightarrow> bool) \<Rightarrow> bool" where
  "forward N R \<longleftrightarrow> (\<forall>i j. R i j \<longrightarrow> i \<le> j \<and> (i \<le> N \<longrightarrow> j \<le> N))"

lemma forwardD: "forward N R \<Longrightarrow> R i j \<Longrightarrow> i \<le> j \<and> (i \<le> N \<longrightarrow> j \<le> N)"
  by (simp add: forward_def)

lemma forward_rtranclp: "forward N R \<Longrightarrow> forward N (R\<^sup>*\<^sup>*)"
proof -
  assume R: "forward N R"
  have "R\<^sup>*\<^sup>* i j \<Longrightarrow> i \<le> j \<and> (i \<le> N \<longrightarrow> j \<le> N)" for i j
    by (induction rule: rtranclp_induct) (auto dest: forwardD [OF R])
  then show ?thesis by (simp add: forward_def)
qed

lemma forward_tranclp: "forward N R \<Longrightarrow> forward N (R\<^sup>+\<^sup>+)"
  using forward_rtranclp [of N R] by (auto simp: forward_def dest: tranclp_into_rtranclp)

lemma forward_relpowp: "forward N R \<Longrightarrow> forward N (R ^^ n)"
  using forward_rtranclp [of N R] by (auto simp: forward_def dest: relpowp_imp_rtranclp)

lemma forward_relcompp: "forward N R \<Longrightarrow> forward N S \<Longrightarrow> forward N (R OO S)"
  by (fastforce simp: forward_def)

lemma forward_foldr: "(\<And>R. R \<in> set Rs \<Longrightarrow> forward N R) \<Longrightarrow> forward N (foldr (OO) Rs (=))"
  by (induction Rs) (auto simp: forward_relcompp, simp add: forward_def)

lemma re_match_forward: "forward (length s) (re_match r s)"
proof (induction r)
  case (Regexp op a subs rs)
  have sub: "forward (length s) (re_match r s)" if "r \<in> set subs" for r
    using that Regexp.IH by blast
  have one: "forward (length s) (re_match r s)" if "r \<in> set (take (Suc 0) subs)" for r
    using that sub by (blast dest: in_set_takeD)
  have cat: "forward (length s) (foldr (OO) (map (\<lambda>r. re_match r s) subs) (=))"
    by (rule forward_foldr) (auto simp: sub)
  note lift = forward_rtranclp forward_tranclp forward_relpowp
  show ?case
    unfolding forward_def
  proof (intro allI impI)
    fix i j
    assume m: "re_match (Regexp op a subs rs) s i j"
    show "i \<le> j \<and> (i \<le> length s \<longrightarrow> j \<le> length s)"
    proof (cases op)
      case OpConcat
      with m forwardD [OF cat] show ?thesis by (auto simp: re_match_op)
    next
      case OpAlternate
      with m show ?thesis by (auto simp: re_match_op dest: forwardD [OF sub])
    next
      case OpCapture
      with m show ?thesis by (auto simp: re_match_op dest: forwardD [OF one])
    next
      case OpQuest
      with m show ?thesis by (auto simp: re_match_op dest: forwardD [OF one])
    next
      case OpStar
      with m show ?thesis by (auto simp: re_match_op dest: forwardD [OF lift(1) [OF one]])
    next
      case OpPlus
      with m show ?thesis by (auto simp: re_match_op dest: forwardD [OF lift(2) [OF one]])
    next
      case OpRepeat
      with m show ?thesis by (auto simp: re_match_op dest: forwardD [OF lift(3) [OF one]])
    qed (use m in \<open>auto simp: re_match_op dest: eat_bounds eat_all_bounds\<close>)
  qed
qed

text \<open>An executable function that computes the successors of a relation within the text.\<close>

definition computes :: "nat \<Rightarrow> (nat \<Rightarrow> nat list) \<Rightarrow> (nat \<Rightarrow> nat \<Rightarrow> bool) \<Rightarrow> bool" where
  "computes N f R \<longleftrightarrow> forward N R \<and> (\<forall>i j. i \<le> N \<longrightarrow> (j \<in> set (f i) \<longleftrightarrow> R i j))"

lemma computesD: "computes N f R \<Longrightarrow> i \<le> N \<Longrightarrow> j \<in> set (f i) \<longleftrightarrow> R i j"
  by (simp add: computes_def)

lemma computes_bound: "computes N f R \<Longrightarrow> i \<le> N \<Longrightarrow> j \<in> set (f i) \<Longrightarrow> j \<le> N"
  by (auto simp: computes_def forward_def)

lemma rtranclp_first_step:
  assumes "R\<^sup>*\<^sup>* i j" and "forward N R" and "i \<noteq> j"
  shows "\<exists>k. R i k \<and> i < k \<and> R\<^sup>*\<^sup>* k j"
  using assms(1,3)
proof (induction rule: converse_rtranclp_induct)
  case base
  then show ?case by simp
next
  case (step y z)
  then show ?case using forwardD [OF assms(2) step(1)] by (cases "y = z") auto
qed

lemma star_ends_correct:
  assumes "computes N f R" and "i \<le> N" and "N - i \<le> n"
  shows "j \<in> set (star_ends f n i) \<longleftrightarrow> R\<^sup>*\<^sup>* i j"
  using assms(2,3)
proof (induction n arbitrary: i)
  case 0
  have fw: "forward N R" using assms(1) by (simp add: computes_def)
  from 0 have "i = N" by simp
  have "R\<^sup>*\<^sup>* i j \<Longrightarrow> j = i"
    using forwardD [OF forward_rtranclp [OF fw], of i j] \<open>i = N\<close> by simp
  then show ?case by auto
next
  case (Suc n)
  have fw: "forward N R" using assms(1) by (simp add: computes_def)
  have IH: "j \<in> set (star_ends f n k) \<longleftrightarrow> R\<^sup>*\<^sup>* k j" if "R i k" and "i < k" for k
    using that Suc forwardD [OF fw that(1)] by auto
  have "j \<in> set (star_ends f (Suc n) i) \<longleftrightarrow> j = i \<or> (\<exists>k. R i k \<and> i < k \<and> R\<^sup>*\<^sup>* k j)"
    using IH computesD [OF assms(1) Suc.prems(1)] by auto
  also have "\<dots> \<longleftrightarrow> R\<^sup>*\<^sup>* i j"
    using rtranclp_first_step [OF _ fw] by (auto intro: converse_rtranclp_into_rtranclp)
  finally show ?case .
qed

lemma seq_ends_correct:
  assumes "list_all2 (computes N) fs Rs" and "\<forall>i \<in> set is. i \<le> N"
  shows "j \<in> set (seq_ends fs is) \<longleftrightarrow> (\<exists>i \<in> set is. foldr (OO) Rs (=) i j)"
  using assms
proof (induction arbitrary: "is" rule: list_all2_induct)
  case Nil
  then show ?case by (auto simp: seq_ends_def)
next
  case (Cons f fs R Rs)
  let ?js = "remdups (concat (map f is))"
  have "\<forall>k \<in> set ?js. k \<le> N"
    using Cons.prems Cons.hyps(1) by (auto dest: computes_bound)
  then have "j \<in> set (seq_ends fs ?js) \<longleftrightarrow> (\<exists>k \<in> set ?js. foldr (OO) Rs (=) k j)"
    by (rule Cons.IH)
  moreover have "seq_ends (f # fs) is = seq_ends fs ?js" by (simp add: seq_ends_def)
  moreover have "k \<in> set ?js \<longleftrightarrow> (\<exists>i \<in> set is. R i k)" for k
    using Cons.prems computesD [OF Cons.hyps(1)] by auto
  moreover have "foldr (OO) (R # Rs) (=) i j \<longleftrightarrow> (\<exists>k. R i k \<and> foldr (OO) Rs (=) k j)" for i
    by (auto elim!: relcomppE intro: relcomppI)
  ultimately show ?case by (metis (no_types, lifting))
qed

lemma upto_ends_correct:
  assumes "computes N f R" and "\<forall>i \<in> set is. i \<le> N"
  shows "j \<in> set (upto_ends f n is) \<longleftrightarrow> (\<exists>m \<le> n. \<exists>i \<in> set is. (R ^^ m) i j)"
  using assms(2)
proof (induction n arbitrary: "is")
  case 0
  then show ?case by auto
next
  case (Suc n)
  let ?js = "remdups (concat (map f is))"
  have "\<forall>k \<in> set ?js. k \<le> N"
    using Suc.prems assms(1) by (auto dest: computes_bound)
  note IH = Suc.IH [OF this]
  have js: "k \<in> set ?js \<longleftrightarrow> (\<exists>i \<in> set is. R i k)" for k
    using Suc.prems computesD [OF assms(1)] by auto
  have "j \<in> set (upto_ends f n ?js) \<longleftrightarrow> (\<exists>m \<le> n. \<exists>k \<in> set ?js. (R ^^ m) k j)"
    by (rule IH)
  also have "\<dots> \<longleftrightarrow> (\<exists>m \<le> n. \<exists>i \<in> set is. (R ^^ Suc m) i j)"
    using js by (blast intro: relpowp_Suc_I2 dest: relpowp_Suc_D2)
  finally have step: "j \<in> set (upto_ends f n ?js) \<longleftrightarrow> (\<exists>m \<le> n. \<exists>i \<in> set is. (R ^^ Suc m) i j)" .
  have "(\<exists>m \<le> Suc n. \<exists>i \<in> set is. (R ^^ m) i j) \<longleftrightarrow>
        (\<exists>i \<in> set is. (R ^^ 0) i j) \<or> (\<exists>m \<le> n. \<exists>i \<in> set is. (R ^^ Suc m) i j)"
    by (metis Suc_le_mono le0 not0_implies_Suc)
  with step show ?case by auto
qed

lemma relcompp_power:
  fixes R :: "'a \<Rightarrow> 'a \<Rightarrow> bool"
  shows "((OO) R ^^ n) (=) = R ^^ n"
proof (induction n)
  case 0
  show ?case by simp
next
  case (Suc n)
  then have "((OO) R ^^ Suc n) (=) = R OO R ^^ n" by simp
  then show ?case by (simp add: relpowp_commute)
qed

lemma seq_ends_replicate:
  "computes N f R \<Longrightarrow> i \<le> N \<Longrightarrow> j \<in> set (seq_ends (replicate n f) [i]) \<longleftrightarrow> (R ^^ n) i j"
  using seq_ends_correct [of N "replicate n f" "replicate n R" "[i]" j]
  by (simp add: list_all2_conv_all_nth relcompp_power)

lemma relpowp_ge_iff: "(\<exists>k. (R ^^ n) i k \<and> R\<^sup>*\<^sup>* k j) \<longleftrightarrow> (\<exists>m \<ge> n. (R ^^ m) i j)"
proof
  assume "\<exists>k. (R ^^ n) i k \<and> R\<^sup>*\<^sup>* k j"
  then obtain k l where "(R ^^ n) i k" and "(R ^^ l) k j"
    by (auto simp: rtranclp_power)
  then have "(R ^^ (n + l)) i j" by (auto simp: relpowp_add)
  then show "\<exists>m \<ge> n. (R ^^ m) i j" by (meson le_add1)
next
  assume "\<exists>m \<ge> n. (R ^^ m) i j"
  then obtain l where "(R ^^ (n + l)) i j" by (metis le_Suc_ex)
  then show "\<exists>k. (R ^^ n) i k \<and> R\<^sup>*\<^sup>* k j"
    by (auto simp: relpowp_add dest: relpowp_imp_rtranclp)
qed

lemma relpowp_between_iff:
  "n \<le> M \<Longrightarrow>
   (\<exists>m \<le> M - n. \<exists>k. (R ^^ n) i k \<and> (R ^^ m) k j) \<longleftrightarrow> (\<exists>m. n \<le> m \<and> m \<le> M \<and> (R ^^ m) i j)"
proof
  assume "n \<le> M" and "\<exists>m \<le> M - n. \<exists>k. (R ^^ n) i k \<and> (R ^^ m) k j"
  then obtain m where "m \<le> M - n" and "(R ^^ (n + m)) i j" by (auto simp: relpowp_add)
  with \<open>n \<le> M\<close> show "\<exists>m. n \<le> m \<and> m \<le> M \<and> (R ^^ m) i j"
    by (intro exI [of _ "n + m"]) auto
next
  assume "n \<le> M" and "\<exists>m. n \<le> m \<and> m \<le> M \<and> (R ^^ m) i j"
  then obtain l where "n + l \<le> M" and "(R ^^ (n + l)) i j" by (metis le_Suc_ex)
  then show "\<exists>m \<le> M - n. \<exists>k. (R ^^ n) i k \<and> (R ^^ m) k j"
    by (intro exI [of _ l]) (auto simp: relpowp_add)
qed

lemma repeat_ends_correct:
  assumes "computes N f R" and "i \<le> N"
  shows "j \<in> set (let js = seq_ends (replicate n f) [i]
                   in if M = -1 then concat (map (star_ends f N) js)
                      else if M < int n then []
                      else upto_ends f (nat M - n) js) \<longleftrightarrow>
         (\<exists>m \<ge> n. (M = -1 \<or> int m \<le> M) \<and> (R ^^ m) i j)"
proof -
  let ?js = "seq_ends (replicate n f) [i]"
  have js: "k \<in> set ?js \<longleftrightarrow> (R ^^ n) i k" for k
    using assms by (rule seq_ends_replicate)
  have bound: "k \<le> N" if "k \<in> set ?js" for k
    using that js assms by (auto simp: computes_def dest: forwardD [OF forward_relpowp])
  consider "M = -1" | "M \<noteq> -1" "M < int n" | "M \<noteq> -1" "int n \<le> M" by linarith
  then show ?thesis
  proof cases
    case 1
    have "j \<in> set (concat (map (star_ends f N) ?js)) \<longleftrightarrow> (\<exists>k. (R ^^ n) i k \<and> R\<^sup>*\<^sup>* k j)"
      using star_ends_correct [OF assms(1)] bound js by auto
    then show ?thesis using 1 by (simp add: relpowp_ge_iff)
  next
    case 2
    then show ?thesis by auto
  next
    case 3
    have "j \<in> set (upto_ends f (nat M - n) ?js) \<longleftrightarrow>
          (\<exists>m \<le> nat M - n. \<exists>k. (R ^^ n) i k \<and> (R ^^ m) k j)"
      using upto_ends_correct [OF assms(1), of ?js j "nat M - n"] bound js by auto
    also have "\<dots> \<longleftrightarrow> (\<exists>m. n \<le> m \<and> m \<le> nat M \<and> (R ^^ m) i j)"
      by (rule relpowp_between_iff) (use 3 in linarith)
    also have "\<dots> \<longleftrightarrow> (\<exists>m \<ge> n. int m \<le> M \<and> (R ^^ m) i j)"
      using 3 by (metis int_nat_eq nat_int nat_le_iff of_nat_0_le_iff order.trans)
    finally show ?thesis using 3 by (simp add: Let_def)
  qed
qed

lemma re_ends_computes: "computes (length s) (re_ends r s) (re_match r s)"
proof (induction r)
  case (Regexp op a subs rs)
  have sub: "computes (length s) (re_ends r s) (re_match r s)" if "r \<in> set subs" for r
    using that Regexp.IH by blast
  have one: "computes (length s) (re_ends r s) (re_match r s)"
    if "r \<in> set (take (Suc 0) subs)" for r
    using that sub by (blast dest: in_set_takeD)
  have fw: "forward (length s) (re_match (Regexp op a subs rs) s)"
    by (rule re_match_forward)
  have "j \<in> set (re_ends (Regexp op a subs rs) s i) \<longleftrightarrow> re_match (Regexp op a subs rs) s i j"
    if i: "i \<le> length s" for i j
  proof (cases op)
    case OpConcat
    have "list_all2 (computes (length s)) (map (\<lambda>r. re_ends r s) subs) (map (\<lambda>r. re_match r s) subs)"
      using sub by (simp add: list_all2_conv_all_nth)
    from seq_ends_correct [OF this, of "[i]" j] i OpConcat show ?thesis
      by (simp add: re_match_op re_ends.simps)
  next
    case OpStar
    then show ?thesis
      using star_ends_correct [OF one i] by (auto simp: re_match_op re_ends.simps)
  next
    case OpPlus
    have "j \<in> set (concat (map (star_ends (re_ends r s) (length s)) (re_ends r s i))) \<longleftrightarrow>
          (re_match r s)\<^sup>+\<^sup>+ i j" if r: "r \<in> set (take (Suc 0) subs)" for r
      using star_ends_correct [OF one [OF r]] computesD [OF one [OF r] i]
        computes_bound [OF one [OF r] i]
      by (auto simp: tranclp_unfold_left relcompp_apply)
    with OpPlus show ?thesis by (auto simp: re_match_op re_ends.simps)
  next
    case OpRepeat
    then show ?thesis
      using repeat_ends_correct [OF one i, of _ j "re_Min a" "re_Max a"]
      by (auto simp: re_match_op re_ends.simps)
  next
    case OpAlternate
    then show ?thesis using computesD [OF sub i] by (auto simp: re_match_op re_ends.simps)
  next
    case OpCapture
    then show ?thesis using computesD [OF one i] by (auto simp: re_match_op re_ends.simps)
  next
    case OpQuest
    then show ?thesis using computesD [OF one i] by (auto simp: re_match_op re_ends.simps)
  qed (auto simp: re_match_op re_ends.simps ends_option_def ends_if_def split: option.splits)
  with fw show ?case by (simp add: computes_def)
qed

lemma re_ends_correct: "i \<le> length s \<Longrightarrow> j \<in> set (re_ends r s i) \<longleftrightarrow> re_match r s i j"
  using computesD [OF re_ends_computes] by blast

subsection \<open>Searching\<close>

text \<open>
  The search tries the starts of the runes of the text, in order, the end of the text
  included.
\<close>

function rune_starts :: "nat \<Rightarrow> string \<Rightarrow> nat list" where
  "rune_starts i s =
     (if s = [] then [i]
      else i # rune_starts (i + snd (utf8_DecodeRune s)) (drop (snd (utf8_DecodeRune s)) s))"
  by pat_completeness auto
termination
proof (relation "measure (\<lambda>(i, s). length s)")
  fix i :: nat and s :: string
  assume "s \<noteq> []"
  with utf8_DecodeRune_width [of s]
  have "length s - snd (utf8_DecodeRune s) < length s" by linarith
  then show "((i + snd (utf8_DecodeRune s), drop (snd (utf8_DecodeRune s)) s), i, s)
               \<in> measure (\<lambda>(i, s). length s)"
    by simp
qed simp

declare rune_starts.simps [simp del]

text \<open>The start of \<^verbatim>\<open>Regexp.FindStringIndex\<close>, and \<^verbatim>\<open>Regexp.MatchString\<close>.\<close>

definition FindStringIndex :: "Regexp \<Rightarrow> string \<Rightarrow> nat option" where
  "FindStringIndex r s = find (\<lambda>i. re_ends r s i \<noteq> []) (rune_starts 0 s)"

definition MatchString :: "Regexp \<Rightarrow> string \<Rightarrow> bool" where
  "MatchString r s \<longleftrightarrow> FindStringIndex r s \<noteq> None"

lemma rune_starts_Nil [simp]: "rune_starts i [] = [i]"
  by (simp add: rune_starts.simps)

lemma rune_starts_shift: "rune_starts (k + i) s = map ((+) k) (rune_starts i s)"
proof (induction i s arbitrary: k rule: rune_starts.induct)
  case (1 i s)
  show ?case
  proof (cases "s = []")
    case False
    then show ?thesis
      using "1.IH" [of k] by (simp add: rune_starts.simps [of _ s] add.assoc)
  qed simp
qed

lemma rune_starts_bound: "p \<in> set (rune_starts i s) \<Longrightarrow> i \<le> p \<and> p \<le> i + length s"
proof (induction i s rule: rune_starts.induct)
  case (1 i s)
  show ?case
  proof (cases "s = []")
    case True
    with "1.prems" show ?thesis by simp
  next
    case False
    let ?w = "snd (utf8_DecodeRune s)"
    have w: "0 < ?w" "?w \<le> length s" using utf8_DecodeRune_width [OF False] by auto
    from False "1.prems" have "p = i \<or> p \<in> set (rune_starts (i + ?w) (drop ?w s))"
      by (simp add: rune_starts.simps [of i s])
    with "1.IH" [OF False] w show ?thesis by auto
  qed
qed

text \<open>A newline is a rune of its own, so the search restarts right behind every newline.\<close>

lemma first_rune_within_line:
  assumes "pre \<noteq> []"
  shows "snd (utf8_DecodeRune (pre @ nl # l)) \<le> length pre"
proof (cases pre)
  case (Cons c cs)
  show ?thesis
  proof (cases "c = nl")
    case True
    with Cons show ?thesis by simp
  next
    case False
    let ?w = "snd (utf8_DecodeRune (pre @ nl # l))"
    have "nl \<notin> set (take ?w (pre @ nl # l))"
      using utf8_DecodeRune_not_nl(2) [OF False, of "cs @ nl # l"] Cons by simp
    then have "\<not> length pre < ?w"
      by (auto simp: take_Cons' dest: less_imp_Suc_add)
    then show ?thesis by simp
  qed
qed (use assms in simp)

lemma rune_starts_line:
  "\<exists>ps. rune_starts i (pre @ nl # l) = ps @ rune_starts (i + length pre + 1) l \<and>
        (\<forall>p \<in> set ps. p \<le> i + length pre)"
proof (induction "length pre" arbitrary: i pre rule: less_induct)
  case less
  show ?case
  proof (cases "pre = []")
    case True
    then have "rune_starts i (pre @ nl # l) = [i] @ rune_starts (i + length pre + 1) l"
      by (simp add: rune_starts.simps [of i "nl # l"])
    with True show ?thesis by (intro exI [of _ "[i]"]) simp
  next
    case False
    let ?w = "snd (utf8_DecodeRune (pre @ nl # l))"
    have w: "0 < ?w" "?w \<le> length pre"
      using utf8_DecodeRune_width [of "pre @ nl # l"] first_rune_within_line [OF False] by auto
    then have "length (drop ?w pre) < length pre" by simp
    from less [OF this, of "i + ?w"] obtain ps where
      ps: "rune_starts (i + ?w) (drop ?w pre @ nl # l)
             = ps @ rune_starts (i + ?w + length (drop ?w pre) + 1) l"
      and le: "\<forall>p \<in> set ps. p \<le> i + ?w + length (drop ?w pre)" by blast
    have "rune_starts i (pre @ nl # l) = (i # ps) @ rune_starts (i + length pre + 1) l"
      using ps w by (simp add: rune_starts.simps [of i "pre @ nl # l"])
    moreover have "\<forall>p \<in> set (i # ps). p \<le> i + length pre" using le w by auto
    ultimately show ?thesis by blast
  qed
qed

lemma FindStringIndex_Some:
  "FindStringIndex r s = Some i \<Longrightarrow> i \<le> length s \<and> (\<exists>j. re_match r s i j)"
proof -
  assume "FindStringIndex r s = Some i"
  then have i: "i \<in> set (rune_starts 0 s)" "re_ends r s i \<noteq> []"
    by (auto simp: FindStringIndex_def dest: find_Some_set)
  then have "i \<le> length s" using rune_starts_bound by fastforce
  moreover obtain j where "j \<in> set (re_ends r s i)" using i(2) by (cases "re_ends r s i") auto
  ultimately show ?thesis by (auto simp: re_ends_correct)
qed

end
