(* ===== verification/Log_Pattern.thy ===== *)
theory Log_Pattern
  imports NPD_Prelude Go_Regexp
begin

text \<open>
  The patterns of the log buffer (\<^verbatim>\<open>pkg/systemlogmonitor/log_buffer.go\<close>): compiling a rule's
  expression, and the syntactic test that a pattern can match in the last line only. The
  lemmas show that a tree that passes the test matches behind a newline as it matches in the
  last line alone, and that no match of it crosses a newline.
\<close>

subsection \<open>Patterns\<close>

record Pattern =
  p_regexp :: Regexp
  p_lastLineOnly :: bool

text \<open>The loop over the bounds of a class: does one of its ranges hold the newline?\<close>

fun class_has_newline :: "rune list \<Rightarrow> bool" where
  "class_has_newline (lo # hi # rs) = (lo \<le> 10 \<and> 10 \<le> hi \<or> class_has_newline rs)"
| "class_has_newline _ = False"

function isLastLineOnly :: "Regexp \<Rightarrow> bool" where
  "isLastLineOnly (Regexp op a subs rs) =
     ((case op of
         OpAnyChar \<Rightarrow> False
       | OpBeginText \<Rightarrow> False
       | OpBeginLine \<Rightarrow> False
       | OpEndLine \<Rightarrow> False
       | OpLiteral \<Rightarrow> 10 \<notin> set rs
       | OpCharClass \<Rightarrow> \<not> class_has_newline rs
       | _ \<Rightarrow> True) \<and>
      list_all isLastLineOnly subs)"
  by pat_completeness auto
termination
  by (relation "measure size") (auto intro: size_Sub)

datatype compile_error = BadPattern string

text \<open>
  \<^verbatim>\<open>CompilePattern\<close>, over the parser \<^verbatim>\<open>syntax.Parse(_, syntax.Perl)\<close>, which
  \<^verbatim>\<open>regexp.Compile\<close> calls as well: compiling fails exactly where parsing does.
\<close>

definition anchor_end :: string where
  "anchor_end = [CHR 0x5C, CHR ''z'']"

definition CompilePattern :: "(string \<Rightarrow> Regexp option) \<Rightarrow> string \<Rightarrow> compile_error + Pattern" where
  "CompilePattern parse expr =
     (case parse expr of
        None \<Rightarrow> Err (BadPattern expr)
      | Some _ \<Rightarrow>
          (case parse (expr @ anchor_end) of
             None \<Rightarrow> Err (BadPattern (expr @ anchor_end))
           | Some tree \<Rightarrow>
               (case parse (''(?:'' @ expr @ '')'' @ anchor_end) of
                  None \<Rightarrow> Ok \<lparr>p_regexp = tree, p_lastLineOnly = False\<rparr>
                | Some grouped \<Rightarrow>
                    Ok \<lparr>p_regexp = tree,
                        p_lastLineOnly = (Regexp_Equal tree grouped \<and> isLastLineOnly tree)\<rparr>)))"

subsection \<open>Matching is local to a line\<close>

text \<open>
  \<open>shifts k R R'\<close>: behind the first \<open>k\<close> bytes of the text \<open>R\<close> is \<open>R'\<close>.
  \<open>within n R\<close>: \<open>R\<close> does not lead out of the first \<open>n\<close> bytes.
\<close>

definition shifts :: "nat \<Rightarrow> (nat \<Rightarrow> nat \<Rightarrow> bool) \<Rightarrow> (nat \<Rightarrow> nat \<Rightarrow> bool) \<Rightarrow> bool" where
  "shifts k R R' \<longleftrightarrow> (\<forall>i j. R (k + i) j \<longleftrightarrow> (\<exists>j'. j = k + j' \<and> R' i j'))"

definition within :: "nat \<Rightarrow> (nat \<Rightarrow> nat \<Rightarrow> bool) \<Rightarrow> bool" where
  "within n R \<longleftrightarrow> (\<forall>i j. i \<le> n \<longrightarrow> R i j \<longrightarrow> j \<le> n)"

lemma shiftsD: "shifts k R R' \<Longrightarrow> R (k + i) j \<longleftrightarrow> (\<exists>j'. j = k + j' \<and> R' i j')"
  by (simp add: shifts_def)

lemma withinD: "within n R \<Longrightarrow> i \<le> n \<Longrightarrow> R i j \<Longrightarrow> j \<le> n"
  by (simp add: within_def)

lemma shifts_relcompp: "shifts k R R' \<Longrightarrow> shifts k S S' \<Longrightarrow> shifts k (R OO S) (R' OO S')"
  by (simp add: shifts_def relcompp_apply) blast

lemma shifts_eq: "shifts k (=) (=)"
  by (auto simp: shifts_def)

lemma shifts_foldr:
  "(\<And>r. r \<in> set rs \<Longrightarrow> shifts k (f r) (g r)) \<Longrightarrow>
   shifts k (foldr (OO) (map f rs) (=)) (foldr (OO) (map g rs) (=))"
  by (induction rs) (simp_all add: shifts_eq shifts_relcompp)

lemma shifts_relpowp: "shifts k R R' \<Longrightarrow> shifts k (R ^^ n) (R' ^^ n)"
  by (induction n) (simp_all add: shifts_eq shifts_relcompp)

lemma shifts_rtranclp: "shifts k R R' \<Longrightarrow> shifts k R\<^sup>*\<^sup>* R'\<^sup>*\<^sup>*"
  using shifts_relpowp [of k R R'] by (simp add: shifts_def rtranclp_power) blast

lemma shifts_tranclp: "shifts k R R' \<Longrightarrow> shifts k R\<^sup>+\<^sup>+ R'\<^sup>+\<^sup>+"
  unfolding tranclp_unfold_left by (intro shifts_relcompp shifts_rtranclp)

lemma withinI: "(\<And>i j. i \<le> n \<Longrightarrow> R i j \<Longrightarrow> j \<le> n) \<Longrightarrow> within n R"
  by (simp add: within_def)

lemma within_relcompp: "within n R \<Longrightarrow> within n S \<Longrightarrow> within n (R OO S)"
  by (rule withinI) (erule relcomppE, drule (2) withinD, erule (2) withinD)

lemma within_eq: "within n (=)"
  by (simp add: within_def)

lemma within_foldr:
  "(\<And>r. r \<in> set rs \<Longrightarrow> within n (f r)) \<Longrightarrow> within n (foldr (OO) (map f rs) (=))"
  by (induction rs) (simp_all add: within_eq within_relcompp)

lemma within_relpowp: "within n R \<Longrightarrow> within n (R ^^ m)"
  by (induction m) (simp_all add: within_eq within_relcompp)

lemma within_rtranclp: "within n R \<Longrightarrow> within n R\<^sup>*\<^sup>*"
  proof (rule withinI)
  fix i j
  assume "within n R" "i \<le> n" "R\<^sup>*\<^sup>* i j"
  then show "j \<le> n" by (auto simp: rtranclp_power dest: withinD [OF within_relpowp])
qed

lemma within_tranclp: "within n R \<Longrightarrow> within n R\<^sup>+\<^sup>+"
  unfolding tranclp_unfold_left by (intro within_relcompp within_rtranclp)

lemma class_mem_newline: "class_mem rs 10 = class_has_newline rs"
  by (induction rs rule: class_has_newline.induct) auto

lemma rune_eq_newline: "rune_eq fc r 10 \<longleftrightarrow> r = 10"
  by (auto simp: rune_eq_def fold_key_def)

lemma eat_shift:
  "eat p (pre @ nl # l) (Suc (length pre + i)) = map_option ((+) (Suc (length pre))) (eat p l i)"
  by (simp add: eat_def)

lemma eat_all_shift:
  "eat_all fc rs (pre @ nl # l) (Suc (length pre + i))
     = map_option ((+) (Suc (length pre))) (eat_all fc rs l i)"
  by (induction rs arbitrary: i) (simp_all add: eat_shift option.map_comp split: option.split)

lemma eat_line:
  assumes "eat p (pre @ nl # l) i = Some j" and "i \<le> length pre" and "\<not> p 10"
  shows "j \<le> length pre"
proof (cases "i = length pre")
  case True
  with assms show ?thesis by (simp add: eat_def split: if_splits)
next
  case False
  with assms(2) have "drop i pre \<noteq> []" by simp
  from first_rune_within_line [OF this, of l] assms show ?thesis
    by (simp add: eat_def split: if_splits)
qed

lemma eat_all_line:
  "eat_all fc rs (pre @ nl # l) i = Some j \<Longrightarrow> i \<le> length pre \<Longrightarrow> 10 \<notin> set rs \<Longrightarrow> j \<le> length pre"
  by (induction rs arbitrary: i) (auto simp: rune_eq_newline dest: eat_line split: option.splits)

lemma word_boundary_shift:
  "word_boundary (pre @ nl # l) (Suc (length pre + i)) = word_boundary l i"
  by (cases i) (simp_all add: word_boundary_def nth_append is_word_char_def Let_def)

lemma isLastLineOnly_Sub:
  "isLastLineOnly (Regexp op a subs rs) \<Longrightarrow> r \<in> set subs \<Longrightarrow> isLastLineOnly r"
  by (simp add: list_all_iff)

lemma re_match_shift:
  "isLastLineOnly re \<Longrightarrow> k = Suc (length pre) \<Longrightarrow> shifts k (re_match re (pre @ nl # l)) (re_match re l)"
proof (induction re)
  case (Regexp op a subs rs)
  let ?s = "pre @ nl # l"
  have sub: "shifts k (re_match r ?s) (re_match r l)" if "r \<in> set subs" for r
    using Regexp.IH [OF that] isLastLineOnly_Sub [OF Regexp.prems(1) that] Regexp.prems(2) by simp
  have one: "r \<in> set subs" if "r \<in> set (take (Suc 0) subs)" for r
    using that by (rule in_set_takeD)
  note D = shiftsD [OF sub [OF one]] shiftsD [OF shifts_rtranclp [OF sub [OF one]]]
    shiftsD [OF shifts_tranclp [OF sub [OF one]]] shiftsD [OF shifts_relpowp [OF sub [OF one]]]
  have cat: "shifts k (foldr (OO) (map (\<lambda>r. re_match r ?s) subs) (=))
      (foldr (OO) (map (\<lambda>r. re_match r l) subs) (=))"
    by (rule shifts_foldr) (rule sub)
  have "re_match (Regexp op a subs rs) ?s (k + i) j \<longleftrightarrow>
      (\<exists>j'. j = k + j' \<and> re_match (Regexp op a subs rs) l i j')" for i j
  proof (cases op)
    case OpConcat
    then show ?thesis using shiftsD [OF cat] by (simp add: re_match_op)
  next
    case OpAlternate
    then show ?thesis by (auto simp: re_match_op shiftsD [OF sub])
  next
    case OpStar
    then show ?thesis by (auto simp: re_match_op D(2))
  next
    case OpPlus
    then show ?thesis by (auto simp: re_match_op D(3))
  next
    case OpRepeat
    then show ?thesis by (auto simp: re_match_op D(4))
  next
    case OpQuest
    then show ?thesis by (auto simp: re_match_op D(1))
  next
    case OpCapture
    then show ?thesis by (auto simp: re_match_op D(1))
  qed (use Regexp.prems in \<open>auto simp: re_match_op eat_shift eat_all_shift word_boundary_shift\<close>)
  then show ?case by (simp add: shifts_def)
qed

lemma re_match_within:
  "isLastLineOnly re \<Longrightarrow> within (length pre) (re_match re (pre @ nl # l))"
proof (induction re)
  case (Regexp op a subs rs)
  let ?s = "pre @ nl # l"
  have sub: "within (length pre) (re_match r ?s)" if "r \<in> set subs" for r
    using Regexp.IH [OF that] isLastLineOnly_Sub [OF Regexp.prems that] by simp
  have one: "r \<in> set subs" if "r \<in> set (take (Suc 0) subs)" for r
    using that by (rule in_set_takeD)
  note D = withinD [OF sub [OF one]] withinD [OF within_rtranclp [OF sub [OF one]]]
    withinD [OF within_tranclp [OF sub [OF one]]] withinD [OF within_relpowp [OF sub [OF one]]]
  have cat: "within (length pre) (foldr (OO) (map (\<lambda>r. re_match r ?s) subs) (=))"
    by (rule within_foldr) (rule sub)
  have "j \<le> length pre" if m: "re_match (Regexp op a subs rs) ?s i j" and i: "i \<le> length pre" for i j
  proof (cases op)
    case OpConcat
    then show ?thesis using withinD [OF cat i] m by (simp add: re_match_op)
  next
    case OpAlternate
    then show ?thesis using withinD [OF sub] i m by (auto simp: re_match_op)
  next
    case OpStar
    then show ?thesis using D(2) i m by (auto simp: re_match_op)
  next
    case OpPlus
    then show ?thesis using D(3) i m by (auto simp: re_match_op)
  next
    case OpRepeat
    then show ?thesis using D(4) i m by (auto simp: re_match_op)
  next
    case OpQuest
    then show ?thesis using D(1) i m by (auto simp: re_match_op)
  next
    case OpCapture
    then show ?thesis using D(1) i m by (auto simp: re_match_op)
  qed (use Regexp.prems m i in \<open>auto simp: re_match_op class_mem_newline dest: eat_line eat_all_line\<close>)
  then show ?case by (auto simp: within_def)
qed

subsection \<open>Anchored patterns\<close>

text \<open>
  A concatenation that ends in \<^verbatim>\<open>\z\<close>. What the compilation relies on is that the parser
  gives such a tree for \<^verbatim>\<open>(?:expr)\z\<close> when \<^verbatim>\<open>expr\<close> parses on its own.
\<close>

definition anchored :: "Regexp \<Rightarrow> bool" where
  "anchored re \<longleftrightarrow> Op re = OpConcat \<and> Sub re \<noteq> [] \<and> Op (last (Sub re)) = OpEndText"

definition parser_groups :: "(string \<Rightarrow> Regexp option) \<Rightarrow> bool" where
  "parser_groups parse \<longleftrightarrow>
     (\<forall>expr t g. parse expr = Some t \<longrightarrow>
        parse (''(?:'' @ expr @ '')'' @ anchor_end) = Some g \<longrightarrow> anchored g)"

definition Pattern_sound :: "Pattern \<Rightarrow> bool" where
  "Pattern_sound p \<longleftrightarrow>
     (p_lastLineOnly p \<longrightarrow> isLastLineOnly (p_regexp p) \<and> anchored (p_regexp p))"

lemma Regexp_Equal_anchored:
  assumes "Regexp_Equal x y" and "anchored y"
  shows "anchored x"
proof -
  obtain a subs rs a' subs' rs' where
    xy: "x = Regexp OpConcat a subs rs" "y = Regexp OpConcat a' subs' rs'"
    using assms Regexp_Equal_Op by (cases x; cases y) (auto simp: anchored_def)
  with assms have len: "length subs = length subs'" and ne: "subs' \<noteq> []"
    and eq: "\<forall>(u, v) \<in> set (zip subs subs'). Regexp_Equal u v"
    by (auto simp: anchored_def)
  then have "(last subs, last subs') \<in> set (zip subs subs')"
    by (metis last_in_set last_zip length_0_conv zip_eq_Nil_iff)
  with eq Regexp_Equal_Op have "Op (last subs) = Op (last subs')" by blast
  with assms(2) xy len ne show ?thesis by (auto simp: anchored_def)
qed

lemma CompilePattern_sound:
  assumes "parser_groups parse" and "CompilePattern parse expr = Ok p"
  shows "Pattern_sound p"
proof -
  have "anchored g" if "parse expr = Some t" "parse (''(?:'' @ expr @ '')'' @ anchor_end) = Some g" for t g
    using assms(1) that unfolding parser_groups_def by blast
  with assms(2) Regexp_Equal_anchored show ?thesis
    by (auto simp: CompilePattern_def Pattern_sound_def split: option.splits)
qed

lemma foldr_relcompp_append:
  "foldr (OO) (Rs @ [S]) (=) = foldr (OO) Rs (=) OO S"
  by (induction Rs) (simp_all add: relcompp_assoc eq_OO OO_eq)

lemma anchored_match:
  assumes "anchored re" and "re_match re s i j"
  shows "j = length s"
proof -
  obtain a subs rs where re: "re = Regexp OpConcat a subs rs" "subs \<noteq> []" "Op (last subs) = OpEndText"
    using assms(1) by (cases re) (auto simp: anchored_def)
  then obtain subs' r where r: "subs = subs' @ [r]" by (metis rev_exhaust)
  then have "foldr (OO) (map (\<lambda>r. re_match r s) subs' @ [re_match r s]) (=) i j"
    using assms(2) re by (simp add: re_match_op)
  then obtain k where "re_match r s k j"
    unfolding foldr_relcompp_append by blast
  with re r show ?thesis by (cases r) (auto simp: re_match_op)
qed

lemma find_append: "find P (xs @ ys) = (case find P xs of None \<Rightarrow> find P ys | Some x \<Rightarrow> Some x)"
  by (induction xs) simp_all

lemma find_map: "find P (map f xs) = map_option f (find (P \<circ> f) xs)"
  by (induction xs) simp_all

text \<open>Behind a newline the search finds what it finds in the last line alone.\<close>

lemma FindStringIndex_last_line:
  assumes "isLastLineOnly re" and "anchored re"
  shows "FindStringIndex re (pre @ nl # l) =
         map_option ((+) (Suc (length pre))) (FindStringIndex re l)"
proof -
  let ?s = "pre @ nl # l" and ?k = "Suc (length pre)"
  obtain ps where ps: "rune_starts 0 ?s = ps @ rune_starts (?k + 0) l"
    and le: "\<forall>p \<in> set ps. p \<le> length pre"
    using rune_starts_line [of 0 pre l] by auto
  have no: "re_ends re ?s p = []" if "p \<in> set ps" for p
  proof (rule ccontr)
    assume "re_ends re ?s p \<noteq> []"
    then obtain j where "j \<in> set (re_ends re ?s p)" by (cases "re_ends re ?s p") auto
    with le that have "re_match re ?s p j" by (auto simp: re_ends_correct)
    with anchored_match [OF assms(2)] withinD [OF re_match_within [OF assms(1)]] le that
    show False by fastforce
  qed
  have eq: "re_ends re ?s (?k + i) \<noteq> [] \<longleftrightarrow> re_ends re l i \<noteq> []" if "i \<le> length l" for i
  proof -
    have ex: "re_ends re t i \<noteq> [] \<longleftrightarrow> (\<exists>j. re_match re t i j)" if "i \<le> length t" for t i
      using re_ends_correct [OF that] by (metis list.set_intros(1) neq_Nil_conv empty_iff list.set(1))
    have "?k + i \<le> length ?s" using that by simp
    from ex [OF this] ex [OF that] show ?thesis
      using shiftsD [OF re_match_shift [OF assms(1) refl, of pre l]] by auto
  qed
  have "find (\<lambda>i. re_ends re ?s i \<noteq> []) ps = None"
    using no by (auto simp: find_None_iff)
  moreover have "find ((\<lambda>i. re_ends re ?s i \<noteq> []) \<circ> (+) ?k) (rune_starts 0 l) =
      find (\<lambda>i. re_ends re l i \<noteq> []) (rune_starts 0 l)"
    using eq rune_starts_bound [of _ 0 l] by (intro find_cong) (auto simp del: add_Suc)
  ultimately show ?thesis
    unfolding FindStringIndex_def ps rune_starts_shift by (simp add: find_append find_map del: add_Suc)
qed

end
