(* ===== verification/Log_Buffer.thy ===== *)
theory Log_Buffer
  imports NPD_Types Log_Pattern
begin

text \<open>
  The log buffer of the system log monitor (\<^verbatim>\<open>pkg/systemlogmonitor/log_buffer.go\<close>): a
  ring of the most recent lines, and the matcher with its two paths. The ring refines the
  list of the most recent lines, and both paths of the matcher compute one specification
  over that list.
\<close>

subsection \<open>pkg/systemlogmonitor/types\<close>

record Log =
  log_Timestamp :: gotime
  log_Message :: string

record Rule =
  r_Type :: ProblemType
  r_Condition :: string
  r_Reason :: string
  r_Pattern :: string
  r_PatternGeneratedMessageSuffix :: string

subsection \<open>The ring\<close>

record logBuffer =
  lb_buffer :: "Log option list"
  lb_msg :: "string list"
  lb_max :: nat
  lb_current :: nat
  lb_joined :: string
  lb_joinedOK :: bool

text \<open>\<^verbatim>\<open>make\<close> panics on a negative length.\<close>

definition NewLogBuffer :: "int \<Rightarrow> logBuffer option" where
  "NewLogBuffer maxLines =
     (if maxLines < 0 then None
      else Some \<lparr>lb_buffer = replicate (nat maxLines) None,
                 lb_msg = replicate (nat maxLines) [],
                 lb_max = nat maxLines,
                 lb_current = 0,
                 lb_joined = [],
                 lb_joinedOK = False\<rparr>)"

definition concatLogs :: "string list \<Rightarrow> string" where
  "concatLogs logs = strings_Join logs [nl]"

definition logBuffer_Push :: "Log \<Rightarrow> logBuffer \<Rightarrow> logBuffer" where
  "logBuffer_Push log b =
     b\<lparr>lb_buffer := (lb_buffer b)[lb_current b mod lb_max b := Some log],
       lb_msg := (lb_msg b)[lb_current b mod lb_max b := log_Message log],
       lb_current := lb_current b + 1,
       lb_joinedOK := False,
       lb_joined := []\<rparr>"

text \<open>\<^verbatim>\<open>String\<close> fills the cache, so it returns the buffer as well.\<close>

definition logBuffer_String :: "logBuffer \<Rightarrow> string \<times> logBuffer" where
  "logBuffer_String b =
     (if lb_joinedOK b then (lb_joined b, b)
      else (let head = lb_current b mod lb_max b;
                lines = drop head (lb_msg b) @ take head (lb_msg b);
                joined = concatLogs lines
            in (joined, b\<lparr>lb_joined := joined, lb_joinedOK := True\<rparr>)))"

definition logBuffer_tail :: "logBuffer \<Rightarrow> nat" where
  "logBuffer_tail b = lb_current b + lb_max b - 1"

definition logBuffer_matchLastLine :: "Regexp \<Rightarrow> logBuffer \<Rightarrow> Log list" where
  "logBuffer_matchLastLine reg b =
     (if lb_current b = 0 then []
      else (let last = (lb_current b - 1) mod lb_max b
            in if \<not> MatchString reg (lb_msg b ! last) then []
               else (case lb_buffer b ! last of None \<Rightarrow> [] | Some log \<Rightarrow> [log])))"

text \<open>
  The loop of \<^verbatim>\<open>Match\<close> from the tail of the ring backwards. With \<open>Suc n\<close> positions left
  its index \<open>i\<close> is \<open>lb_current b + n\<close>, so it starts at the tail with \<open>lb_max b\<close> positions
  and ends below \<open>lb_current b\<close>.
\<close>

fun match_loop :: "logBuffer \<Rightarrow> int \<Rightarrow> nat \<Rightarrow> int \<Rightarrow> Log list \<Rightarrow> Log list" where
  "match_loop b s 0 tot matched = matched"
| "match_loop b s (Suc n) tot matched =
     (let i = lb_current b + n in
      case lb_buffer b ! (i mod lb_max b) of
        None \<Rightarrow> matched
      | Some log \<Rightarrow>
          (let tot' = tot + int (length (lb_msg b ! (i mod lb_max b))) + 1
           in if tot' > s then matched @ [log]
              else match_loop b s n tot' (matched @ [log])))"

definition logBuffer_Match :: "Pattern \<Rightarrow> logBuffer \<Rightarrow> Log list \<times> logBuffer" where
  "logBuffer_Match p b =
     (if p_lastLineOnly p then (logBuffer_matchLastLine (p_regexp p) b, b)
      else (case logBuffer_String b of
              (log, b') \<Rightarrow>
                (case FindStringIndex (p_regexp p) log of
                   None \<Rightarrow> ([], b')
                 | Some start \<Rightarrow>
                     (let s = int (length log) - int start - 1
                      in (rev (match_loop b' s (lb_max b') 0 []), b')))))"

subsection \<open>The ring as a sliding window\<close>

definition rotated :: "nat \<Rightarrow> 'a list \<Rightarrow> 'a list" where
  "rotated h xs = drop h xs @ take h xs"

lemma length_rotated [simp]: "length (rotated h xs) = length xs"
  by (simp add: rotated_def)

lemma map_rotated: "map f (rotated h xs) = rotated h (map f xs)"
  by (simp add: rotated_def drop_map take_map)

lemma rotated_nth:
  assumes "h < length xs" and "n < length xs"
  shows "rotated h xs ! n = xs ! ((h + n) mod length xs)"
proof (cases "h + n < length xs")
  case True
  then have "n < length xs - h" by linarith
  with True show ?thesis by (simp add: rotated_def nth_append)
next
  case False
  then have "(h + n) mod length xs = h + n - length xs"
    using assms by (simp add: le_mod_geq)
  with False assms show ?thesis by (auto simp: rotated_def nth_append add.commute)
qed

lemma rotated_Suc:
  assumes "h < length xs"
  shows "rotated (Suc h) (xs[h := x]) = tl (rotated h xs) @ [x]"
proof -
  have "drop h xs = xs ! h # drop (Suc h) xs"
    using assms by (simp add: Cons_nth_drop_Suc)
  moreover have "take (Suc h) (xs[h := x]) = take h xs @ [x]"
    using assms by (simp add: take_Suc_conv_app_nth)
  ultimately show ?thesis by (simp add: rotated_def)
qed

lemma rotated_update:
  assumes "h < length xs"
  shows "rotated (Suc h mod length xs) (xs[h := x]) = tl (rotated h xs) @ [x]"
proof (cases "Suc h = length xs")
  case True
  then have "rotated (Suc h) (xs[h := x]) = rotated 0 (xs[h := x])"
    by (simp add: rotated_def)
  with True rotated_Suc [OF assms, of x] show ?thesis by simp
next
  case False
  with assms have "Suc h mod length xs = Suc h" by simp
  then show ?thesis using rotated_Suc [OF assms, of x] by simp
qed

text \<open>The slots of the ring from the oldest to the newest, and the lines in them.\<close>

definition ring :: "logBuffer \<Rightarrow> Log option list" where
  "ring b = rotated (lb_current b mod lb_max b) (lb_buffer b)"

fun somes :: "'a option list \<Rightarrow> 'a list" where
  "somes [] = []"
| "somes (None # xs) = somes xs"
| "somes (Some x # xs) = x # somes xs"

definition window :: "logBuffer \<Rightarrow> Log list" where
  "window b = somes (ring b)"

definition pad :: "nat \<Rightarrow> Log list \<Rightarrow> Log option list" where
  "pad n ws = replicate (n - length ws) None @ map Some ws"

definition slot_message :: "Log option \<Rightarrow> string" where
  "slot_message x = (case x of None \<Rightarrow> [] | Some log \<Rightarrow> log_Message log)"

lemma slot_message_simps [simp]:
  "slot_message None = []" "slot_message (Some log) = log_Message log"
  by (simp_all add: slot_message_def)

text \<open>What the ring spells out: empty slots count as empty lines.\<close>

definition window_text :: "nat \<Rightarrow> Log list \<Rightarrow> string" where
  "window_text n ws = concatLogs (replicate (n - length ws) [] @ map log_Message ws)"

definition logBuffer_inv :: "logBuffer \<Rightarrow> bool" where
  "logBuffer_inv b \<longleftrightarrow>
     0 < lb_max b \<and> length (lb_buffer b) = lb_max b \<and>
     lb_msg b = map slot_message (lb_buffer b) \<and>
     length (window b) = min (lb_current b) (lb_max b) \<and>
     ring b = pad (lb_max b) (window b) \<and>
     (lb_joinedOK b \<longrightarrow> lb_joined b = window_text (lb_max b) (window b))"

lemma somes_append [simp]: "somes (xs @ ys) = somes xs @ somes ys"
  by (induction xs rule: somes.induct) simp_all

lemma somes_map_Some [simp]: "somes (map Some ws) = ws"
  by (induction ws) simp_all

lemma somes_replicate_None [simp]: "somes (replicate n None) = []"
  by (induction n) simp_all

lemma pad_window: "somes (pad n ws) = ws"
  by (simp add: pad_def)

lemma map_slot_message_pad:
  "map slot_message (pad n ws) = replicate (n - length ws) [] @ map log_Message ws"
  by (simp add: pad_def)

lemma tl_pad_snoc:
  assumes "0 < n" and "length ws \<le> n"
  shows "tl (pad n ws) @ [Some x] = pad n (last_n n (ws @ [x]))"
proof (cases "length ws < n")
  case True
  then obtain k where k: "n - length ws = Suc k" by (metis Suc_diff_Suc)
  then have "n - length (ws @ [x]) = k" by simp
  with True k show ?thesis by (simp add: pad_def)
next
  case False
  with assms have n: "length ws = n" by simp
  with assms obtain w ws' where ws: "ws = w # ws'" by (cases ws) auto
  with n have "last_n n (ws @ [x]) = ws' @ [x]" by (simp add: last_n_def)
  with n ws show ?thesis by (simp add: pad_def)
qed

lemma ring_Push:
  assumes "logBuffer_inv b"
  shows "ring (logBuffer_Push log b) = tl (ring b) @ [Some log]"
proof -
  let ?h = "lb_current b mod lb_max b"
  have len: "length (lb_buffer b) = lb_max b" and "?h < lb_max b"
    using assms by (auto simp: logBuffer_inv_def)
  then have "rotated (Suc ?h mod lb_max b) ((lb_buffer b)[?h := Some log]) = tl (ring b) @ [Some log]"
    using rotated_update [of ?h "lb_buffer b" "Some log"] by (simp add: ring_def)
  then show ?thesis by (simp add: ring_def logBuffer_Push_def mod_Suc_eq)
qed

lemma window_Push:
  assumes "logBuffer_inv b"
  shows "window (logBuffer_Push log b) = last_n (lb_max b) (window b @ [log])"
    and "ring (logBuffer_Push log b) = pad (lb_max b) (last_n (lb_max b) (window b @ [log]))"
proof -
  have "tl (ring b) @ [Some log] = pad (lb_max b) (last_n (lb_max b) (window b @ [log]))"
    using assms tl_pad_snoc [of "lb_max b" "window b" log] by (simp add: logBuffer_inv_def)
  then show r: "ring (logBuffer_Push log b) = pad (lb_max b) (last_n (lb_max b) (window b @ [log]))"
    using ring_Push [OF assms] by simp
  then show "window (logBuffer_Push log b) = last_n (lb_max b) (window b @ [log])"
    by (simp add: window_def pad_window)
qed

lemma logBuffer_Push_max [simp]: "lb_max (logBuffer_Push log b) = lb_max b"
  by (simp add: logBuffer_Push_def)

lemma logBuffer_inv_Push [npd_inv]:
  assumes "logBuffer_inv b"
  shows "logBuffer_inv (logBuffer_Push log b)"
proof -
  have "lb_msg (logBuffer_Push log b) = map slot_message (lb_buffer (logBuffer_Push log b))"
    using assms by (simp add: logBuffer_Push_def logBuffer_inv_def map_update)
  moreover have "length (window (logBuffer_Push log b)) = min (lb_current b + 1) (lb_max b)"
    using assms by (auto simp: window_Push logBuffer_inv_def)
  moreover have "lb_current (logBuffer_Push log b) = lb_current b + 1"
    and "length (lb_buffer (logBuffer_Push log b)) = length (lb_buffer b)"
    and "\<not> lb_joinedOK (logBuffer_Push log b)"
    by (simp_all add: logBuffer_Push_def)
  ultimately show ?thesis
    using assms window_Push [OF assms, of log] by (simp add: logBuffer_inv_def)
qed

lemma NewLogBuffer_inv [npd_inv]:
  assumes "NewLogBuffer n = Some b" and "n \<noteq> 0"
  shows "logBuffer_inv b" and "window b = []" and "lb_max b = nat n"
proof -
  have b: "0 < n" "b = \<lparr>lb_buffer = replicate (nat n) None, lb_msg = replicate (nat n) [],
      lb_max = nat n, lb_current = 0, lb_joined = [], lb_joinedOK = False\<rparr>"
    using assms by (auto simp: NewLogBuffer_def split: if_splits)
  then have r: "ring b = pad (nat n) []" by (simp add: ring_def pad_def rotated_def)
  then show w: "window b = []" by (simp add: window_def pad_window)
  show "lb_max b = nat n" using b by simp
  show "logBuffer_inv b" using b r w by (simp add: logBuffer_inv_def)
qed

subsection \<open>Matching the joined text\<close>

text \<open>
  The lines a match covers, from the newest backwards: whole lines with their separators
  until more than \<open>s\<close> bytes are covered.
\<close>

fun cover_back :: "int \<Rightarrow> int \<Rightarrow> Log list \<Rightarrow> Log list" where
  "cover_back s t [] = []"
| "cover_back s t (l # ls) =
     l # (let t' = t + int (length (log_Message l)) + 1
          in if t' > s then [] else cover_back s t' ls)"

definition match_spec :: "nat \<Rightarrow> Regexp \<Rightarrow> Log list \<Rightarrow> Log list" where
  "match_spec n re ws =
     (let text = window_text n ws in
      case FindStringIndex re text of
        None \<Rightarrow> []
      | Some st \<Rightarrow> rev (cover_back (int (length text) - int st - 1) 0 (rev ws)))"

lemma logBuffer_window_le: "logBuffer_inv b \<Longrightarrow> length (window b) \<le> lb_max b"
  by (simp add: logBuffer_inv_def)

text \<open>The loop reads the slots of the ring backwards.\<close>

lemma ring_nth:
  assumes "logBuffer_inv b" and "n < lb_max b"
  shows "lb_buffer b ! ((lb_current b + n) mod lb_max b) = ring b ! n"
    and "lb_msg b ! ((lb_current b + n) mod lb_max b) = slot_message (ring b ! n)"
proof -
  have len: "length (lb_buffer b) = lb_max b" using assms by (simp add: logBuffer_inv_def)
  with assms show *: "lb_buffer b ! ((lb_current b + n) mod lb_max b) = ring b ! n"
    by (simp add: ring_def rotated_nth mod_add_left_eq)
  have "(lb_current b + n) mod lb_max b < length (lb_buffer b)" using len assms by simp
  with assms * show "lb_msg b ! ((lb_current b + n) mod lb_max b) = slot_message (ring b ! n)"
    by (simp add: logBuffer_inv_def)
qed

lemma match_loop_window:
  assumes "logBuffer_inv b" and "k \<le> length (window b)"
  shows "match_loop b s (lb_max b - length (window b) + k) t m =
         m @ cover_back s t (rev (take k (window b)))"
  using assms(2)
proof (induction k arbitrary: t m)
  case 0
  let ?n = "lb_max b - length (window b)"
  show ?case
  proof (cases ?n)
    case (Suc n')
    have "ring b = replicate (Suc n') None @ map Some (window b)"
      using assms(1) Suc by (simp only: logBuffer_inv_def pad_def)
    then have "ring b ! n' = None" by (simp only: nth_append length_replicate nth_replicate) simp
    moreover have "n' < lb_max b" using Suc by linarith
    ultimately show ?thesis
      using Suc ring_nth(1) [OF assms(1), of n'] by simp
  qed simp
next
  case (Suc k)
  let ?n = "lb_max b - length (window b) + k"
  have n: "?n < lb_max b"
    using logBuffer_window_le [OF assms(1)] Suc.prems by linarith
  have "ring b = pad (lb_max b) (window b)" using assms(1) by (simp add: logBuffer_inv_def)
  then have r: "ring b ! ?n = Some (window b ! k)"
    using Suc.prems by (simp add: pad_def nth_append)
  have "rev (take (Suc k) (window b)) = window b ! k # rev (take k (window b))"
    using Suc.prems by (simp add: take_Suc_conv_app_nth)
  then show ?case
    using ring_nth [OF assms(1) n] r Suc by (simp add: Let_def)
qed

lemma logBuffer_String_window:
  assumes "logBuffer_inv b"
  shows "fst (logBuffer_String b) = window_text (lb_max b) (window b)"
proof -
  have "lb_msg b = map slot_message (lb_buffer b)" using assms by (simp add: logBuffer_inv_def)
  then have "drop (lb_current b mod lb_max b) (lb_msg b) @ take (lb_current b mod lb_max b) (lb_msg b)
      = map slot_message (ring b)"
    by (simp add: ring_def rotated_def drop_map take_map)
  also have "\<dots> = replicate (lb_max b - length (window b)) [] @ map log_Message (window b)"
    using assms by (simp add: logBuffer_inv_def map_slot_message_pad)
  finally show ?thesis
    using assms by (simp add: logBuffer_String_def logBuffer_inv_def window_text_def Let_def)
qed

lemma logBuffer_String_frame [npd_frame]:
  "lb_max (snd (logBuffer_String b)) = lb_max b"
  "window (snd (logBuffer_String b)) = window b"
  by (simp_all add: logBuffer_String_def window_def ring_def Let_def)

lemma logBuffer_inv_String [npd_inv]:
  assumes "logBuffer_inv b"
  shows "logBuffer_inv (snd (logBuffer_String b))"
proof (cases "lb_joinedOK b")
  case True
  with assms show ?thesis by (simp add: logBuffer_String_def)
next
  case False
  then have "snd (logBuffer_String b) =
      b\<lparr>lb_joined := window_text (lb_max b) (window b), lb_joinedOK := True\<rparr>"
    using logBuffer_String_window [OF assms] by (simp add: logBuffer_String_def Let_def)
  with assms show ?thesis by (simp add: logBuffer_inv_def window_def ring_def)
qed

text \<open>The general path of \<^verbatim>\<open>Match\<close> computes the specification.\<close>

lemma logBuffer_Match_general:
  assumes "logBuffer_inv b" and "\<not> p_lastLineOnly p"
  shows "fst (logBuffer_Match p b) = match_spec (lb_max b) (p_regexp p) (window b)"
proof -
  obtain log b' where st: "logBuffer_String b = (log, b')" by (cases "logBuffer_String b")
  then have b': "b' = snd (logBuffer_String b)" and log: "log = window_text (lb_max b) (window b)"
    using logBuffer_String_window [OF assms(1)] by simp_all
  have inv: "logBuffer_inv b'" and fr: "lb_max b' = lb_max b" "window b' = window b"
    using b' logBuffer_inv_String [OF assms(1)] logBuffer_String_frame [of b] by simp_all
  have le: "length (window b) \<le> lb_max b" using assms(1) by (rule logBuffer_window_le)
  have "match_loop b' s (lb_max b') 0 [] = cover_back s 0 (rev (window b))" for s
    using match_loop_window [OF inv, of "length (window b)" s 0 "[]"] fr le by simp
  then show ?thesis
    using assms(2) st log by (simp add: logBuffer_Match_def match_spec_def Let_def split: option.split)
qed

lemma logBuffer_Match_frame [npd_frame]:
  "lb_max (snd (logBuffer_Match p b)) = lb_max b"
  "window (snd (logBuffer_Match p b)) = window b"
  using logBuffer_String_frame [of b]
  by (auto simp: logBuffer_Match_def Let_def split: prod.split option.split)

lemma logBuffer_inv_Match [npd_inv]:
  assumes "logBuffer_inv b"
  shows "logBuffer_inv (snd (logBuffer_Match p b))"
  using assms logBuffer_inv_String [OF assms]
  by (auto simp: logBuffer_Match_def Let_def split: prod.split option.split)

subsection \<open>Matching the last line alone\<close>

lemma window_text_snoc:
  assumes "length (ws @ [l]) \<le> n"
  obtains "window_text n (ws @ [l]) = log_Message l"
  | pre where "window_text n (ws @ [l]) = pre @ nl # log_Message l"
proof -
  define xs where "xs = replicate (n - length (ws @ [l])) [] @ map log_Message ws"
  then have eq: "window_text n (ws @ [l]) = strings_Join (xs @ [log_Message l]) [nl]"
    by (simp add: window_text_def concatLogs_def)
  show ?thesis
  proof (cases "xs = []")
    case True
    with eq show ?thesis by (intro that(1)) simp
  next
    case False
    with eq show ?thesis
      by (intro that(2) [of "strings_Join xs [nl]"]) (simp add: strings_Join_append)
  qed
qed

lemma match_spec_last_line:
  assumes "isLastLineOnly re" and "anchored re" and "length (ws @ [l]) \<le> n"
  shows "match_spec n re (ws @ [l]) = (if MatchString re (log_Message l) then [l] else [])"
  using assms(3)
proof (cases rule: window_text_snoc)
  case 1
  then show ?thesis
    by (auto simp: match_spec_def MatchString_def Let_def split: option.split)
next
  case (2 pre)
  have "FindStringIndex re (pre @ nl # log_Message l) =
      map_option ((+) (Suc (length pre))) (FindStringIndex re (log_Message l))"
    by (rule FindStringIndex_last_line [OF assms(1,2)])
  with 2 show ?thesis
    by (auto simp: match_spec_def MatchString_def Let_def split: option.split)
qed

lemma logBuffer_last_slot:
  assumes "logBuffer_inv b" and "window b = ws @ [l]"
  shows "lb_buffer b ! ((lb_current b - 1) mod lb_max b) = Some l"
    and "lb_msg b ! ((lb_current b - 1) mod lb_max b) = log_Message l"
proof -
  have pos: "0 < lb_max b" "0 < lb_current b"
    using assms by (auto simp: logBuffer_inv_def min_def split: if_splits)
  then have "lb_current b + (lb_max b - 1) = (lb_current b - 1) + lb_max b" by simp
  then have i: "(lb_current b + (lb_max b - 1)) mod lb_max b = (lb_current b - 1) mod lb_max b" by simp
  define xs where "xs = replicate (lb_max b - length (ws @ [l])) None @ map Some ws"
  have "ring b = xs @ [Some l]"
    using assms by (simp add: logBuffer_inv_def pad_def xs_def)
  moreover have "length (ring b) = lb_max b"
    using assms(1) by (simp add: ring_def) (simp add: logBuffer_inv_def)
  ultimately have "ring b ! (lb_max b - 1) = Some l" by (metis diff_Suc_1 length_append_singleton nth_append_length)
  then show "lb_buffer b ! ((lb_current b - 1) mod lb_max b) = Some l"
    and "lb_msg b ! ((lb_current b - 1) mod lb_max b) = log_Message l"
    using ring_nth [OF assms(1), of "lb_max b - 1"] pos i by simp_all
qed

lemma logBuffer_matchLastLine_spec:
  assumes "logBuffer_inv b" and "isLastLineOnly re" and "anchored re"
  shows "logBuffer_matchLastLine re b = match_spec (lb_max b) re (window b)"
proof (cases "window b" rule: rev_cases)
  case Nil
  then have "lb_current b = 0" using assms(1) by (auto simp: logBuffer_inv_def)
  with Nil show ?thesis
    by (simp add: logBuffer_matchLastLine_def match_spec_def Let_def split: option.split)
next
  case (snoc ws l)
  then have "lb_current b \<noteq> 0" using assms(1) by (auto simp: logBuffer_inv_def)
  moreover have "length (ws @ [l]) \<le> lb_max b"
    using logBuffer_window_le [OF assms(1)] snoc by simp
  ultimately show ?thesis
    using match_spec_last_line [OF assms(2,3)] logBuffer_last_slot [OF assms(1) snoc] snoc
    by (simp add: logBuffer_matchLastLine_def Let_def)
qed

lemma logBuffer_Match_spec:
  assumes "logBuffer_inv b" and "Pattern_sound p"
  shows "fst (logBuffer_Match p b) = match_spec (lb_max b) (p_regexp p) (window b)"
proof (cases "p_lastLineOnly p")
  case True
  with assms(2) have "isLastLineOnly (p_regexp p)" "anchored (p_regexp p)"
    by (simp_all add: Pattern_sound_def)
  with True show ?thesis
    using logBuffer_matchLastLine_spec [OF assms(1)] by (simp add: logBuffer_Match_def)
next
  case False
  then show ?thesis by (rule logBuffer_Match_general [OF assms(1)])
qed

text \<open>The bytes that a run of lines takes up in the joined text, separators included.\<close>

definition span :: "Log list \<Rightarrow> int" where
  "span ls = sum_list (map (\<lambda>l. int (length (log_Message l)) + 1) ls)"

lemma span_simps [simp]:
  "span [] = 0" "span (l # ls) = int (length (log_Message l)) + 1 + span ls"
  "span (ls @ ls') = span ls + span ls'" "span (rev ls) = span ls"
  by (simp_all add: span_def rev_map [symmetric])

lemma cover_back_spec:
  "\<exists>rest. ls = cover_back s t ls @ rest \<and>
     (rest = [] \<or> t + span (cover_back s t ls) > s) \<and>
     (length (cover_back s t ls) \<le> 1 \<or> t + span (butlast (cover_back s t ls)) \<le> s)"
proof (induction ls arbitrary: t)
  case (Cons l ls)
  let ?t' = "t + int (length (log_Message l)) + 1"
  show ?case
  proof (cases "?t' > s")
    case True
    then show ?thesis by (simp add: Let_def)
  next
    case False
    obtain rest where r: "ls = cover_back s ?t' ls @ rest"
      "rest = [] \<or> ?t' + span (cover_back s ?t' ls) > s"
      "length (cover_back s ?t' ls) \<le> 1 \<or> ?t' + span (butlast (cover_back s ?t' ls)) \<le> s"
      using Cons.IH [of ?t'] by blast
    have "length (cover_back s t (l # ls)) \<le> 1 \<or> t + span (butlast (cover_back s t (l # ls))) \<le> s"
      using False r(3) by (cases "cover_back s ?t' ls" rule: rev_cases) (auto simp: Let_def butlast_append)
    with False r show ?thesis by (intro exI [of _ rest]) (auto simp: Let_def)
  qed
qed simp

subsection \<open>The interface \<^verbatim>\<open>LogBuffer\<close>\<close>

text \<open>
  What the clients of \<^verbatim>\<open>LogBuffer\<close> rely on: a push appends a line and forgets the oldest
  beyond the capacity, a match answers over the retained lines and keeps them.
\<close>

locale LogBuffer_contract =
  fixes push :: "Log \<Rightarrow> 'b \<Rightarrow> 'b"
    and match :: "Pattern \<Rightarrow> 'b \<Rightarrow> Log list \<times> 'b"
    and lines :: "'b \<Rightarrow> Log list"
    and capacity :: "'b \<Rightarrow> nat"
    and inv :: "'b \<Rightarrow> bool"
  assumes push_inv: "inv b \<Longrightarrow> inv (push l b)"
    and push_capacity: "capacity (push l b) = capacity b"
    and push_lines: "inv b \<Longrightarrow> lines (push l b) = last_n (capacity b) (lines b @ [l])"
    and match_inv: "inv b \<Longrightarrow> inv (snd (match p b))"
    and match_capacity: "capacity (snd (match p b)) = capacity b"
    and match_lines: "lines (snd (match p b)) = lines b"
    and match_result: "inv b \<Longrightarrow> Pattern_sound p \<Longrightarrow>
          fst (match p b) = match_spec (capacity b) (p_regexp p) (lines b)"
    and lines_le: "inv b \<Longrightarrow> length (lines b) \<le> capacity b"
begin

lemma run_ops:
  assumes "inv b"
  shows "inv (fold (case_sum push (\<lambda>p b. snd (match p b))) ops b)"
    and "capacity (fold (case_sum push (\<lambda>p b. snd (match p b))) ops b) = capacity b"
    and "lines (fold (case_sum push (\<lambda>p b. snd (match p b))) ops b)
           = last_n (capacity b) (lines b @ concat (map (case_sum (\<lambda>l. [l]) (\<lambda>_. [])) ops))"
  using assms
proof (induction ops rule: rev_induct)
  case Nil
  {
    case 1
    then show ?case by simp
  next
    case 2
    then show ?case by simp
  next
    case 3
    then show ?case by (simp add: last_n_all lines_le)
  }
next
  case (snoc x xs)
  {
    case 1
    then show ?case using snoc by (cases x) (simp_all add: push_inv match_inv)
  next
    case 2
    then show ?case using snoc by (cases x) (simp_all add: push_capacity match_capacity)
  next
    case 3
    then show ?case
      using snoc by (cases x) (simp_all add: push_lines match_lines last_n_snoc_last_n flip: append_assoc)
  }
qed

lemma match_after_ops:
  assumes "inv b" and "Pattern_sound p"
  shows "fst (match p (fold (case_sum push (\<lambda>p b. snd (match p b))) ops b)) =
    match_spec (capacity b) (p_regexp p)
      (last_n (capacity b) (lines b @ concat (map (case_sum (\<lambda>l. [l]) (\<lambda>_. [])) ops)))"
  using run_ops [OF assms(1), of ops] assms(2) by (simp add: match_result)

end

interpretation lb: LogBuffer_contract logBuffer_Push logBuffer_Match window lb_max logBuffer_inv
  by unfold_locales
    (simp_all add: npd_inv npd_frame window_Push logBuffer_Match_spec logBuffer_window_le)

subsection \<open>Properties of the log buffer\<close>

text \<open>Any sequence of pushes and matches, and the lines it pushed.\<close>

definition logBuffer_run :: "(Log + Pattern) list \<Rightarrow> logBuffer \<Rightarrow> logBuffer" where
  "logBuffer_run ops b = fold (case_sum logBuffer_Push (\<lambda>p b. snd (logBuffer_Match p b))) ops b"

definition pushed :: "(Log + Pattern) list \<Rightarrow> Log list" where
  "pushed ops = concat (map (case_sum (\<lambda>l. [l]) (\<lambda>_. [])) ops)"

text \<open>A parser that knows the expression \<^verbatim>\<open>b+\<close> and its anchored forms.\<close>

definition sample_tree :: Regexp where
  "sample_tree =
     Regexp OpConcat no_attr
       [Regexp OpPlus no_attr [Regexp OpLiteral no_attr [] [98]] [], Regexp OpEndText no_attr [] []] []"

definition sample_parse :: "string \<Rightarrow> Regexp option" where
  "sample_parse e =
     (if e = ''b+'' then Some (Regexp OpPlus no_attr [Regexp OpLiteral no_attr [] [98]] [])
      else if e = ''b+'' @ anchor_end \<or> e = ''(?:b+)'' @ anchor_end then Some sample_tree
      else None)"

definition sample_pattern :: Pattern where
  "sample_pattern = \<lparr>p_regexp = sample_tree, p_lastLineOnly = True\<rparr>"

definition sample_log :: "int \<Rightarrow> string \<Rightarrow> Log" where
  "sample_log t m = \<lparr>log_Timestamp = t, log_Message = m\<rparr>"

definition sample_ops :: "(Log + Pattern) list" where
  "sample_ops = [Inl (sample_log 1 ''xb''), Inr sample_pattern, Inl (sample_log 2 ''a''),
                 Inl (sample_log 3 ''abb'')]"

definition sample_buffer :: logBuffer where
  "sample_buffer = logBuffer_run sample_ops (the (NewLogBuffer 2))"

text \<open>A pattern over two lines, \<^verbatim>\<open>a\nab\<close> without an anchor.\<close>

definition sample_pattern2 :: Pattern where
  "sample_pattern2 = \<lparr>p_regexp = Regexp OpLiteral no_attr [] [97, 10, 97, 98], p_lastLineOnly = False\<rparr>"

lemma sample_parse_groups: "parser_groups sample_parse"
  by (auto simp: parser_groups_def sample_parse_def anchor_end_def sample_tree_def anchored_def
      split: if_splits)

lemma sample_compile:
  "CompilePattern sample_parse ''b+'' = Ok sample_pattern"
  by (simp add: CompilePattern_def sample_pattern_def sample_parse_def anchor_end_def sample_tree_def)

text \<open>
  C1: matching after any interleaving of pushes and matches gives exactly what the
  specification gives on the most recent lines: the ring, the cache of the joined text and
  the path for last-line patterns are invisible. The pattern is compiled over a parser that
  keeps a group together.
\<close>

theorem logBuffer_Match_refines:
  assumes "NewLogBuffer n = Some b" and "n \<noteq> 0"
    and "parser_groups parse" and "CompilePattern parse expr = Ok p"
  shows "fst (logBuffer_Match p (logBuffer_run ops b)) =
         match_spec (nat n) (p_regexp p) (last_n (nat n) (pushed ops))"
proof -
  have "logBuffer_inv b" "window b = []" "lb_max b = nat n"
    using NewLogBuffer_inv [OF assms(1,2)] by simp_all
  moreover have "Pattern_sound p" by (rule CompilePattern_sound [OF assms(3,4)])
  ultimately show ?thesis
    using lb.match_after_ops [of b p ops] by (simp add: logBuffer_run_def pushed_def)
qed

theorem logBuffer_Match_refines_witness:
  "fst (logBuffer_Match sample_pattern (logBuffer_run sample_ops (the (NewLogBuffer 2))))
     = [sample_log 3 ''abb'']"
proof -
  have "NewLogBuffer 2 = Some (the (NewLogBuffer 2))" by (simp add: NewLogBuffer_def)
  from logBuffer_Match_refines [OF this _ sample_parse_groups sample_compile, of sample_ops]
  have "fst (logBuffer_Match sample_pattern (logBuffer_run sample_ops (the (NewLogBuffer 2)))) =
      match_spec (nat 2) (p_regexp sample_pattern) (last_n (nat 2) (pushed sample_ops))" by simp
  also have "\<dots> = [sample_log 3 ''abb'']" by code_simp
  finally show ?thesis .
qed

text \<open>
  C4: for a pattern compiled as last-line-only, scanning the last pushed line alone gives the
  same lines as joining the whole ring and scanning it.
\<close>

theorem matchLastLine_equivalent:
  assumes "logBuffer_inv b" and "parser_groups parse"
    and "CompilePattern parse expr = Ok p" and "p_lastLineOnly p"
  shows "logBuffer_matchLastLine (p_regexp p) b = fst (logBuffer_Match (p\<lparr>p_lastLineOnly := False\<rparr>) b)"
proof -
  have "isLastLineOnly (p_regexp p)" "anchored (p_regexp p)"
    using CompilePattern_sound [OF assms(2,3)] assms(4) by (simp_all add: Pattern_sound_def)
  then show ?thesis
    using logBuffer_matchLastLine_spec [OF assms(1)] logBuffer_Match_general [OF assms(1)] by simp
qed

theorem matchLastLine_equivalent_witness:
  "logBuffer_inv sample_buffer \<and> p_lastLineOnly sample_pattern \<and>
   logBuffer_matchLastLine (p_regexp sample_pattern) sample_buffer = [sample_log 3 ''abb''] \<and>
   fst (logBuffer_Match (sample_pattern\<lparr>p_lastLineOnly := False\<rparr>) sample_buffer) = [sample_log 3 ''abb'']"
proof -
  have inv: "logBuffer_inv sample_buffer" by code_simp
  have last: "p_lastLineOnly sample_pattern" by code_simp
  have "logBuffer_matchLastLine (p_regexp sample_pattern) sample_buffer = [sample_log 3 ''abb'']"
    by code_simp
  with matchLastLine_equivalent [OF inv sample_parse_groups sample_compile last] inv last
  show ?thesis by simp
qed

text \<open>
  A match returns a block of the most recent lines, in order, that reaches back to the
  start of the match and not a line further; all lines when the match starts before them.
\<close>

theorem logBuffer_Match_covers:
  assumes "logBuffer_inv b" and "Pattern_sound p"
    and "FindStringIndex (p_regexp p) (window_text (lb_max b) (window b)) = Some st"
    and "logs = fst (logBuffer_Match p b)"
    and "need = int (length (window_text (lb_max b) (window b))) - int st"
  shows "(\<exists>older. window b = older @ logs \<and> (older = [] \<or> need \<le> span logs)) \<and>
         (length logs \<le> 1 \<or> span (tl logs) < need)"
proof -
  let ?c = "cover_back (need - 1) 0 (rev (window b))"
  have logs: "logs = rev ?c"
    using assms logBuffer_Match_spec [OF assms(1,2)] by (simp add: match_spec_def Let_def)
  obtain rest where r: "rev (window b) = ?c @ rest" "rest = [] \<or> 0 + span ?c > need - 1"
    "length ?c \<le> 1 \<or> 0 + span (butlast ?c) \<le> need - 1"
    using cover_back_spec [of "rev (window b)" "need - 1" 0] by blast
  have "window b = rev rest @ logs" using r(1) logs by (metis rev_append rev_rev_ident)
  moreover have "tl logs = rev (butlast ?c)" unfolding logs by (metis butlast_rev rev_rev_ident)
  ultimately show ?thesis using r(2,3) logs by auto
qed

theorem logBuffer_Match_covers_witness:
  "fst (logBuffer_Match sample_pattern2 sample_buffer) = window sample_buffer \<and>
   span (tl (window sample_buffer)) < 5"
proof -
  have inv: "logBuffer_inv sample_buffer" by code_simp
  have p: "Pattern_sound sample_pattern2" by code_simp
  have f: "FindStringIndex (p_regexp sample_pattern2)
      (window_text (lb_max sample_buffer) (window sample_buffer)) = Some 0" by code_simp
  have logs: "fst (logBuffer_Match sample_pattern2 sample_buffer) = window sample_buffer" by code_simp
  have n: "int (length (window_text (lb_max sample_buffer) (window sample_buffer))) - int 0 = 5"
    by code_simp
  have "\<not> length (window sample_buffer) \<le> 1" by code_simp
  with logBuffer_Match_covers [OF inv p f refl refl] logs n show ?thesis by simp
qed

text \<open>
  The joined text is the most recent lines separated by newlines, after any interleaving
  of pushes and matches; slots never written count as empty lines.
\<close>

theorem logBuffer_String_refines:
  assumes "NewLogBuffer n = Some b" and "n \<noteq> 0"
  shows "fst (logBuffer_String (logBuffer_run ops b)) =
         concatLogs (replicate (nat n - length (pushed ops)) []
           @ map log_Message (last_n (nat n) (pushed ops)))"
proof -
  have b: "logBuffer_inv b" "window b = []" "lb_max b = nat n"
    using NewLogBuffer_inv [OF assms] by simp_all
  note r = lb.run_ops [OF b(1), of ops, folded logBuffer_run_def pushed_def]
  have "nat n - min (nat n) (length (pushed ops)) = nat n - length (pushed ops)" by simp
  then show ?thesis
    using logBuffer_String_window [OF r(1)] r(2,3) b by (simp add: window_text_def)
qed

theorem logBuffer_String_refines_witness:
  "fst (logBuffer_String (logBuffer_run sample_ops (the (NewLogBuffer 5)))) =
   [nl, nl] @ ''xb'' @ [nl] @ ''a'' @ [nl] @ ''abb''"
proof -
  have "NewLogBuffer 5 = Some (the (NewLogBuffer 5))" by (simp add: NewLogBuffer_def)
  from logBuffer_String_refines [OF this, of sample_ops]
  have "fst (logBuffer_String (logBuffer_run sample_ops (the (NewLogBuffer 5)))) =
    concatLogs (replicate (nat 5 - length (pushed sample_ops)) []
      @ map log_Message (last_n (nat 5) (pushed sample_ops)))" by simp
  also have "\<dots> = [nl, nl] @ ''xb'' @ [nl] @ ''a'' @ [nl] @ ''abb''" by code_simp
  finally show ?thesis .
qed

end
