(* ===== verification/Metrics.thy ===== *)
theory Metrics
  imports NPD_Prelude
begin

text \<open>
  The metrics of \<^verbatim>\<open>pkg/util/metrics\<close>: the registries of views and tags, metrics over the
  OpenCensus library, and the in-memory metric of \<^verbatim>\<open>fakes.go\<close>. Recording to OpenCensus
  (\<^verbatim>\<open>tag.NewKey\<close>, \<^verbatim>\<open>view.Register\<close>, \<^verbatim>\<open>stats.RecordWithTags\<close>) goes to parameters of the
  operations that call it.

  A set of labels is an association list; the loops over it run in the order of the list.
\<close>

type_synonym Aggregation = string
type_synonym MetricID = string
type_synonym labels = "(string \<times> string) list"

definition LastValue :: Aggregation where "LastValue = ''LastValue''"
definition SumAgg :: Aggregation where "SumAgg = ''Sum''"

lemma aggregation_distinct [simp]: "LastValue \<noteq> SumAgg" "SumAgg \<noteq> LastValue"
  by (simp_all add: LastValue_def SumAgg_def)

text \<open>\<^verbatim>\<open>reflect.DeepEqual\<close> on two maps.\<close>

definition labels_equal :: "labels \<Rightarrow> labels \<Rightarrow> bool" where
  "labels_equal xs ys = list_all (\<lambda>k. map_of xs k = map_of ys k) (map fst xs @ map fst ys)"

lemma labels_equal_iff: "labels_equal xs ys \<longleftrightarrow> map_of xs = map_of ys"
proof
  assume eq: "labels_equal xs ys"
  show "map_of xs = map_of ys"
  proof
    fix k
    show "map_of xs k = map_of ys k"
    proof (cases "k \<in> fst ` set xs \<union> fst ` set ys")
      case True
      with eq show ?thesis by (auto simp: labels_equal_def list_all_iff)
    next
      case False
      then have "map_of xs k = None" "map_of ys k = None" by (simp_all add: map_of_eq_None_iff)
      then show ?thesis by simp
    qed
  qed
next
  assume "map_of xs = map_of ys"
  then show "labels_equal xs ys" by (simp add: labels_equal_def list_all_iff)
qed

subsection \<open>metric.go: the registry of views\<close>

type_synonym MetricMapping = "string \<rightharpoonup> MetricID"

definition MetricMapping_AddMapping :: "MetricID \<Rightarrow> string \<Rightarrow> MetricMapping \<Rightarrow> MetricMapping" where
  "MetricMapping_AddMapping metricID viewName mm = mm(viewName \<mapsto> metricID)"

definition MetricMapping_ViewNameToMetricID :: "string \<Rightarrow> MetricMapping \<Rightarrow> MetricID option" where
  "MetricMapping_ViewNameToMetricID viewName mm = mm viewName"

subsection \<open>helpers.go: tags\<close>

datatype 'e metric_error =
    TagCreation string 'e
  | ViewRegistration string 'e
  | UnknownAggregation Aggregation
  | NoSuchTag string string
  | RecordFailed 'e

text \<open>The keys created before a failure stay in the map.\<close>

fun getTagKeysFromNames_loop ::
    "(string \<Rightarrow> 'e + 'k) \<Rightarrow> string list \<Rightarrow> 'k list \<Rightarrow> (string \<rightharpoonup> 'k)
      \<Rightarrow> ('e metric_error + 'k list) \<times> (string \<rightharpoonup> 'k)" where
  "getTagKeysFromNames_loop NewKey [] tagKeys tagMap = (Ok tagKeys, tagMap)"
| "getTagKeysFromNames_loop NewKey (tagName # names) tagKeys tagMap =
     (case tagMap tagName of
        Some tagKey \<Rightarrow> getTagKeysFromNames_loop NewKey names (tagKeys @ [tagKey]) tagMap
      | None \<Rightarrow>
          (case NewKey tagName of
             Inl err \<Rightarrow> (Err (TagCreation tagName err), tagMap)
           | Inr tagKey \<Rightarrow>
               getTagKeysFromNames_loop NewKey names (tagKeys @ [tagKey]) (tagMap(tagName \<mapsto> tagKey))))"

definition getTagKeysFromNames ::
    "(string \<Rightarrow> 'e + 'k) \<Rightarrow> string list \<Rightarrow> (string \<rightharpoonup> 'k)
      \<Rightarrow> ('e metric_error + 'k list) \<times> (string \<rightharpoonup> 'k)" where
  "getTagKeysFromNames NewKey tagNames tagMap = getTagKeysFromNames_loop NewKey tagNames [] tagMap"

subsection \<open>metric_int64.go and metric_float64.go\<close>

text \<open>What the constructors hand to OpenCensus.\<close>

datatype view_aggregation = View_LastValue | View_Sum

record Measure =
  me_name :: string
  me_description :: string
  me_unit :: string

record 'k View =
  v_Name :: string
  v_Measure :: Measure
  v_Description :: string
  v_Aggregation :: view_aggregation
  v_TagKeys :: "'k list"

text \<open>The state of the package and of OpenCensus behind it.\<close>

record ('k, 'w) metrics_state =
  ms_tagMap :: "string \<rightharpoonup> 'k"
  ms_MetricMap :: MetricMapping
  ms_census :: 'w

record Int64Metric =
  i64_name :: string
  i64_measure :: Measure

record Float64Metric =
  f64_name :: string
  f64_measure :: Measure

record Int64MetricRepresentation =
  im_Name :: string
  im_Labels :: labels
  im_Value :: int64

text \<open>The values of float metrics are opaque.\<close>

record 'f Float64MetricRepresentation =
  fm_Name :: string
  fm_Labels :: labels
  fm_Value :: 'f

definition NewInt64Metric ::
    "(string \<Rightarrow> 'e + 'k) \<Rightarrow> ('k View \<Rightarrow> 'w \<Rightarrow> 'e option \<times> 'w) \<Rightarrow>
     MetricID \<Rightarrow> string \<Rightarrow> string \<Rightarrow> string \<Rightarrow> Aggregation \<Rightarrow> string list \<Rightarrow>
     ('k, 'w) metrics_state \<Rightarrow>
     ('e metric_error + Int64Metric option) \<times> ('k, 'w) metrics_state" where
  "NewInt64Metric NewKey Register metricID viewName description un aggregation tagNames st =
     (if viewName = [] then (Ok None, st)
      else
        let st = st\<lparr>ms_MetricMap := MetricMapping_AddMapping metricID viewName (ms_MetricMap st)\<rparr> in
        case getTagKeysFromNames NewKey tagNames (ms_tagMap st) of
          (Inl err, tagMap) \<Rightarrow> (Err err, st\<lparr>ms_tagMap := tagMap\<rparr>)
        | (Inr tagKeys, tagMap) \<Rightarrow>
            let st = st\<lparr>ms_tagMap := tagMap\<rparr> in
            if aggregation \<noteq> LastValue \<and> aggregation \<noteq> SumAgg
            then (Err (UnknownAggregation aggregation), st)
            else
              let measure = \<lparr>me_name = viewName, me_description = description, me_unit = un\<rparr>;
                  newView = \<lparr>v_Name = viewName, v_Measure = measure, v_Description = description,
                             v_Aggregation = (if aggregation = LastValue then View_LastValue else View_Sum),
                             v_TagKeys = tagKeys\<rparr> in
              case Register newView (ms_census st) of
                (Some err, w) \<Rightarrow> (Err (ViewRegistration viewName err), st\<lparr>ms_census := w\<rparr>)
              | (None, w) \<Rightarrow>
                  (Ok (Some \<lparr>i64_name = viewName, i64_measure = measure\<rparr>), st\<lparr>ms_census := w\<rparr>))"

definition NewFloat64Metric ::
    "(string \<Rightarrow> 'e + 'k) \<Rightarrow> ('k View \<Rightarrow> 'w \<Rightarrow> 'e option \<times> 'w) \<Rightarrow>
     MetricID \<Rightarrow> string \<Rightarrow> string \<Rightarrow> string \<Rightarrow> Aggregation \<Rightarrow> string list \<Rightarrow>
     ('k, 'w) metrics_state \<Rightarrow>
     ('e metric_error + Float64Metric option) \<times> ('k, 'w) metrics_state" where
  "NewFloat64Metric NewKey Register metricID viewName description un aggregation tagNames st =
     (if viewName = [] then (Ok None, st)
      else
        let st = st\<lparr>ms_MetricMap := MetricMapping_AddMapping metricID viewName (ms_MetricMap st)\<rparr> in
        case getTagKeysFromNames NewKey tagNames (ms_tagMap st) of
          (Inl err, tagMap) \<Rightarrow> (Err err, st\<lparr>ms_tagMap := tagMap\<rparr>)
        | (Inr tagKeys, tagMap) \<Rightarrow>
            let st = st\<lparr>ms_tagMap := tagMap\<rparr> in
            if aggregation \<noteq> LastValue \<and> aggregation \<noteq> SumAgg
            then (Err (UnknownAggregation aggregation), st)
            else
              let measure = \<lparr>me_name = viewName, me_description = description, me_unit = un\<rparr>;
                  newView = \<lparr>v_Name = viewName, v_Measure = measure, v_Description = description,
                             v_Aggregation = (if aggregation = LastValue then View_LastValue else View_Sum),
                             v_TagKeys = tagKeys\<rparr> in
              case Register newView (ms_census st) of
                (Some err, w) \<Rightarrow> (Err (ViewRegistration viewName err), st\<lparr>ms_census := w\<rparr>)
              | (None, w) \<Rightarrow>
                  (Ok (Some \<lparr>f64_name = viewName, f64_measure = measure\<rparr>), st\<lparr>ms_census := w\<rparr>))"

text \<open>The loop of \<^verbatim>\<open>Record\<close> that turns tags into mutators (\<^verbatim>\<open>tag.Upsert\<close> of a key and a value).\<close>

fun tag_mutators ::
    "string \<Rightarrow> (string \<rightharpoonup> 'k) \<Rightarrow> labels \<Rightarrow> 'e metric_error + ('k \<times> string) list" where
  "tag_mutators name tagMap [] = Ok []"
| "tag_mutators name tagMap ((tagName, tagValue) # tags) =
     (case tagMap tagName of
        None \<Rightarrow> Err (NoSuchTag tagName name)
      | Some tagKey \<Rightarrow>
          and_then (tag_mutators name tagMap tags) (\<lambda>ms. Ok ((tagKey, tagValue) # ms)))"

definition Int64Metric_Record ::
    "(('k \<times> string) list \<Rightarrow> Measure \<Rightarrow> int64 \<Rightarrow> 'w \<Rightarrow> 'e option \<times> 'w) \<Rightarrow>
     Int64Metric \<Rightarrow> labels \<Rightarrow> int64 \<Rightarrow> ('k, 'w) metrics_state \<Rightarrow>
     'e metric_error option \<times> ('k, 'w) metrics_state" where
  "Int64Metric_Record RecordWithTags metric tags measurement st =
     (case tag_mutators (i64_name metric) (ms_tagMap st) tags of
        Inl err \<Rightarrow> (Some err, st)
      | Inr mutators \<Rightarrow>
          (case RecordWithTags mutators (i64_measure metric) measurement (ms_census st) of
             (err, w) \<Rightarrow> (map_option RecordFailed err, st\<lparr>ms_census := w\<rparr>)))"

definition Float64Metric_Record ::
    "(('k \<times> string) list \<Rightarrow> Measure \<Rightarrow> 'f \<Rightarrow> 'w \<Rightarrow> 'e option \<times> 'w) \<Rightarrow>
     Float64Metric \<Rightarrow> labels \<Rightarrow> 'f \<Rightarrow> ('k, 'w) metrics_state \<Rightarrow>
     'e metric_error option \<times> ('k, 'w) metrics_state" where
  "Float64Metric_Record RecordWithTags metric tags measurement st =
     (case tag_mutators (f64_name metric) (ms_tagMap st) tags of
        Inl err \<Rightarrow> (Some err, st)
      | Inr mutators \<Rightarrow>
          (case RecordWithTags mutators (f64_measure metric) measurement (ms_census st) of
             (err, w) \<Rightarrow> (map_option RecordFailed err, st\<lparr>ms_census := w\<rparr>)))"

text \<open>
  \<^verbatim>\<open>ParsePrometheusMetrics\<close>: the parser of the text is an argument, which gives the metric families in the order in
  which the map of families is ranged over. A value that the type of the family promises and that is
  missing is a nil dereference.
\<close>

datatype pcm_MetricType = MetricType_COUNTER | MetricType_GAUGE | MetricType_other int

record 'f pcm_Metric =
  pm_Label :: "(string \<times> string) list"
  pm_Counter :: "'f option"
  pm_Gauge :: "'f option"

record 'f pcm_MetricFamily =
  mf_Name :: string
  mf_Type :: pcm_MetricType
  mf_Metric :: "'f pcm_Metric list"

datatype 'e parse_failure = TextError 'e | UnexpectedMetricType int string | NilValue

fun set_label :: "string \<Rightarrow> string \<Rightarrow> labels \<Rightarrow> labels" where
  "set_label k v [] = [(k, v)]"
| "set_label k v ((k', v') # ls) = (if k' = k then (k, v) # ls else (k', v') # set_label k v ls)"

definition family_value :: "'f pcm_MetricFamily \<Rightarrow> 'f pcm_Metric \<Rightarrow> 'e parse_failure + 'f" where
  "family_value metricFamily metric =
     (case mf_Type metricFamily of
        MetricType_COUNTER \<Rightarrow> (case pm_Counter metric of None \<Rightarrow> Err NilValue | Some v \<Rightarrow> Ok v)
      | MetricType_GAUGE \<Rightarrow> (case pm_Gauge metric of None \<Rightarrow> Err NilValue | Some v \<Rightarrow> Ok v)
      | MetricType_other n \<Rightarrow> Err (UnexpectedMetricType n (mf_Name metricFamily)))"

fun parse_family ::
    "('f pcm_MetricFamily \<times> 'f pcm_Metric) list \<Rightarrow> 'f Float64MetricRepresentation list \<Rightarrow>
     'e parse_failure option \<times> 'f Float64MetricRepresentation list" where
  "parse_family [] metrics = (None, metrics)"
| "parse_family ((metricFamily, metric) # ms) metrics =
     (case family_value metricFamily metric of
        Inl err \<Rightarrow> (Some err, metrics)
      | Inr v \<Rightarrow>
          parse_family ms (metrics @ [\<lparr>fm_Name = mf_Name metricFamily,
            fm_Labels = fold (\<lambda>(k, v). set_label k v) (pm_Label metric) [], fm_Value = v\<rparr>]))"

definition ParsePrometheusMetrics ::
    "(string \<Rightarrow> 'e + 'f pcm_MetricFamily list) \<Rightarrow> string \<Rightarrow> 'e parse_failure option \<times> 'f Float64MetricRepresentation list" where
  "ParsePrometheusMetrics TextToMetricFamilies metricsText =
     (case TextToMetricFamilies (filter (\<lambda>c. c \<noteq> CHR 0x0D) metricsText) of
        Inl err \<Rightarrow> (Some (TextError err), [])
      | Inr metricFamilies \<Rightarrow>
          parse_family (concat (map (\<lambda>metricFamily. map (Pair metricFamily) (mf_Metric metricFamily)) metricFamilies)) [])"

text \<open>
  \<^verbatim>\<open>GetFloat64Metric\<close>: the first metric with the name and the labels. Reading a missing label
  of a metric gives the empty string.
\<close>

definition GetFloat64Metric ::
    "'f Float64MetricRepresentation list \<Rightarrow> string \<Rightarrow> labels \<Rightarrow> bool
      \<Rightarrow> 'f Float64MetricRepresentation option" where
  "GetFloat64Metric metrics name labels strictLabelMatching =
     find (\<lambda>metric. fm_Name metric = name \<and>
             (strictLabelMatching \<longrightarrow> length (fm_Labels metric) = length labels) \<and>
             list_all (\<lambda>(key, v). (case map_of (fm_Labels metric) key of
                                     None \<Rightarrow> [] | Some x \<Rightarrow> x) = v) labels) metrics"

subsection \<open>fakes.go\<close>

datatype fake_error = TagNotAllowed string | UnsupportedAggregation

record FakeInt64Metric =
  fk_name :: string
  fk_aggregation :: Aggregation
  fk_allowedTags :: "string list"
  fk_metrics :: "Int64MetricRepresentation list"

definition NewFakeInt64Metric :: "string \<Rightarrow> Aggregation \<Rightarrow> string list \<Rightarrow> FakeInt64Metric option" where
  "NewFakeInt64Metric name aggregation tagNames =
     (if name = [] then None
      else Some \<lparr>fk_name = name, fk_aggregation = aggregation, fk_allowedTags = tagNames,
                 fk_metrics = []\<rparr>)"

fun fake_labels :: "string list \<Rightarrow> labels \<Rightarrow> labels \<Rightarrow> fake_error + labels" where
  "fake_labels allowed [] acc = Ok acc"
| "fake_labels allowed ((tagName, tagValue) # tags) acc =
     (if tagName \<notin> set allowed then Err (TagNotAllowed tagName)
      else fake_labels allowed tags ((tagName, tagValue) # acc))"

fun metric_index :: "labels \<Rightarrow> Int64MetricRepresentation list \<Rightarrow> nat option" where
  "metric_index ls [] = None"
| "metric_index ls (x # xs) =
     (if labels_equal (im_Labels x) ls then Some 0 else map_option Suc (metric_index ls xs))"

definition FakeInt64Metric_Record ::
    "labels \<Rightarrow> int64 \<Rightarrow> FakeInt64Metric \<Rightarrow> fake_error option \<times> FakeInt64Metric" where
  "FakeInt64Metric_Record tags measurement fake =
     (case fake_labels (fk_allowedTags fake) tags [] of
        Inl err \<Rightarrow> (Some err, fake)
      | Inr ls \<Rightarrow>
          let metric = \<lparr>im_Name = fk_name fake, im_Labels = ls, im_Value = 0\<rparr>;
              (ms, i) = (case metric_index ls (fk_metrics fake) of
                           Some i \<Rightarrow> (fk_metrics fake, i)
                         | None \<Rightarrow> (fk_metrics fake @ [metric], length (fk_metrics fake)))
          in if fk_aggregation fake = LastValue
             then (None, fake\<lparr>fk_metrics := ms[i := (ms ! i)\<lparr>im_Value := measurement\<rparr>]\<rparr>)
             else if fk_aggregation fake = SumAgg
             then (None, fake\<lparr>fk_metrics := ms[i := (ms ! i)\<lparr>im_Value := im_Value (ms ! i) + measurement\<rparr>]\<rparr>)
             else (Some UnsupportedAggregation, fake\<lparr>fk_metrics := ms\<rparr>))"

definition FakeInt64Metric_ListMetrics :: "FakeInt64Metric \<Rightarrow> Int64MetricRepresentation list" where
  "FakeInt64Metric_ListMetrics fake = fk_metrics fake"

subsection \<open>The interface \<^verbatim>\<open>Int64MetricInterface\<close>\<close>

text \<open>
  What a client sees of a metric: one value per set of labels, 0 before the first record. A
  record with labels the metric accepts succeeds and combines the value under these labels
  with the measurement; every other value stays. A gauge combines by overwriting, a counter
  by adding.
\<close>

locale Int64Metric_contract =
  fixes Record :: "labels \<Rightarrow> int64 \<Rightarrow> 'm \<Rightarrow> 'e option \<times> 'm"
    and val :: "'m \<Rightarrow> labels \<Rightarrow> int64"
    and accepts :: "'m \<Rightarrow> labels \<Rightarrow> bool"
    and combine :: "int64 \<Rightarrow> int64 \<Rightarrow> int64"
  assumes record_ok: "accepts m tags \<Longrightarrow> fst (Record tags v m) = None"
    and record_accepts: "accepts (snd (Record tags v m)) tags' = accepts m tags'"
    and record_val: "accepts m tags \<Longrightarrow>
          val (snd (Record tags v m)) tags' =
            (if map_of tags' = map_of tags then combine (val m tags) v else val m tags')"
begin

lemma record_same: "accepts m tags \<Longrightarrow> val (snd (Record tags v m)) tags = combine (val m tags) v"
  by (simp add: record_val)

lemma record_other:
  "accepts m tags \<Longrightarrow> map_of tags' \<noteq> map_of tags \<Longrightarrow> val (snd (Record tags v m)) tags' = val m tags'"
  by (simp add: record_val)

end

fun lookup_value :: "labels \<Rightarrow> Int64MetricRepresentation list \<Rightarrow> int64" where
  "lookup_value ls [] = 0"
| "lookup_value ls (x # xs) = (if labels_equal (im_Labels x) ls then im_Value x else lookup_value ls xs)"

definition fake_value :: "FakeInt64Metric \<Rightarrow> labels \<Rightarrow> int64" where
  "fake_value fake ls = lookup_value ls (fk_metrics fake)"

definition fake_accepts :: "Aggregation \<Rightarrow> FakeInt64Metric \<Rightarrow> labels \<Rightarrow> bool" where
  "fake_accepts agg fake ls \<longleftrightarrow>
     fk_aggregation fake = agg \<and> distinct (map fst ls) \<and> list_all (\<lambda>(k, v). k \<in> set (fk_allowedTags fake)) ls"

lemma map_of_set_label: "map_of (set_label k v ls) = (map_of ls)(k \<mapsto> v)"
  by (induction k v ls rule: set_label.induct) auto

lemma map_of_fold_set_label: "map_of (fold (\<lambda>(k, v). set_label k v) ps ls) = map_of ls ++ map_of (rev ps)"
  by (induction ps arbitrary: ls) (auto simp: map_of_set_label map_add_def fun_eq_iff split: option.splits)

text \<open>What is returned is one metric per metric of the text up to the first that cannot be read, with its
  name, its value and, for every label, the last value the text gives it.\<close>

definition metric_read :: "'f pcm_MetricFamily \<times> 'f pcm_Metric \<Rightarrow> 'f Float64MetricRepresentation \<Rightarrow> bool" where
  "metric_read fm r \<longleftrightarrow> fm_Name r = mf_Name (fst fm) \<and> map_of (fm_Labels r) = map_of (rev (pm_Label (snd fm))) \<and>
     family_value (fst fm) (snd fm) = (Ok (fm_Value r) :: unit parse_failure + 'f)"

lemma parse_family_reads:
  "parse_family ms acc = (err :: unit parse_failure option, metrics) \<Longrightarrow>
   \<exists>rs k. metrics = acc @ rs \<and> k \<le> length ms \<and> list_all2 metric_read (take k ms) rs \<and> (err = None \<longleftrightarrow> k = length ms)"
proof (induction ms arbitrary: acc)
  case (Cons fm ms)
  obtain f m where fm: "fm = (f, m)" by force
  show ?case
  proof (cases "family_value f m :: unit parse_failure + _")
    case (Inl e)
    with Cons.prems show ?thesis by (intro exI [of _ "[]"] exI [of _ 0]) (auto simp: fm)
  next
    case (Inr v)
    let ?r = "\<lparr>fm_Name = mf_Name f, fm_Labels = fold (\<lambda>(k, v). set_label k v) (pm_Label m) [], fm_Value = v\<rparr>"
    from Cons.IH [of "acc @ [?r]"] Cons.prems Inr obtain rs k where
      "metrics = acc @ ?r # rs" "k \<le> length ms" "list_all2 metric_read (take k ms) rs" "err = None \<longleftrightarrow> k = length ms" by (auto simp: fm)
    moreover have "metric_read (f, m) ?r" using Inr by (simp add: metric_read_def map_of_fold_set_label)
    ultimately show ?thesis by (intro exI [of _ "?r # rs"] exI [of _ "Suc k"]) (simp add: fm)
  qed
qed simp

lemma fake_labels_ok:
  "list_all (\<lambda>(k, v). k \<in> set allowed) tags \<Longrightarrow> fake_labels allowed tags acc = Ok (rev tags @ acc)"
  by (induction allowed tags acc rule: fake_labels.induct) auto

lemma metric_index_Some:
  "metric_index ls xs = Some i \<Longrightarrow>
   i < length xs \<and> lookup_value ls xs = im_Value (xs ! i) \<and>
   lookup_value ls' (xs[i := (xs ! i)\<lparr>im_Value := w\<rparr>]) =
     (if map_of ls' = map_of ls then w else lookup_value ls' xs)"
proof (induction xs arbitrary: i)
  case (Cons x xs)
  then show ?case by (cases i) (auto simp: labels_equal_iff split: if_splits)
qed simp

lemma metric_index_None:
  "metric_index ls xs = None \<Longrightarrow>
   lookup_value ls xs = 0 \<and>
   (labels_equal (im_Labels x) ls \<longrightarrow>
        lookup_value ls' (xs @ [x]) = (if map_of ls' = map_of ls then im_Value x else lookup_value ls' xs))"
  by (induction xs) (auto simp: labels_equal_iff split: if_splits)

lemma lookup_value_cong: "map_of ls = map_of ls' \<Longrightarrow> lookup_value ls xs = lookup_value ls' xs"
  by (induction xs) (simp_all add: labels_equal_iff)

lemma metric_index_cong: "map_of ls = map_of ls' \<Longrightarrow> metric_index ls xs = metric_index ls' xs"
  by (induction xs) (simp_all add: labels_equal_iff)

lemma FakeInt64Metric_Record_frame [npd_frame]:
  "fk_name (snd (FakeInt64Metric_Record tags v fake)) = fk_name fake"
  "fk_aggregation (snd (FakeInt64Metric_Record tags v fake)) = fk_aggregation fake"
  "fk_allowedTags (snd (FakeInt64Metric_Record tags v fake)) = fk_allowedTags fake"
  by (simp_all add: FakeInt64Metric_Record_def Let_def split: sum.split option.split)

lemma fake_accepts_frame:
  "fake_accepts agg (snd (FakeInt64Metric_Record tags v fake)) ls = fake_accepts agg fake ls"
  by (simp add: fake_accepts_def npd_frame)

lemma FakeInt64Metric_Record_value:
  assumes "fake_accepts agg fake tags" and "agg = LastValue \<or> agg = SumAgg"
  shows "fst (FakeInt64Metric_Record tags v fake) = None"
    and "fake_value (snd (FakeInt64Metric_Record tags v fake)) tags' =
           (if map_of tags' = map_of tags
            then (if agg = LastValue then v else fake_value fake tags + v)
            else fake_value fake tags')"
proof -
  let ?xs = "fk_metrics fake"
  have ls: "fake_labels (fk_allowedTags fake) tags [] = Ok (rev tags)"
    and agg: "fk_aggregation fake = agg" and same: "map_of (rev tags) = map_of tags"
    using assms(1) fake_labels_ok [of "fk_allowedTags fake" tags "[]"]
    by (auto simp: fake_accepts_def map_of_inject_set rev_map [symmetric])
  show "fst (FakeInt64Metric_Record tags v fake) = None"
    using assms(2) ls agg by (auto simp: FakeInt64Metric_Record_def Let_def split: option.split)
  show "fake_value (snd (FakeInt64Metric_Record tags v fake)) tags' =
      (if map_of tags' = map_of tags then (if agg = LastValue then v else fake_value fake tags + v)
       else fake_value fake tags')"
  proof (cases "metric_index (rev tags) ?xs")
    case None
    note N = metric_index_None [OF None]
    have "lookup_value (rev tags) ?xs = 0" using N by blast
    then have "fake_value fake tags = 0"
      using lookup_value_cong [OF same] by (simp add: fake_value_def)
    with N assms(2) ls agg None same show ?thesis
      by (auto simp: FakeInt64Metric_Record_def fake_value_def labels_equal_iff)
  next
    case (Some i)
    note S = metric_index_Some [OF Some]
    have "fake_value fake tags = im_Value (?xs ! i)"
      using S lookup_value_cong [OF same] by (simp add: fake_value_def)
    with S assms(2) ls agg Some same show ?thesis
      by (auto simp: FakeInt64Metric_Record_def fake_value_def)
  qed
qed

text \<open>The in-memory metric is a gauge with the one aggregation and a counter with the other.\<close>

interpretation gauge: Int64Metric_contract FakeInt64Metric_Record fake_value "fake_accepts LastValue" "\<lambda>old new. new"
  by unfold_locales
    (simp_all add: FakeInt64Metric_Record_value [of LastValue] fake_accepts_frame)

interpretation counter: Int64Metric_contract FakeInt64Metric_Record fake_value "fake_accepts SumAgg" "(+)"
  by unfold_locales
    (simp_all add: FakeInt64Metric_Record_value [of SumAgg] fake_accepts_frame)

end
