(* ===== verification/Problem_Metrics.thy ===== *)
theory Problem_Metrics
  imports Metrics NPD_Types
begin

text \<open>
  The manager of the problem metrics (\<^verbatim>\<open>pkg/problemmetrics/problem_metrics.go\<close>): a counter
  of problems per reason and a gauge per type and reason of permanent problem.

  The manager works on metrics of any type \<open>'m\<close> (a metric together with what has been
  recorded to it), whose operation \<^verbatim>\<open>Record\<close> is an argument, as the code works on the
  interface \<^verbatim>\<open>Int64MetricInterface\<close>. Its lock makes every operation one step.
\<close>

record 'm ProblemMetricsManager =
  pmm_problemCounter :: "'m option"
  pmm_problemGauge :: "'m option"
  pmm_problemTypeToReason :: "string \<rightharpoonup> string"

datatype 'e pmm_error =
    CounterNotInitialized
  | GaugeNotInitialized
  | ClearPreviousReason string string 'e
  | RecordError 'e

definition ProblemCounterID :: MetricID where "ProblemCounterID = ''problem_counter''"
definition ProblemGaugeID :: MetricID where "ProblemGaugeID = ''problem_gauge''"

text \<open>
  The constructor of the metrics is an argument; an error of it ends the program, which is the
  left side of the result.
\<close>

definition NewProblemMetricsManagerOrDie ::
    "(MetricID \<Rightarrow> string \<Rightarrow> string \<Rightarrow> string \<Rightarrow> Aggregation \<Rightarrow> string list \<Rightarrow> 'w
        \<Rightarrow> ('e + 'm option) \<times> 'w) \<Rightarrow> 'w \<Rightarrow> ('e + 'm ProblemMetricsManager) \<times> 'w" where
  "NewProblemMetricsManagerOrDie newMetric w =
     (case newMetric ProblemCounterID ProblemCounterID
             ''Number of times a specific type of problem have occurred.'' ''1'' SumAgg [''reason''] w of
        (Inl err, w) \<Rightarrow> (Err err, w)
      | (Inr counter, w) \<Rightarrow>
          (case newMetric ProblemGaugeID ProblemGaugeID
                  ''Whether a specific type of problem is affecting the node or not.'' ''1''
                  LastValue [''type'', ''reason''] w of
             (Inl err, w) \<Rightarrow> (Err err, w)
           | (Inr gauge, w) \<Rightarrow>
               (Ok \<lparr>pmm_problemCounter = counter, pmm_problemGauge = gauge,
                    pmm_problemTypeToReason = Map.empty\<rparr>, w)))"

definition counter_labels :: "string \<Rightarrow> labels" where
  "counter_labels reason = [(''reason'', reason)]"

definition gauge_labels :: "string \<Rightarrow> string \<Rightarrow> labels" where
  "gauge_labels problemType reason = [(''type'', problemType), (''reason'', reason)]"

definition IncrementProblemCounter ::
    "(labels \<Rightarrow> int64 \<Rightarrow> 'm \<Rightarrow> 'e option \<times> 'm) \<Rightarrow> string \<Rightarrow> int64 \<Rightarrow> 'm ProblemMetricsManager
      \<Rightarrow> 'e pmm_error option \<times> 'm ProblemMetricsManager" where
  "IncrementProblemCounter Record reason count pmm =
     (case pmm_problemCounter pmm of
        None \<Rightarrow> (Some CounterNotInitialized, pmm)
      | Some c \<Rightarrow>
          (case Record (counter_labels reason) count c of
             (err, c) \<Rightarrow> (map_option RecordError err, pmm\<lparr>pmm_problemCounter := Some c\<rparr>)))"

definition SetProblemGauge ::
    "(labels \<Rightarrow> int64 \<Rightarrow> 'm \<Rightarrow> 'e option \<times> 'm) \<Rightarrow> string \<Rightarrow> string \<Rightarrow> bool \<Rightarrow> 'm ProblemMetricsManager
      \<Rightarrow> 'e pmm_error option \<times> 'm ProblemMetricsManager" where
  "SetProblemGauge Record problemType reason v pmm =
     (case pmm_problemGauge pmm of
        None \<Rightarrow> (Some GaugeNotInitialized, pmm)
      | Some g \<Rightarrow>
          (case (case pmm_problemTypeToReason pmm problemType of
                   Some lastReason \<Rightarrow>
                     (case Record (gauge_labels problemType lastReason) 0 g of
                        (err, g) \<Rightarrow> (map_option (ClearPreviousReason problemType lastReason) err, g))
                 | None \<Rightarrow> (None, g)) of
             (Some err, g) \<Rightarrow> (Some err, pmm\<lparr>pmm_problemGauge := Some g\<rparr>)
           | (None, g) \<Rightarrow>
               (case Record (gauge_labels problemType reason) (if v then 1 else 0) g of
                  (err, g) \<Rightarrow>
                    (map_option RecordError err,
                     pmm\<lparr>pmm_problemGauge := Some g,
                         pmm_problemTypeToReason :=
                           (pmm_problemTypeToReason pmm)(problemType \<mapsto> reason)\<rparr>))))"

text \<open>
  What both monitors do with the events and the conditions of a status when metrics are
  reported. An error is only logged.
\<close>

definition count_events ::
    "(labels \<Rightarrow> int64 \<Rightarrow> 'm \<Rightarrow> 'e option \<times> 'm) \<Rightarrow> Event list \<Rightarrow> 'm ProblemMetricsManager
      \<Rightarrow> 'm ProblemMetricsManager" where
  "count_events Record events pmm =
     fold (\<lambda>event pmm. snd (IncrementProblemCounter Record (e_Reason event) 1 pmm)) events pmm"

definition gauge_conditions ::
    "(labels \<Rightarrow> int64 \<Rightarrow> 'm \<Rightarrow> 'e option \<times> 'm) \<Rightarrow> Condition list \<Rightarrow> 'm ProblemMetricsManager
      \<Rightarrow> 'm ProblemMetricsManager" where
  "gauge_conditions Record conditions pmm =
     fold (\<lambda>condition pmm.
             snd (SetProblemGauge Record (c_Type condition) (c_Reason condition)
                    (c_Status condition = CondTrue) pmm)) conditions pmm"

text \<open>
  Both monitors initialise the metrics of their rules to 0; an error ends the program. A rule
  is given by whether it is permanent, its condition and its reason.
\<close>

definition init_rule_metrics ::
    "(labels \<Rightarrow> int64 \<Rightarrow> 'm \<Rightarrow> 'e option \<times> 'm) \<Rightarrow> bool \<times> string \<times> string \<Rightarrow> 'm ProblemMetricsManager
      \<Rightarrow> 'e pmm_error + 'm ProblemMetricsManager" where
  "init_rule_metrics Record rule pmm =
     (case rule of (perm, condition, reason) \<Rightarrow>
        (case (if perm then SetProblemGauge Record condition reason False pmm else (None, pmm)) of
           (Some err, _) \<Rightarrow> Err err
         | (None, pmm) \<Rightarrow>
             (case IncrementProblemCounter Record reason 0 pmm of
                (Some err, _) \<Rightarrow> Err err
              | (None, pmm) \<Rightarrow> Ok pmm)))"

subsection \<open>What the gauges and counters show\<close>

lemma gauge_labels_lookup:
  "map_of (gauge_labels t r) ''type'' = Some t" "map_of (gauge_labels t r) ''reason'' = Some r"
  by (simp_all add: gauge_labels_def)

lemma gauge_labels_eq [simp]:
  "map_of (gauge_labels t r) = map_of (gauge_labels t' r') \<longleftrightarrow> t = t' \<and> r = r'"
  by (metis gauge_labels_lookup option.inject)

lemma counter_labels_lookup: "map_of (counter_labels r) ''reason'' = Some r"
  by (simp add: counter_labels_def)

lemma counter_labels_eq [simp]:
  "map_of (counter_labels r) = map_of (counter_labels r') \<longleftrightarrow> r = r'"
  by (metis counter_labels_lookup option.inject)

text \<open>
  The abstract state of the gauges: for each type of problem the reason and the value of the
  last call. A gauge shows 1 exactly for a last call with value true.
\<close>

type_synonym gauges = "string \<rightharpoonup> string \<times> bool"

definition gauge_spec :: "gauges \<Rightarrow> string \<Rightarrow> string \<Rightarrow> int64" where
  "gauge_spec G t r = (if G t = Some (r, True) then 1 else 0)"

definition gauges_of :: "(string \<times> string \<times> bool) list \<Rightarrow> gauges" where
  "gauges_of calls = fold (\<lambda>(t, r, v) G. G(t \<mapsto> (r, v))) calls Map.empty"

definition set_gauges ::
    "(labels \<Rightarrow> int64 \<Rightarrow> 'm \<Rightarrow> 'e option \<times> 'm) \<Rightarrow> (string \<times> string \<times> bool) list
      \<Rightarrow> 'm ProblemMetricsManager \<Rightarrow> 'm ProblemMetricsManager" where
  "set_gauges Record calls pmm = fold (\<lambda>(t, r, v) pmm. snd (SetProblemGauge Record t r v pmm)) calls pmm"

definition increment_counters ::
    "(labels \<Rightarrow> int64 \<Rightarrow> 'm \<Rightarrow> 'e option \<times> 'm) \<Rightarrow> (string \<times> int64) list
      \<Rightarrow> 'm ProblemMetricsManager \<Rightarrow> 'm ProblemMetricsManager" where
  "increment_counters Record calls pmm =
     fold (\<lambda>(r, n) pmm. snd (IncrementProblemCounter Record r n pmm)) calls pmm"

text \<open>The manager's gauge is there, accepts its labels and shows the abstract state.\<close>

definition gauges_show ::
    "('m \<Rightarrow> labels \<Rightarrow> int64) \<Rightarrow> ('m \<Rightarrow> labels \<Rightarrow> bool) \<Rightarrow> gauges \<Rightarrow> 'm ProblemMetricsManager \<Rightarrow> bool" where
  "gauges_show val accepts G pmm \<longleftrightarrow>
     (\<exists>g. pmm_problemGauge pmm = Some g \<and>
        (\<forall>t r. accepts g (gauge_labels t r) \<and> val g (gauge_labels t r) = gauge_spec G t r)) \<and>
     pmm_problemTypeToReason pmm = map_option fst \<circ> G"

definition counters_show ::
    "('m \<Rightarrow> labels \<Rightarrow> int64) \<Rightarrow> ('m \<Rightarrow> labels \<Rightarrow> bool) \<Rightarrow> (string \<Rightarrow> int64) \<Rightarrow> 'm ProblemMetricsManager \<Rightarrow> bool" where
  "counters_show val accepts C pmm \<longleftrightarrow>
     (\<exists>c. pmm_problemCounter pmm = Some c \<and>
        (\<forall>r. accepts c (counter_labels r) \<and> val c (counter_labels r) = C r))"

text \<open>The gauges agree with the conditions: 1 exactly for the reason of a true condition.\<close>

definition gauges_agree ::
    "('m \<Rightarrow> labels \<Rightarrow> int64) \<Rightarrow> ('m \<Rightarrow> labels \<Rightarrow> bool) \<Rightarrow> Condition list \<Rightarrow> 'm ProblemMetricsManager \<Rightarrow> bool" where
  "gauges_agree val accepts cs pmm \<longleftrightarrow>
     (\<exists>G. gauges_show val accepts G pmm \<and>
        (\<forall>t r. G t = Some (r, True) \<longleftrightarrow>
               (\<exists>c. condition_of t cs = Some c \<and> c_Status c = CondTrue \<and> c_Reason c = r)))"

locale Gauge_contract = Int64Metric_contract Record val accepts "\<lambda>old new. new"
  for Record :: "labels \<Rightarrow> int64 \<Rightarrow> 'm \<Rightarrow> 'e option \<times> 'm"
    and val :: "'m \<Rightarrow> labels \<Rightarrow> int64"
    and accepts :: "'m \<Rightarrow> labels \<Rightarrow> bool"
begin

lemma set_gauge:
  assumes "gauges_show val accepts G pmm"
  shows "fst (SetProblemGauge Record t r v pmm) = None"
    and "gauges_show val accepts (G(t \<mapsto> (r, v))) (snd (SetProblemGauge Record t r v pmm))"
proof -
  obtain g where g: "pmm_problemGauge pmm = Some g"
    and acc: "\<And>t r. accepts g (gauge_labels t r)"
    and val: "\<And>t r. val g (gauge_labels t r) = gauge_spec G t r"
    using assms by (auto simp: gauges_show_def)
  have last: "pmm_problemTypeToReason pmm = map_option fst \<circ> G"
    using assms by (simp add: gauges_show_def)
  define g1 where "g1 = (case map_option fst (G t) of
      None \<Rightarrow> g | Some l \<Rightarrow> snd (Record (gauge_labels t l) 0 g))"
  define g2 where "g2 = snd (Record (gauge_labels t r) (if v then 1 else 0) g1)"
  have acc1: "accepts g1 (gauge_labels t' r')" for t' r'
    using acc by (simp add: g1_def record_accepts split: option.split)
  have val1: "val g1 (gauge_labels t' r') = (if t' = t then 0 else gauge_spec G t' r')" for t' r'
    using acc val by (auto simp: g1_def record_val gauge_spec_def split: option.split)
  have val2: "val g2 (gauge_labels t' r') = gauge_spec (G(t \<mapsto> (r, v))) t' r'" for t' r'
    using acc1 val1 by (auto simp: g2_def record_val gauge_spec_def)
  have call: "SetProblemGauge Record t r v pmm =
      (None, pmm\<lparr>pmm_problemGauge := Some g2,
                 pmm_problemTypeToReason := (pmm_problemTypeToReason pmm)(t \<mapsto> r)\<rparr>)"
    using g last by (cases "G t")
      (simp_all add: SetProblemGauge_def g1_def g2_def case_prod_beta record_ok record_accepts acc)
  then show "fst (SetProblemGauge Record t r v pmm) = None" by simp
  show "gauges_show val accepts (G(t \<mapsto> (r, v))) (snd (SetProblemGauge Record t r v pmm))"
    using call val2 acc1 last by (auto simp: gauges_show_def g2_def record_accepts)
qed

lemma set_all_gauges:
  assumes "gauges_show val accepts G pmm"
  shows "gauges_show val accepts (fold (\<lambda>(t, r, v) G. G(t \<mapsto> (r, v))) calls G)
           (set_gauges Record calls pmm)"
  using assms
  by (induction calls arbitrary: G pmm) (auto simp: set_gauges_def set_gauge(2))

lemma count_events_gauges:
  "gauges_show val accepts G (count_events Record' ev pmm) = gauges_show val accepts G pmm"
proof (induction ev arbitrary: pmm)
  case (Cons e ev)
  have "gauges_show val accepts G (snd (IncrementProblemCounter Record' r n pmm)) = gauges_show val accepts G pmm"
    for r n pmm
    by (simp add: IncrementProblemCounter_def gauges_show_def split: option.split prod.split)
  with Cons show ?case by (simp add: count_events_def)
qed (simp add: count_events_def)

lemma init_metrics_gauges:
  assumes "fold_res (\<lambda>rule. init_rule_metrics Record (f rule)) rules pmm = Ok pmm'"
    and "gauges_show val accepts G pmm" and "\<And>t r. G t \<noteq> Some (r, True)"
  shows "\<exists>G'. gauges_show val accepts G' pmm' \<and> (\<forall>t r. G' t \<noteq> Some (r, True))"
proof -
  let ?I = "\<lambda>pmm. \<exists>G. gauges_show val accepts G pmm \<and> (\<forall>t r. G t \<noteq> Some (r, True))"
  have counter: "gauges_show val accepts G (snd (IncrementProblemCounter Record r n pmm)) = gauges_show val accepts G pmm"
    for G r n pmm
    by (simp add: IncrementProblemCounter_def gauges_show_def split: option.split prod.split)
  have step: "?I v" if Iu: "?I u" and uv: "init_rule_metrics Record (perm, t, r) u = Ok v" for u v perm t r
  proof -
    obtain G where G: "gauges_show val accepts G u" "\<forall>t r. G t \<noteq> Some (r, True)" using Iu by blast
    let ?u = "if perm then snd (SetProblemGauge Record t r False u) else u"
    have v: "v = snd (IncrementProblemCounter Record r 0 ?u)"
      using uv set_gauge(1) [OF G(1), of t r False]
      by (cases perm) (simp_all add: init_rule_metrics_def case_prod_beta split: option.splits)
    let ?G = "if perm then G(t \<mapsto> (r, False)) else G"
    have "gauges_show val accepts ?G v"
      using G(1) set_gauge(2) [OF G(1), of t r False] counter v by simp
    moreover have "\<forall>t r. ?G t \<noteq> Some (r, True)" using G(2) by simp
    ultimately show ?thesis by blast
  qed
  have "?I pmm" using assms(2,3) by blast
  show ?thesis
    by (rule fold_res_invariant [where I = ?I,
          OF assms(1) \<open>?I pmm\<close>])
      (metis step prod_cases3)
qed

end

locale Counter_contract = Int64Metric_contract Record val accepts "(+)"
  for Record :: "labels \<Rightarrow> int64 \<Rightarrow> 'm \<Rightarrow> 'e option \<times> 'm"
    and val :: "'m \<Rightarrow> labels \<Rightarrow> int64"
    and accepts :: "'m \<Rightarrow> labels \<Rightarrow> bool"
begin

lemma increment_counter:
  assumes "counters_show val accepts C pmm"
  shows "fst (IncrementProblemCounter Record r n pmm) = None"
    and "counters_show val accepts (C(r := C r + n)) (snd (IncrementProblemCounter Record r n pmm))"
proof -
  obtain c where c: "pmm_problemCounter pmm = Some c"
    and acc: "\<And>r. accepts c (counter_labels r)"
    and val: "\<And>r. val c (counter_labels r) = C r"
    using assms by (auto simp: counters_show_def)
  have call: "IncrementProblemCounter Record r n pmm =
      (None, pmm\<lparr>pmm_problemCounter := Some (snd (Record (counter_labels r) n c))\<rparr>)"
    using c by (simp add: IncrementProblemCounter_def case_prod_beta record_ok acc)
  then show "fst (IncrementProblemCounter Record r n pmm) = None" by simp
  show "counters_show val accepts (C(r := C r + n)) (snd (IncrementProblemCounter Record r n pmm))"
    using call acc val by (auto simp: counters_show_def record_accepts record_val)
qed

lemma increment_all_counters:
  assumes "counters_show val accepts C pmm"
  shows "counters_show val accepts (\<lambda>r. C r + sum_list (map snd (filter (\<lambda>(r', n). r' = r) calls)))
           (increment_counters Record calls pmm)"
  using assms
proof (induction calls arbitrary: C pmm)
  case Nil
  then show ?case by (simp add: increment_counters_def)
next
  case (Cons x calls)
  obtain r n where x: "x = (r, n)" by (cases x)
  have "(\<lambda>q. (C(r := C r + n)) q + sum_list (map snd (filter (\<lambda>(r', n). r' = q) calls))) =
      (\<lambda>q. C q + sum_list (map snd (filter (\<lambda>(r', n). r' = q) (x # calls))))"
    by (auto simp: x add.assoc)
  with Cons.IH [OF increment_counter(2) [OF Cons.prems, of r n]] show ?case
    by (simp add: increment_counters_def x)
qed

end

interpretation pgauge: Gauge_contract FakeInt64Metric_Record fake_value "fake_accepts LastValue" ..

interpretation pcounter: Counter_contract FakeInt64Metric_Record fake_value "fake_accepts SumAgg" ..

subsection \<open>Properties of the problem metrics\<close>

text \<open>The manager over fresh in-memory metrics.\<close>

definition new_fake_metric ::
    "MetricID \<Rightarrow> string \<Rightarrow> string \<Rightarrow> string \<Rightarrow> Aggregation \<Rightarrow> string list \<Rightarrow> unit
      \<Rightarrow> (fake_error + FakeInt64Metric option) \<times> unit" where
  "new_fake_metric metricID viewName description un aggregation tagNames w =
     (Ok (NewFakeInt64Metric viewName aggregation tagNames), w)"

lemma new_manager_shows:
  assumes "NewProblemMetricsManagerOrDie new_fake_metric w = (Ok pmm, w')"
  shows "gauges_show fake_value (fake_accepts LastValue) Map.empty pmm"
    and "counters_show fake_value (fake_accepts SumAgg) (\<lambda>r. 0) pmm"
  using assms
  by (auto simp: NewProblemMetricsManagerOrDie_def new_fake_metric_def NewFakeInt64Metric_def
      ProblemCounterID_def ProblemGaugeID_def gauges_show_def counters_show_def fake_accepts_def
      fake_value_def gauge_spec_def gauge_labels_def counter_labels_def fun_eq_iff)

text \<open>
  After any sequence of \<^verbatim>\<open>SetProblemGauge\<close> on a new manager every gauge shows 1 if the last
  call for its type named its reason with value true, and 0 otherwise; so of all reasons of one
  type at most one is set to 1.
\<close>

theorem problem_gauges_last_call:
  assumes "NewProblemMetricsManagerOrDie new_fake_metric w = (Ok pmm, w')"
  shows "\<exists>g. pmm_problemGauge (set_gauges FakeInt64Metric_Record calls pmm) = Some g \<and>
           (\<forall>t r. fake_value g (gauge_labels t r) = (if gauges_of calls t = Some (r, True) then 1 else 0)) \<and>
           (\<forall>t r r'. fake_value g (gauge_labels t r) = 1 \<and> fake_value g (gauge_labels t r') = 1 \<longrightarrow> r = r')"
proof -
  have "gauges_show fake_value (fake_accepts LastValue) (gauges_of calls)
      (set_gauges FakeInt64Metric_Record calls pmm)"
    unfolding gauges_of_def by (rule pgauge.set_all_gauges [OF new_manager_shows(1) [OF assms]])
  then obtain g where "pmm_problemGauge (set_gauges FakeInt64Metric_Record calls pmm) = Some g"
    and "\<And>t r. fake_value g (gauge_labels t r) = (if gauges_of calls t = Some (r, True) then 1 else 0)"
    by (auto simp: gauges_show_def gauge_spec_def)
  then show ?thesis by (auto split: if_splits)
qed

definition sample_manager :: "FakeInt64Metric ProblemMetricsManager" where
  "sample_manager = (case NewProblemMetricsManagerOrDie new_fake_metric () of
     (Inr pmm, _) \<Rightarrow> pmm
   | (Inl _, _) \<Rightarrow> \<lparr>pmm_problemCounter = None, pmm_problemGauge = None, pmm_problemTypeToReason = Map.empty\<rparr>)"

lemma sample_manager_new: "NewProblemMetricsManagerOrDie new_fake_metric () = (Ok sample_manager, ())"
  by (simp add: sample_manager_def NewProblemMetricsManagerOrDie_def new_fake_metric_def)

theorem problem_gauges_last_call_witness:
  "\<exists>g. pmm_problemGauge (set_gauges FakeInt64Metric_Record
         [(''Deadlock'', ''A'', True), (''Deadlock'', ''B'', True)] sample_manager) = Some g \<and>
       fake_value g (gauge_labels ''Deadlock'' ''A'') = 0 \<and> fake_value g (gauge_labels ''Deadlock'' ''B'') = 1"
proof -
  let ?calls = "[(''Deadlock'', ''A'', True), (''Deadlock'', ''B'', True)]"
  have calls: "gauges_of ?calls ''Deadlock'' = Some (''B'', True)" by (simp add: gauges_of_def)
  obtain g where g: "pmm_problemGauge (set_gauges FakeInt64Metric_Record ?calls sample_manager) = Some g"
    "\<forall>t r. fake_value g (gauge_labels t r) = (if gauges_of ?calls t = Some (r, True) then 1 else 0)"
    using problem_gauges_last_call [OF sample_manager_new, of ?calls] by blast
  then have "fake_value g (gauge_labels ''Deadlock'' ''A'') = 0" "fake_value g (gauge_labels ''Deadlock'' ''B'') = 1"
    by (simp_all add: calls)
  with g(1) show ?thesis by blast
qed

text \<open>
  After any sequence of \<^verbatim>\<open>IncrementProblemCounter\<close> on a new manager the counter of a reason
  is the sum of the counts given for it, modulo \<open>2 ^ 64\<close>.
\<close>

theorem problem_counters_sum:
  assumes "NewProblemMetricsManagerOrDie new_fake_metric w = (Ok pmm, w')"
  shows "\<exists>c. pmm_problemCounter (increment_counters FakeInt64Metric_Record calls pmm) = Some c \<and>
           (\<forall>r. fake_value c (counter_labels r) = sum_list (map snd (filter (\<lambda>(r', n). r' = r) calls)))"
  using pcounter.increment_all_counters [OF new_manager_shows(2) [OF assms], of calls]
  by (auto simp: counters_show_def)

theorem problem_counters_sum_witness:
  "\<exists>c. pmm_problemCounter (increment_counters FakeInt64Metric_Record
         [(''OOM'', 0), (''OOM'', 1), (''Hung'', 1), (''OOM'', 1)] sample_manager) = Some c \<and>
       fake_value c (counter_labels ''OOM'') = 2"
proof -
  let ?calls = "[(''OOM'', 0), (''OOM'', 1), (''Hung'', 1), (''OOM'', 1)] :: (string \<times> int64) list"
  obtain c where c: "pmm_problemCounter (increment_counters FakeInt64Metric_Record ?calls sample_manager) = Some c"
    "\<forall>r. fake_value c (counter_labels r) = sum_list (map snd (filter (\<lambda>(r', n). r' = r) ?calls))"
    using problem_counters_sum [OF sample_manager_new, of ?calls] by blast
  then have "fake_value c (counter_labels ''OOM'') = 2" by simp
  with c(1) show ?thesis by blast
qed

end
