(* ===== verification/Log_Monitor.thy ===== *)
theory Log_Monitor
  imports Log_Buffer Problem_Metrics
begin

text \<open>
  The system log monitor (\<^verbatim>\<open>pkg/systemlogmonitor/config.go\<close> and \<^verbatim>\<open>log_monitor.go\<close>): its
  configuration, the processing of one line, and the main loop as a step relation over the
  channel of lines, the output channel and the tomb.

  The statuses that have been sent to the output channel are a list, oldest first. A status
  holds the conditions as they are when it is sent. The global metrics manager is passed
  along. A \<^verbatim>\<open>panic\<close> is the value \<^term>\<open>None\<close>.
\<close>

subsection \<open>Configuration\<close>

record WatcherConfig =
  wc_Plugin :: string
  wc_PluginConfig :: "string \<rightharpoonup> string"
  wc_SkipList :: "string list"
  wc_LogPath :: string
  wc_Lookback :: string
  wc_Delay :: string

record MonitorConfig =
  mc_WatcherConfig :: WatcherConfig
  mc_BufferSize :: int
  mc_Source :: string
  mc_DefaultConditions :: "Condition list"
  mc_Rules :: "Rule list"
  mc_EnableMetricsReporting :: "bool option"

definition defaultBufferSize :: int where "defaultBufferSize = 10"
definition defaultLookback :: string where "defaultLookback = ''0''"
definition defaultEnableMetricsReporting :: bool where "defaultEnableMetricsReporting = True"

definition MonitorConfig_ApplyDefaultConfiguration :: "MonitorConfig \<Rightarrow> MonitorConfig" where
  "MonitorConfig_ApplyDefaultConfiguration mc =
     (let mc = (if mc_BufferSize mc = 0 then mc\<lparr>mc_BufferSize := defaultBufferSize\<rparr> else mc);
          mc = (if mc_EnableMetricsReporting mc = None
                then mc\<lparr>mc_EnableMetricsReporting := Some defaultEnableMetricsReporting\<rparr> else mc)
      in if wc_Lookback (mc_WatcherConfig mc) = []
         then mc\<lparr>mc_WatcherConfig := (mc_WatcherConfig mc)\<lparr>wc_Lookback := defaultLookback\<rparr>\<rparr>
         else mc)"

definition MonitorConfig_compileRules ::
    "(string \<Rightarrow> Regexp option) \<Rightarrow> MonitorConfig \<Rightarrow> compile_error + Pattern list" where
  "MonitorConfig_compileRules parse mc =
     map_res (\<lambda>rule. CompilePattern parse (r_Pattern rule)) (mc_Rules mc)"

subsection \<open>The monitor\<close>

record logMonitor =
  lm_configPath :: string
  lm_buffer :: logBuffer
  lm_config :: MonitorConfig
  lm_patterns :: "Pattern list"
  lm_conditions :: "Condition list"
  lm_output :: "Status list"

datatype ('i, 'j, 'e) log_fatal =
    LogReadFailed 'i
  | LogUnmarshalFailed 'j
  | LogCompileFailed compile_error
  | NoLogWatcher string
  | LogBufferPanic
  | LogMetricsFailed "'e pmm_error"

text \<open>
  \<^verbatim>\<open>initializeProblemMetricsOrDie\<close> and \<^verbatim>\<open>NewLogMonitorOrDie\<close>. Reading the file and
  decoding its JSON are arguments, as is the table of registered log watchers.
\<close>

definition log_initializeProblemMetricsOrDie ::
    "(labels \<Rightarrow> int64 \<Rightarrow> 'm \<Rightarrow> 'e option \<times> 'm) \<Rightarrow> Rule list \<Rightarrow> 'm ProblemMetricsManager
      \<Rightarrow> 'e pmm_error + 'm ProblemMetricsManager" where
  "log_initializeProblemMetricsOrDie Record rules pmm =
     fold_res (\<lambda>rule. init_rule_metrics Record (r_Type rule = Perm, r_Condition rule, r_Reason rule)) rules pmm"

definition GetLogWatcherOrDie :: "(string \<rightharpoonup> (WatcherConfig \<Rightarrow> 'w)) \<Rightarrow> WatcherConfig \<Rightarrow> string + 'w" where
  "GetLogWatcherOrDie createFuncs config =
     (case createFuncs (wc_Plugin config) of
        None \<Rightarrow> Err (wc_Plugin config)
      | Some create \<Rightarrow> Ok (create config))"

definition NewLogMonitorOrDie ::
    "(string \<Rightarrow> 'i + string) \<Rightarrow> (string \<Rightarrow> 'j + MonitorConfig) \<Rightarrow> (string \<Rightarrow> Regexp option) \<Rightarrow>
     (string \<rightharpoonup> (WatcherConfig \<Rightarrow> 'w)) \<Rightarrow> (labels \<Rightarrow> int64 \<Rightarrow> 'm \<Rightarrow> 'e option \<times> 'm) \<Rightarrow>
     string \<Rightarrow> 'm ProblemMetricsManager \<Rightarrow>
     ('i, 'j, 'e) log_fatal + logMonitor \<times> 'w \<times> 'm ProblemMetricsManager" where
  "NewLogMonitorOrDie ReadFile Unmarshal parse createFuncs Record configPath pmm =
     (case ReadFile configPath of Inl err \<Rightarrow> Err (LogReadFailed err) | Inr f \<Rightarrow>
      case Unmarshal f of Inl err \<Rightarrow> Err (LogUnmarshalFailed err) | Inr config \<Rightarrow>
      let config = MonitorConfig_ApplyDefaultConfiguration config in
      case MonitorConfig_compileRules parse config of Inl err \<Rightarrow> Err (LogCompileFailed err) | Inr patterns \<Rightarrow>
      case GetLogWatcherOrDie createFuncs (mc_WatcherConfig config) of
        Inl plugin \<Rightarrow> Err (NoLogWatcher plugin) | Inr watcher \<Rightarrow>
      case NewLogBuffer (mc_BufferSize config) of None \<Rightarrow> Err LogBufferPanic | Some buffer \<Rightarrow>
      let l = \<lparr>lm_configPath = configPath, lm_buffer = buffer, lm_config = config,
               lm_patterns = patterns, lm_conditions = [], lm_output = []\<rparr> in
      if mc_EnableMetricsReporting config = Some True
      then (case log_initializeProblemMetricsOrDie Record (mc_Rules config) pmm of
              Inl err \<Rightarrow> Err (LogMetricsFailed err)
            | Inr pmm \<Rightarrow> Ok (l, watcher, pmm))
      else Ok (l, watcher, pmm))"

text \<open>\<^verbatim>\<open>now i\<close> is what the clock gives when the loop is at index \<open>i\<close>.\<close>

definition initialConditions :: "(nat \<Rightarrow> gotime) \<Rightarrow> Condition list \<Rightarrow> Condition list" where
  "initialConditions now defaults =
     map (\<lambda>(i, c). c\<lparr>c_Status := CondFalse, c_Transition := now i\<rparr>) (enumerate 0 defaults)"

definition logMonitor_initializeStatus :: "(nat \<Rightarrow> gotime) \<Rightarrow> logMonitor \<Rightarrow> logMonitor" where
  "logMonitor_initializeStatus now l =
     (let l = l\<lparr>lm_conditions := initialConditions now (mc_DefaultConditions (lm_config l))\<rparr>
      in l\<lparr>lm_output := lm_output l @ [\<lparr>s_Source = mc_Source (lm_config l), s_Events = [],
                                      s_Conditions = lm_conditions l\<rparr>]\<rparr>)"

definition generateMessage :: "Log list \<Rightarrow> string \<Rightarrow> string" where
  "generateMessage logs patternGeneratedMessageSuffix =
     (let logMessage = concatLogs (map log_Message logs)
      in if patternGeneratedMessageSuffix \<noteq> []
         then logMessage @ ''; '' @ patternGeneratedMessageSuffix
         else logMessage)"

text \<open>
  The loop of \<^verbatim>\<open>generateStatus\<close> over the conditions: it changes the first condition of the
  rule's type. It returns the conditions, the events and the changed conditions.
\<close>

fun change_condition ::
    "Rule \<Rightarrow> gotime \<Rightarrow> string \<Rightarrow> Condition list \<Rightarrow> Condition list \<times> Event list \<times> Condition list" where
  "change_condition rule timestamp message [] = ([], [], [])"
| "change_condition rule timestamp message (c # cs) =
     (if c_Type c = r_Condition rule then
        let change = (c_Status c = CondFalse \<or> c_Reason c \<noteq> r_Reason rule);
            c' = (if change then c\<lparr>c_Transition := timestamp, c_Message := message\<rparr> else c);
            events = (if change
                      then [GenerateConditionChangeEvent (c_Type c) CondTrue (r_Reason rule) message timestamp]
                      else []);
            c'' = c'\<lparr>c_Status := CondTrue, c_Reason := r_Reason rule\<rparr>
        in (c'' # cs, events, [c''])
      else (case change_condition rule timestamp message cs of
              (cs', events, changed) \<Rightarrow> (c # cs', events, changed)))"

definition status_parts ::
    "Rule \<Rightarrow> gotime \<Rightarrow> string \<Rightarrow> Condition list \<Rightarrow> Condition list \<times> Event list \<times> Condition list" where
  "status_parts rule timestamp message conditions =
     (if r_Type rule = Temp
      then (conditions, [\<lparr>e_Severity = Warn, e_Timestamp = timestamp, e_Reason = r_Reason rule,
                          e_Message = message\<rparr>], [])
      else change_condition rule timestamp message conditions)"

text \<open>It panics without a line, and when metrics reporting is not configured.\<close>

definition logMonitor_generateStatus ::
    "(labels \<Rightarrow> int64 \<Rightarrow> 'm \<Rightarrow> 'e option \<times> 'm) \<Rightarrow> Log list \<Rightarrow> Rule \<Rightarrow> logMonitor \<Rightarrow> 'm ProblemMetricsManager
      \<Rightarrow> (Status \<times> logMonitor \<times> 'm ProblemMetricsManager) option" where
  "logMonitor_generateStatus Record logs rule l pmm =
     (case logs of [] \<Rightarrow> None | log # _ \<Rightarrow>
      case mc_EnableMetricsReporting (lm_config l) of None \<Rightarrow> None | Some enabled \<Rightarrow>
      let timestamp = log_Timestamp log;
          message = generateMessage logs (r_PatternGeneratedMessageSuffix rule);
          (conditions, events, changedConditions) =
            status_parts rule timestamp message (lm_conditions l);
          pmm = (if enabled
                 then gauge_conditions Record changedConditions (count_events Record events pmm)
                 else pmm)
      in Some (\<lparr>s_Source = mc_Source (lm_config l), s_Events = events, s_Conditions = conditions\<rparr>,
               l\<lparr>lm_conditions := conditions\<rparr>, pmm))"

fun parseLog_loop ::
    "(labels \<Rightarrow> int64 \<Rightarrow> 'm \<Rightarrow> 'e option \<times> 'm) \<Rightarrow> nat \<Rightarrow> Rule list \<Rightarrow> logMonitor \<Rightarrow> 'm ProblemMetricsManager
      \<Rightarrow> (logMonitor \<times> 'm ProblemMetricsManager) option" where
  "parseLog_loop Record i [] l pmm = Some (l, pmm)"
| "parseLog_loop Record i (rule # rules) l pmm =
     (if i \<ge> length (lm_patterns l) then None
      else (case logBuffer_Match (lm_patterns l ! i) (lm_buffer l) of
              (matched, b) \<Rightarrow>
                let l = l\<lparr>lm_buffer := b\<rparr> in
                if matched = [] then parseLog_loop Record (Suc i) rules l pmm
                else (case logMonitor_generateStatus Record matched rule l pmm of
                        None \<Rightarrow> None
                      | Some (status, l, pmm) \<Rightarrow>
                          parseLog_loop Record (Suc i) rules (l\<lparr>lm_output := lm_output l @ [status]\<rparr>) pmm)))"

definition logMonitor_parseLog ::
    "(labels \<Rightarrow> int64 \<Rightarrow> 'm \<Rightarrow> 'e option \<times> 'm) \<Rightarrow> Log \<Rightarrow> logMonitor \<Rightarrow> 'm ProblemMetricsManager
      \<Rightarrow> (logMonitor \<times> 'm ProblemMetricsManager) option" where
  "logMonitor_parseLog Record log l pmm =
     parseLog_loop Record 0 (mc_Rules (lm_config l)) (l\<lparr>lm_buffer := logBuffer_Push log (lm_buffer l)\<rparr>) pmm"

subsection \<open>The main loop\<close>

text \<open>
  \<^verbatim>\<open>monitorLoop\<close> after \<^verbatim>\<open>initializeStatus\<close>, as a step relation. The state holds the lines in
  the channel \<^verbatim>\<open>logCh\<close> and whether it is closed, whether the tomb's two channels are closed,
  whether the output is closed and the watcher stopped, and whether the goroutine has
  returned. \<open>ll_received\<close> records the lines taken from the channel so far. The last three rules are the
  environment: the watcher sends a line or closes its channel, and \<^verbatim>\<open>Stop\<close> is called. Where
  \<^verbatim>\<open>select\<close> has several ready cases any of them may be taken. Sending to the output does not
  block: its buffer is taken to be large enough.
\<close>

record 'm logLoop =
  ll_mon :: logMonitor
  ll_pmm :: "'m ProblemMetricsManager"
  ll_logCh :: "Log list"
  ll_logClosed :: bool
  ll_stop :: bool
  ll_done :: bool
  ll_outClosed :: bool
  ll_watcherStopped :: bool
  ll_returned :: bool
  ll_received :: "Log list"

inductive log_step ::
    "(labels \<Rightarrow> int64 \<Rightarrow> 'm \<Rightarrow> 'e option \<times> 'm) \<Rightarrow> 'm logLoop \<Rightarrow> 'm logLoop \<Rightarrow> bool"
  for Record where
  log_recv: "\<not> ll_returned s \<Longrightarrow> ll_logCh s = log # rest \<Longrightarrow>
     logMonitor_parseLog Record log (ll_mon s) (ll_pmm s) = Some (l, pmm) \<Longrightarrow>
     log_step Record s (s\<lparr>ll_mon := l, ll_pmm := pmm, ll_logCh := rest, ll_received := ll_received s @ [log]\<rparr>)"
| log_closed: "\<not> ll_returned s \<Longrightarrow> ll_logCh s = [] \<Longrightarrow> ll_logClosed s \<Longrightarrow>
     log_step Record s (s\<lparr>ll_outClosed := True, ll_done := True, ll_returned := True\<rparr>)"
| log_stopping: "\<not> ll_returned s \<Longrightarrow> ll_stop s \<Longrightarrow>
     log_step Record s (s\<lparr>ll_watcherStopped := True, ll_outClosed := True, ll_done := True, ll_returned := True\<rparr>)"
| env_log: "\<not> ll_logClosed s \<Longrightarrow> log_step Record s (s\<lparr>ll_logCh := ll_logCh s @ [log]\<rparr>)"
| env_close: "\<not> ll_logClosed s \<Longrightarrow> log_step Record s (s\<lparr>ll_logClosed := True\<rparr>)"
| env_stop: "\<not> ll_stop s \<Longrightarrow> log_step Record s (s\<lparr>ll_stop := True\<rparr>)"

definition log_start :: "(nat \<Rightarrow> gotime) \<Rightarrow> logMonitor \<Rightarrow> 'm ProblemMetricsManager \<Rightarrow> 'm logLoop" where
  "log_start now l pmm =
     \<lparr>ll_mon = logMonitor_initializeStatus now l, ll_pmm = pmm, ll_logCh = [], ll_logClosed = False,
      ll_stop = False, ll_done = False, ll_outClosed = False, ll_watcherStopped = False,
      ll_returned = False, ll_received = []\<rparr>"

text \<open>
  \<^verbatim>\<open>Start\<close> runs the loop if the watcher can watch. \<^verbatim>\<open>Stop\<close> closes the first channel of the tomb, which panics when
  it is closed already, and then waits for the second.
\<close>

definition logMonitor_Start :: "'e + unit \<Rightarrow> (nat \<Rightarrow> gotime) \<Rightarrow> logMonitor \<Rightarrow> 'm ProblemMetricsManager \<Rightarrow> 'e + 'm logLoop" where
  "logMonitor_Start Watch now l pmm = (case Watch of Inl err \<Rightarrow> Err err | Inr _ \<Rightarrow> Ok (log_start now l pmm))"

definition logMonitor_Stop :: "'m logLoop \<Rightarrow> 'm logLoop option" where
  "logMonitor_Stop s = (if ll_stop s then None else Some (s\<lparr>ll_stop := True\<rparr>))"

lemma logMonitor_Stop_step: "logMonitor_Stop s = Some s' \<Longrightarrow> log_step Record s s'"
  by (auto simp: logMonitor_Stop_def intro: env_stop split: if_splits)

subsection \<open>The specification of the line processing\<close>

text \<open>
  One rule on a window of lines, all rules on a window, and a whole sequence of lines, over
  the conditions, the statuses sent and the metrics; there is no buffer here.
\<close>

definition log_rule_spec ::
    "(labels \<Rightarrow> int64 \<Rightarrow> 'm \<Rightarrow> 'e option \<times> 'm) \<Rightarrow> MonitorConfig \<Rightarrow> Log list \<Rightarrow> Rule \<times> Pattern
      \<Rightarrow> Condition list \<times> Status list \<times> 'm ProblemMetricsManager
      \<Rightarrow> Condition list \<times> Status list \<times> 'm ProblemMetricsManager" where
  "log_rule_spec Record mc ws rp st =
     (case rp of (rule, p) \<Rightarrow> case st of (conditions, out, pmm) \<Rightarrow>
      let logs = match_spec (nat (mc_BufferSize mc)) (p_regexp p) ws in
      if logs = [] then (conditions, out, pmm)
      else case status_parts rule (log_Timestamp (hd logs))
                  (generateMessage logs (r_PatternGeneratedMessageSuffix rule)) conditions of
        (conditions, events, changed) \<Rightarrow>
          (conditions,
           out @ [\<lparr>s_Source = mc_Source mc, s_Events = events, s_Conditions = conditions\<rparr>],
           if mc_EnableMetricsReporting mc = Some True
           then gauge_conditions Record changed (count_events Record events pmm) else pmm))"

definition log_line_spec ::
    "(labels \<Rightarrow> int64 \<Rightarrow> 'm \<Rightarrow> 'e option \<times> 'm) \<Rightarrow> MonitorConfig \<Rightarrow> Pattern list \<Rightarrow> Log list
      \<Rightarrow> Condition list \<times> Status list \<times> 'm ProblemMetricsManager
      \<Rightarrow> Condition list \<times> Status list \<times> 'm ProblemMetricsManager" where
  "log_line_spec Record mc patterns ws st =
     fold (log_rule_spec Record mc ws) (zip (mc_Rules mc) patterns) st"

definition log_spec ::
    "(labels \<Rightarrow> int64 \<Rightarrow> 'm \<Rightarrow> 'e option \<times> 'm) \<Rightarrow> MonitorConfig \<Rightarrow> Pattern list \<Rightarrow> Log list
      \<Rightarrow> Condition list \<times> Status list \<times> 'm ProblemMetricsManager
      \<Rightarrow> Condition list \<times> Status list \<times> 'm ProblemMetricsManager" where
  "log_spec Record mc patterns logs st =
     fold (\<lambda>k. log_line_spec Record mc patterns
                 (last_n (nat (mc_BufferSize mc)) (take (Suc k) logs))) [0..<length logs] st"

text \<open>The monitor processing a sequence of lines.\<close>

fun parse_logs ::
    "(labels \<Rightarrow> int64 \<Rightarrow> 'm \<Rightarrow> 'e option \<times> 'm) \<Rightarrow> Log list \<Rightarrow> logMonitor \<Rightarrow> 'm ProblemMetricsManager
      \<Rightarrow> (logMonitor \<times> 'm ProblemMetricsManager) option" where
  "parse_logs Record [] l pmm = Some (l, pmm)"
| "parse_logs Record (log # logs) l pmm =
     (case logMonitor_parseLog Record log l pmm of
        None \<Rightarrow> None
      | Some (l, pmm) \<Rightarrow> parse_logs Record logs l pmm)"

definition logMonitor_inv :: "logMonitor \<Rightarrow> bool" where
  "logMonitor_inv l \<longleftrightarrow>
     logBuffer_inv (lm_buffer l) \<and> lb_max (lm_buffer l) = nat (mc_BufferSize (lm_config l)) \<and>
     length (lm_patterns l) = length (mc_Rules (lm_config l)) \<and>
     list_all Pattern_sound (lm_patterns l) \<and>
     mc_EnableMetricsReporting (lm_config l) \<noteq> None"

definition logMonitor_view ::
    "logMonitor \<Rightarrow> 'm ProblemMetricsManager \<Rightarrow> Condition list \<times> Status list \<times> 'm ProblemMetricsManager" where
  "logMonitor_view l pmm = (lm_conditions l, lm_output l, pmm)"

text \<open>What processing leaves alone.\<close>

definition logMonitor_frame :: "logMonitor \<Rightarrow> logMonitor \<Rightarrow> bool" where
  "logMonitor_frame l l' \<longleftrightarrow>
     lm_config l' = lm_config l \<and> lm_patterns l' = lm_patterns l \<and> lm_configPath l' = lm_configPath l"

lemma logMonitor_generateStatus_spec:
  assumes "logs \<noteq> []" and "mc_EnableMetricsReporting (lm_config l) \<noteq> None"
    and "status_parts rule (log_Timestamp (hd logs))
           (generateMessage logs (r_PatternGeneratedMessageSuffix rule)) (lm_conditions l)
         = (conditions, events, changed)"
  shows "logMonitor_generateStatus Record logs rule l pmm =
    Some (\<lparr>s_Source = mc_Source (lm_config l), s_Events = events, s_Conditions = conditions\<rparr>,
          l\<lparr>lm_conditions := conditions\<rparr>,
          if mc_EnableMetricsReporting (lm_config l) = Some True
          then gauge_conditions Record changed (count_events Record events pmm) else pmm)"
  using assms by (auto simp: logMonitor_generateStatus_def Let_def neq_Nil_conv)

lemma parseLog_loop_spec:
  assumes "logMonitor_inv l" and "i + length rules = length (lm_patterns l)"
  shows "\<exists>l' pmm'. parseLog_loop Record i rules l pmm = Some (l', pmm') \<and>
    logMonitor_view l' pmm' =
      fold (log_rule_spec Record (lm_config l) (window (lm_buffer l)))
        (zip rules (drop i (lm_patterns l))) (logMonitor_view l pmm) \<and>
    logMonitor_frame l l' \<and> logMonitor_inv l' \<and> window (lm_buffer l') = window (lm_buffer l)"
  using assms
proof (induction rules arbitrary: i l pmm)
  case Nil
  then show ?case by (simp add: logMonitor_frame_def)
next
  case (Cons rule rules)
  let ?p = "lm_patterns l ! i" and ?b = "lm_buffer l"
  let ?l1 = "l\<lparr>lm_buffer := snd (logBuffer_Match ?p ?b)\<rparr>"
  have i: "i < length (lm_patterns l)" using Cons.prems(2) by simp
  have inv: "logBuffer_inv ?b" and p: "Pattern_sound ?p"
    and lmax: "lb_max ?b = nat (mc_BufferSize (lm_config l))"
    and en: "mc_EnableMetricsReporting (lm_config l) \<noteq> None"
    using Cons.prems(1) i by (auto simp: logMonitor_inv_def list_all_length)
  have m: "fst (logBuffer_Match ?p ?b) = match_spec (nat (mc_BufferSize (lm_config l))) (p_regexp ?p) (window ?b)"
    using lb.match_result [OF inv p] lmax by simp
  have inv1: "logMonitor_inv ?l1"
    using Cons.prems(1) inv by (simp add: logMonitor_inv_def lb.match_inv lb.match_capacity)
  have dr: "drop i (lm_patterns l) = ?p # drop (Suc i) (lm_patterns l)"
    using i by (simp add: Cons_nth_drop_Suc)
  show ?case
  proof (cases "fst (logBuffer_Match ?p ?b) = []")
    case True
    then have "parseLog_loop Record i (rule # rules) l pmm = parseLog_loop Record (Suc i) rules ?l1 pmm"
      using i by (simp add: case_prod_beta Let_def)
    moreover have "log_rule_spec Record (lm_config l) (window ?b) (rule, ?p) (logMonitor_view l pmm)
        = logMonitor_view ?l1 pmm"
      using True m by (simp add: log_rule_spec_def logMonitor_view_def)
    ultimately show ?thesis
      using Cons.IH [OF inv1, of "Suc i" pmm] Cons.prems(2) dr
      by (simp add: lb.match_lines logMonitor_frame_def)
  next
    case False
    let ?logs = "fst (logBuffer_Match ?p ?b)"
    obtain conditions events changed where parts:
      "status_parts rule (log_Timestamp (hd ?logs))
         (generateMessage ?logs (r_PatternGeneratedMessageSuffix rule)) (lm_conditions l)
       = (conditions, events, changed)" by (metis prod_cases3)
    let ?st = "\<lparr>s_Source = mc_Source (lm_config l), s_Events = events, s_Conditions = conditions\<rparr>"
    let ?pmm = "if mc_EnableMetricsReporting (lm_config l) = Some True
      then gauge_conditions Record changed (count_events Record events pmm) else pmm"
    let ?l2 = "?l1\<lparr>lm_conditions := conditions, lm_output := lm_output l @ [?st]\<rparr>"
    have "logMonitor_generateStatus Record ?logs rule ?l1 pmm =
        Some (?st, ?l1\<lparr>lm_conditions := conditions\<rparr>, ?pmm)"
      using logMonitor_generateStatus_spec [of ?logs ?l1 rule conditions events changed Record pmm]
        False en parts by simp
    then have "parseLog_loop Record i (rule # rules) l pmm = parseLog_loop Record (Suc i) rules ?l2 ?pmm"
      using i False by (simp add: case_prod_beta Let_def)
    moreover have "log_rule_spec Record (lm_config l) (window ?b) (rule, ?p) (logMonitor_view l pmm)
        = logMonitor_view ?l2 ?pmm"
      using False parts m by (simp add: log_rule_spec_def logMonitor_view_def)
    moreover have "logMonitor_inv ?l2" using inv1 by (simp add: logMonitor_inv_def)
    ultimately show ?thesis
      using Cons.IH [of ?l2 "Suc i" ?pmm] Cons.prems(2) dr
      by (simp add: lb.match_lines logMonitor_frame_def)
  qed
qed

lemma logMonitor_parseLog_spec:
  assumes "logMonitor_inv l"
  shows "\<exists>l' pmm'. logMonitor_parseLog Record log l pmm = Some (l', pmm') \<and>
    logMonitor_view l' pmm' =
      log_line_spec Record (lm_config l) (lm_patterns l)
        (last_n (nat (mc_BufferSize (lm_config l))) (window (lm_buffer l) @ [log])) (logMonitor_view l pmm) \<and>
    logMonitor_frame l l' \<and> logMonitor_inv l' \<and>
    window (lm_buffer l') = last_n (nat (mc_BufferSize (lm_config l))) (window (lm_buffer l) @ [log])"
proof -
  let ?l = "l\<lparr>lm_buffer := logBuffer_Push log (lm_buffer l)\<rparr>"
  have inv: "logMonitor_inv ?l"
    using assms by (simp add: logMonitor_inv_def lb.push_inv)
  have w: "window (lm_buffer ?l) = last_n (nat (mc_BufferSize (lm_config l))) (window (lm_buffer l) @ [log])"
    using assms by (simp add: logMonitor_inv_def lb.push_lines)
  have "0 + length (mc_Rules (lm_config l)) = length (lm_patterns ?l)"
    using assms by (simp add: logMonitor_inv_def)
  from parseLog_loop_spec [OF inv this, of Record pmm] w show ?thesis
    by (simp add: logMonitor_parseLog_def log_line_spec_def logMonitor_frame_def)
      (simp add: logMonitor_view_def)
qed

lemma parse_logs_append:
  "parse_logs Record (xs @ ys) l pmm =
     (case parse_logs Record xs l pmm of None \<Rightarrow> None | Some (l, pmm) \<Rightarrow> parse_logs Record ys l pmm)"
  by (induction xs arbitrary: l pmm) (auto split: option.split)

lemma log_spec_snoc:
  "log_spec Record mc ps (logs @ [log]) st =
     log_line_spec Record mc ps (last_n (nat (mc_BufferSize mc)) (logs @ [log])) (log_spec Record mc ps logs st)"
proof -
  have "fold (\<lambda>k. log_line_spec Record mc ps (last_n (nat (mc_BufferSize mc)) (take (Suc k) (logs @ [log]))))
      [0..<length logs] st = log_spec Record mc ps logs st"
    unfolding log_spec_def by (rule fold_cong) auto
  then show ?thesis by (simp add: log_spec_def [of _ _ _ "logs @ [log]"])
qed

lemma parse_logs_spec:
  assumes "logMonitor_inv l" and "window (lm_buffer l) = []"
  shows "\<exists>l' pmm'. parse_logs Record logs l pmm = Some (l', pmm') \<and>
    logMonitor_view l' pmm' =
      log_spec Record (lm_config l) (lm_patterns l) logs (logMonitor_view l pmm) \<and>
    logMonitor_frame l l' \<and> logMonitor_inv l' \<and>
    window (lm_buffer l') = last_n (nat (mc_BufferSize (lm_config l))) logs"
proof (induction logs rule: rev_induct)
  case Nil
  then show ?case using assms by (simp add: log_spec_def logMonitor_frame_def)
next
  case (snoc log logs)
  then obtain l1 pmm1 where 1: "parse_logs Record logs l pmm = Some (l1, pmm1)"
    "logMonitor_view l1 pmm1 = log_spec Record (lm_config l) (lm_patterns l) logs (logMonitor_view l pmm)"
    "logMonitor_frame l l1" "logMonitor_inv l1"
    "window (lm_buffer l1) = last_n (nat (mc_BufferSize (lm_config l))) logs" by blast
  then have fr: "lm_config l1 = lm_config l" "lm_patterns l1 = lm_patterns l"
    by (simp_all add: logMonitor_frame_def)
  from logMonitor_parseLog_spec [OF 1(4), of Record log pmm1] obtain l2 pmm2 where
    2: "logMonitor_parseLog Record log l1 pmm1 = Some (l2, pmm2)"
    "logMonitor_view l2 pmm2 = log_line_spec Record (lm_config l) (lm_patterns l)
       (last_n (nat (mc_BufferSize (lm_config l))) (logs @ [log])) (logMonitor_view l1 pmm1)"
    "logMonitor_frame l1 l2" "logMonitor_inv l2"
    "window (lm_buffer l2) = last_n (nat (mc_BufferSize (lm_config l))) (logs @ [log])"
    using fr 1(5) by (auto simp: last_n_snoc_last_n)
  then show ?case
    using 1 by (auto simp: parse_logs_append log_spec_snoc logMonitor_frame_def)
qed

lemma ApplyDefaultConfiguration_fields:
  "mc_BufferSize (MonitorConfig_ApplyDefaultConfiguration mc) \<noteq> 0"
  "mc_EnableMetricsReporting (MonitorConfig_ApplyDefaultConfiguration mc) \<noteq> None"
  "wc_Lookback (mc_WatcherConfig (MonitorConfig_ApplyDefaultConfiguration mc)) \<noteq> []"
  by (simp_all add: MonitorConfig_ApplyDefaultConfiguration_def defaultBufferSize_def
      defaultLookback_def Let_def)

lemma NewLogMonitorOrDie_parts:
  assumes "NewLogMonitorOrDie ReadFile Unmarshal parse createFuncs Record path pmm = Ok (l, watcher, pmm')"
  obtains config where "lm_config l = MonitorConfig_ApplyDefaultConfiguration config"
    and "MonitorConfig_compileRules parse (lm_config l) = Ok (lm_patterns l)"
    and "NewLogBuffer (mc_BufferSize (lm_config l)) = Some (lm_buffer l)"
    and "lm_output l = []"
    and "if mc_EnableMetricsReporting (lm_config l) = Some True
         then log_initializeProblemMetricsOrDie Record (mc_Rules (lm_config l)) pmm = Ok pmm'
         else pmm' = pmm"
proof -
  obtain f where f: "ReadFile path = Ok f"
    using assms by (cases "ReadFile path") (simp_all add: NewLogMonitorOrDie_def)
  obtain config where c: "Unmarshal f = Ok config"
    using assms f by (cases "Unmarshal f") (simp_all add: NewLogMonitorOrDie_def)
  let ?config = "MonitorConfig_ApplyDefaultConfiguration config"
  obtain patterns where p: "MonitorConfig_compileRules parse ?config = Ok patterns"
    using assms f c by (cases "MonitorConfig_compileRules parse ?config")
      (simp_all add: NewLogMonitorOrDie_def)
  obtain w where w: "GetLogWatcherOrDie createFuncs (mc_WatcherConfig ?config) = Ok w"
    using assms f c p by (cases "GetLogWatcherOrDie createFuncs (mc_WatcherConfig ?config)")
      (simp_all add: NewLogMonitorOrDie_def)
  obtain buffer where b: "NewLogBuffer (mc_BufferSize ?config) = Some buffer"
    using assms f c p w by (cases "NewLogBuffer (mc_BufferSize ?config)")
      (simp_all add: NewLogMonitorOrDie_def)
  have "l = \<lparr>lm_configPath = path, lm_buffer = buffer, lm_config = ?config,
      lm_patterns = patterns, lm_conditions = [], lm_output = []\<rparr> \<and>
      (if mc_EnableMetricsReporting ?config = Some True
       then log_initializeProblemMetricsOrDie Record (mc_Rules ?config) pmm = Ok pmm' else pmm' = pmm)"
    using assms f c p w b
    by (cases "log_initializeProblemMetricsOrDie Record (mc_Rules ?config) pmm")
      (simp_all add: NewLogMonitorOrDie_def Let_def split: if_split_asm)
  then show ?thesis using p b by (intro that [of config]) simp_all
qed

lemma NewLogMonitorOrDie_inv:
  assumes "NewLogMonitorOrDie ReadFile Unmarshal parse createFuncs Record path pmm = Ok (l, watcher, pmm')"
    and "parser_groups parse"
  shows "logMonitor_inv l" and "window (lm_buffer l) = []" and "lm_output l = []"
proof -
  obtain config where cfg: "lm_config l = MonitorConfig_ApplyDefaultConfiguration config"
    and comp: "MonitorConfig_compileRules parse (lm_config l) = Ok (lm_patterns l)"
    and buf: "NewLogBuffer (mc_BufferSize (lm_config l)) = Some (lm_buffer l)"
    and out: "lm_output l = []"
    using NewLogMonitorOrDie_parts [OF assms(1)] by blast
  have size: "mc_BufferSize (lm_config l) \<noteq> 0" and en: "mc_EnableMetricsReporting (lm_config l) \<noteq> None"
    using cfg ApplyDefaultConfiguration_fields [of config] by simp_all
  note nb = NewLogBuffer_inv [OF buf size]
  have all2: "list_all2 (\<lambda>rule p. CompilePattern parse (r_Pattern rule) = Ok p)
      (mc_Rules (lm_config l)) (lm_patterns l)"
    using comp by (simp add: MonitorConfig_compileRules_def map_res_Inr_iff)
  then have "length (lm_patterns l) = length (mc_Rules (lm_config l))"
    by (simp add: list_all2_lengthD)
  moreover have "Pattern_sound (lm_patterns l ! i)" if "i < length (lm_patterns l)" for i
    using CompilePattern_sound [OF assms(2) list_all2_nthD2 [OF all2 that]] .
  then have "list_all Pattern_sound (lm_patterns l)" by (simp add: list_all_length)
  ultimately show "logMonitor_inv l" and "window (lm_buffer l) = []" and "lm_output l = []"
    using nb size en out by (simp_all add: logMonitor_inv_def)
qed

lemma logMonitor_inv_initializeStatus [npd_inv]:
  "logMonitor_inv (logMonitor_initializeStatus now l) = logMonitor_inv l"
  "window (lm_buffer (logMonitor_initializeStatus now l)) = window (lm_buffer l)"
  "lm_config (logMonitor_initializeStatus now l) = lm_config l"
  "lm_patterns (logMonitor_initializeStatus now l) = lm_patterns l"
  by (simp_all add: logMonitor_initializeStatus_def logMonitor_inv_def Let_def)

subsection \<open>Invariants of the specification\<close>

text \<open>
  An invariant of the conditions and the metrics that every status keeps holds after any
  sequence of lines, and the conditions of every status sent have it.
\<close>

lemma log_spec_invariant:
  assumes step: "\<And>rule ts m cs pmm cs' ev ch. rule \<in> set (mc_Rules mc) \<Longrightarrow> I cs pmm \<Longrightarrow>
      status_parts rule ts m cs = (cs', ev, ch) \<Longrightarrow>
      I cs' (if mc_EnableMetricsReporting mc = Some True
             then gauge_conditions Record ch (count_events Record ev pmm) else pmm)"
    and init: "I cs pmm" "\<And>s. s \<in> set out \<Longrightarrow> J (s_Conditions s)"
    and IJ: "\<And>cs pmm. I cs pmm \<Longrightarrow> J cs"
    and result: "log_spec Record mc ps logs (cs, out, pmm) = (cs', out', pmm')"
  shows "I cs' pmm' \<and> (\<forall>s \<in> set out'. J (s_Conditions s))"
proof -
  define K where "K st \<longleftrightarrow> I (fst st) (snd (snd st)) \<and> (\<forall>s \<in> set (fst (snd st)). J (s_Conditions s))"
    for st :: "Condition list \<times> Status list \<times> 'a ProblemMetricsManager"
  have rule: "K (log_rule_spec Record mc ws (rule, p) st)"
    if r: "rule \<in> set (mc_Rules mc)" and K: "K st" for ws rule p st
  proof -
    obtain cs out pmm where st: "st = (cs, out, pmm)" by (metis prod_cases3)
    let ?logs = "match_spec (nat (mc_BufferSize mc)) (p_regexp p) ws"
    obtain cs' ev ch where parts: "status_parts rule (log_Timestamp (hd ?logs))
        (generateMessage ?logs (r_PatternGeneratedMessageSuffix rule)) cs = (cs', ev, ch)"
      by (metis prod_cases3)
    have "I cs pmm" using K st by (simp add: K_def)
    note step [OF r this parts]
    moreover from this have "J cs'" by (rule IJ)
    ultimately show ?thesis
      using K st parts by (simp add: log_rule_spec_def Let_def K_def)
  qed
  have rules: "K (fold (log_rule_spec Record mc ws) rps st)"
    if "set rps \<subseteq> set (zip (mc_Rules mc) ps)" "K st" for ws rps st
    using that
  proof (induction rps arbitrary: st)
    case (Cons rp rps)
    obtain r p where rp: "rp = (r, p)" by (cases rp)
    have "r \<in> set (mc_Rules mc)" using Cons.prems(1) rp by (auto dest: set_zip_leftD)
    from rule [OF this Cons.prems(2)] have "K (log_rule_spec Record mc ws rp st)" by (simp only: rp)
    with Cons.prems(1) show ?case by (simp only: fold_Cons comp_apply) (rule Cons.IH, simp_all)
  qed simp
  have "K (log_spec Record mc ps logs (cs, out, pmm))"
  proof (induction logs rule: rev_induct)
    case Nil
    then show ?case using init by (simp add: log_spec_def K_def)
  next
    case (snoc log logs)
    then show ?case unfolding log_spec_snoc log_line_spec_def by (intro rules) simp_all
  qed
  with result show ?thesis by (simp add: K_def)
qed

subsection \<open>Conditions\<close>

text \<open>
  A condition is as the configuration gives it while its problem has not been seen; afterwards
  it is true, for the reason of a rule for it.
\<close>

definition condition_ok :: "Rule list \<Rightarrow> Condition \<Rightarrow> Condition \<Rightarrow> bool" where
  "condition_ok rules d c \<longleftrightarrow>
     c_Type c = c_Type d \<and>
     (c_Status c = CondFalse \<and> c_Reason c = c_Reason d \<and> c_Message c = c_Message d \<or>
      c_Status c = CondTrue \<and>
        (\<exists>rule \<in> set rules. r_Type rule \<noteq> Temp \<and> r_Condition rule = c_Type c \<and> r_Reason rule = c_Reason c))"

lemma change_condition_ok:
  assumes "list_all2 (condition_ok rules) ds cs" and "rule \<in> set rules" and "r_Type rule \<noteq> Temp"
    and "change_condition rule ts m cs = (cs', ev, ch)"
  shows "list_all2 (condition_ok rules) ds cs'"
  using assms(1,4)
proof (induction ds cs arbitrary: cs' ev ch rule: list_all2_induct)
  case Nil
  then show ?case by simp
next
  case (Cons d ds c cs)
  show ?case
  proof (cases "c_Type c = r_Condition rule")
    case True
    with Cons.prems assms(2,3) Cons.hyps show ?thesis
      by (auto simp: condition_ok_def [of rules d] Let_def)
  next
    case False
    with Cons.prems obtain cs1 where "cs' = c # cs1" "change_condition rule ts m cs = (cs1, ev, ch)"
      by (auto split: prod.splits)
    with Cons.IH Cons.hyps show ?thesis by simp
  qed
qed

lemma status_parts_ok:
  assumes "list_all2 (condition_ok rules) ds cs" and "rule \<in> set rules"
    and "status_parts rule ts m cs = (cs', ev, ch)"
  shows "list_all2 (condition_ok rules) ds cs'"
  using assms change_condition_ok [OF assms(1,2)] by (auto simp: status_parts_def split: if_splits)

lemma initialConditions_nth:
  "i < length ds \<Longrightarrow> initialConditions now ds ! i = (ds ! i)\<lparr>c_Status := CondFalse, c_Transition := now i\<rparr>"
  by (simp add: initialConditions_def nth_enumerate_eq)

lemma length_initialConditions [simp]: "length (initialConditions now ds) = length ds"
  by (simp add: initialConditions_def)

lemma initialConditions_ok: "list_all2 (condition_ok rules) ds (initialConditions now ds)"
  by (simp add: list_all2_conv_all_nth initialConditions_nth condition_ok_def)

text \<open>What a permanent rule does to the conditions, said without the loop.\<close>

lemma change_condition_cases:
  assumes "change_condition rule ts m cs = (cs', ev, ch)"
  obtains (absent) "condition_of (r_Condition rule) cs = None" "cs' = cs" "ev = []" "ch = []"
  | (present) c c' where "condition_of (r_Condition rule) cs = Some c"
      "\<And>t. condition_of t cs' = (if t = r_Condition rule then Some c' else condition_of t cs)"
      "c_Type c' = r_Condition rule" "ch = [c']"
      "c' = (if c_Status c = CondFalse \<or> c_Reason c \<noteq> r_Reason rule
             then c\<lparr>c_Transition := ts, c_Message := m\<rparr> else c)\<lparr>c_Status := CondTrue, c_Reason := r_Reason rule\<rparr>"
      "ev = (if c_Status c = CondFalse \<or> c_Reason c \<noteq> r_Reason rule
             then [GenerateConditionChangeEvent (r_Condition rule) CondTrue (r_Reason rule) m ts] else [])"
proof -
  have "condition_of (r_Condition rule) cs = None \<and> cs' = cs \<and> ev = [] \<and> ch = [] \<or>
    (\<exists>c c'. condition_of (r_Condition rule) cs = Some c \<and>
      (\<forall>t. condition_of t cs' = (if t = r_Condition rule then Some c' else condition_of t cs)) \<and>
      c_Type c' = r_Condition rule \<and> ch = [c'] \<and>
      c' = (if c_Status c = CondFalse \<or> c_Reason c \<noteq> r_Reason rule
            then c\<lparr>c_Transition := ts, c_Message := m\<rparr> else c)\<lparr>c_Status := CondTrue, c_Reason := r_Reason rule\<rparr> \<and>
      ev = (if c_Status c = CondFalse \<or> c_Reason c \<noteq> r_Reason rule
            then [GenerateConditionChangeEvent (r_Condition rule) CondTrue (r_Reason rule) m ts] else []))"
    using assms
  proof (induction cs arbitrary: cs' ev ch)
    case Nil
    then show ?case by (simp add: condition_of_def)
  next
    case (Cons c cs)
    show ?case
    proof (cases "c_Type c = r_Condition rule")
      case True
      with Cons.prems show ?thesis by (auto simp: condition_of_def Let_def)
    next
      case False
      with Cons.prems obtain cs1 where 1: "cs' = c # cs1" "change_condition rule ts m cs = (cs1, ev, ch)"
        by (auto split: prod.splits)
      have "condition_of t (c # xs) = (if c_Type c = t then Some c else condition_of t xs)" for t xs
        by (simp add: condition_of_def)
      with Cons.IH [OF 1(2)] 1(1) False show ?thesis by auto
    qed
  qed
  then show ?thesis using that by blast
qed

subsection \<open>Metrics\<close>

context Gauge_contract
begin

lemma status_parts_agree:
  assumes "gauges_agree val accepts cs pmm" and "status_parts rule ts m cs = (cs', ev, ch)"
  shows "gauges_agree val accepts cs' (gauge_conditions Record ch (count_events Record' ev pmm))"
proof -
  obtain G where G: "gauges_show val accepts G (count_events Record' ev pmm)"
    and agree: "\<And>t r. G t = Some (r, True) \<longleftrightarrow>
        (\<exists>c. condition_of t cs = Some c \<and> c_Status c = CondTrue \<and> c_Reason c = r)"
    using assms(1) by (auto simp: gauges_agree_def count_events_gauges)
  show ?thesis
  proof (cases "r_Type rule = Temp")
    case True
    with assms(2) have "cs' = cs" "ch = []" by (auto simp: status_parts_def)
    with G agree show ?thesis by (auto simp: gauges_agree_def gauge_conditions_def)
  next
    case False
    with assms(2) have "change_condition rule ts m cs = (cs', ev, ch)" by (simp add: status_parts_def)
    then show ?thesis
    proof (cases rule: change_condition_cases)
      case absent
      with G agree show ?thesis by (auto simp: gauges_agree_def gauge_conditions_def)
    next
      case (present c c')
      have c': "c_Status c' = CondTrue" "c_Reason c' = r_Reason rule" using present by simp_all
      let ?G = "G(r_Condition rule \<mapsto> (r_Reason rule, True))"
      have "gauges_show val accepts ?G (gauge_conditions Record ch (count_events Record' ev pmm))"
        using set_gauge(2) [OF G, of "r_Condition rule" "r_Reason rule" True] present(3,4) c'
        by (simp add: gauge_conditions_def)
      moreover have "?G t = Some (r, True) \<longleftrightarrow>
          (\<exists>c. condition_of t cs' = Some c \<and> c_Status c = CondTrue \<and> c_Reason c = r)" for t r
        using present(2) c' agree by auto
      ultimately show ?thesis by (auto simp: gauges_agree_def)
    qed
  qed
qed

end

subsection \<open>The loop\<close>

text \<open>What every reachable state of the loop satisfies, from a monitor \<open>l\<close> and its metrics \<open>pmm\<close>.\<close>

definition log_loop_inv ::
    "(labels \<Rightarrow> int64 \<Rightarrow> 'm \<Rightarrow> 'e option \<times> 'm) \<Rightarrow> logMonitor \<Rightarrow> 'm ProblemMetricsManager \<Rightarrow> 'm logLoop \<Rightarrow> bool" where
  "log_loop_inv Record l pmm s \<longleftrightarrow>
     parse_logs Record (ll_received s) l pmm = Some (ll_mon s, ll_pmm s) \<and>
     ll_outClosed s = ll_returned s \<and> ll_done s = ll_returned s \<and>
     (ll_watcherStopped s \<longrightarrow> ll_stop s \<and> ll_returned s) \<and>
     (ll_returned s \<longrightarrow> ll_stop s \<or> ll_logClosed s)"

lemma log_step_inv:
  assumes "log_step Record s s'" and "log_loop_inv Record l pmm s"
  shows "log_loop_inv Record l pmm s'"
  using assms
  by (cases rule: log_step.cases) (auto simp: log_loop_inv_def parse_logs_append)

lemma log_steps_inv:
  assumes "(log_step Record)\<^sup>*\<^sup>* (log_start now l pmm) s"
  shows "log_loop_inv Record (logMonitor_initializeStatus now l) pmm s"
  using assms
proof (induction rule: rtranclp_induct)
  case base
  show ?case by (simp add: log_loop_inv_def log_start_def)
next
  case (step s s')
  from log_step_inv [OF step.hyps(2) step.IH] show ?case .
qed

subsection \<open>Properties of the log monitor\<close>

text \<open>A monitor of two rules over the sample pattern.\<close>

definition sample_default :: Condition where
  "sample_default = \<lparr>c_Type = ''Deadlock'', c_Status = [], c_Transition = 0, c_Reason = ''NoDeadlock'',
                     c_Message = ''fine''\<rparr>"

definition sample_rule :: "ProblemType \<Rightarrow> Rule" where
  "sample_rule type = \<lparr>r_Type = type, r_Condition = ''Deadlock'', r_Reason = ''Hung'', r_Pattern = ''b+'',
                       r_PatternGeneratedMessageSuffix = []\<rparr>"

definition sample_config :: MonitorConfig where
  "sample_config =
     \<lparr>mc_WatcherConfig = \<lparr>wc_Plugin = ''kmsg'', wc_PluginConfig = Map.empty, wc_SkipList = [], wc_LogPath = [],
                          wc_Lookback = [], wc_Delay = []\<rparr>,
      mc_BufferSize = 0, mc_Source = ''monitor'', mc_DefaultConditions = [sample_default],
      mc_Rules = [sample_rule Perm, sample_rule Temp], mc_EnableMetricsReporting = None\<rparr>"

definition sample_new ::
    "(unit, unit, fake_error) log_fatal + logMonitor \<times> unit \<times> FakeInt64Metric ProblemMetricsManager" where
  "sample_new = NewLogMonitorOrDie (\<lambda>_. Ok []) (\<lambda>_. Ok sample_config) sample_parse [''kmsg'' \<mapsto> (\<lambda>_. ())]
     FakeInt64Metric_Record ''kernel.json'' sample_manager"

definition sample_monitor :: logMonitor where
  "sample_monitor = (case sample_new of Inr (l, _, _) \<Rightarrow> l)"

definition sample_pmm :: "FakeInt64Metric ProblemMetricsManager" where
  "sample_pmm = (case sample_new of Inr (_, _, pmm) \<Rightarrow> pmm)"

lemma sample_new_ok:
  "NewLogMonitorOrDie (\<lambda>_. Ok [] :: unit + string) (\<lambda>_. Ok sample_config :: unit + MonitorConfig)
     sample_parse [''kmsg'' \<mapsto> (\<lambda>_. ())] FakeInt64Metric_Record ''kernel.json'' sample_manager
   = Ok (sample_monitor, (), sample_pmm)"
proof -
  have "\<not> isl sample_new" by code_simp
  then obtain l pmm where eq: "sample_new = Ok (l, (), pmm)" by (cases sample_new) (auto simp: isl_def)
  have "sample_monitor = l" "sample_pmm = pmm" unfolding sample_monitor_def sample_pmm_def eq by simp_all
  with eq show ?thesis unfolding sample_new_def by simp
qed

text \<open>A state of the sample's loop after one line.\<close>

definition sample_line :: Log where
  "sample_line = sample_log 7 ''xb''"

lemma sample_reach:
  obtains l pmm where
    "logMonitor_parseLog FakeInt64Metric_Record sample_line
       (logMonitor_initializeStatus (\<lambda>_. 5) sample_monitor) sample_pmm = Some (l, pmm)"
    and "(log_step FakeInt64Metric_Record)\<^sup>*\<^sup>* (log_start (\<lambda>_. 5) sample_monitor sample_pmm)
       ((log_start (\<lambda>_. 5) sample_monitor sample_pmm)\<lparr>ll_mon := l, ll_pmm := pmm, ll_received := [sample_line]\<rparr>)"
    and "map s_Events (lm_output l) \<noteq> [] \<and> length (lm_output l) = 3"
proof -
  let ?s = "log_start (\<lambda>_. 5) sample_monitor sample_pmm"
  let ?r = "logMonitor_parseLog FakeInt64Metric_Record sample_line
      (logMonitor_initializeStatus (\<lambda>_. 5) sample_monitor) sample_pmm"
  have "case ?r of None \<Rightarrow> False | Some (l, _) \<Rightarrow> map s_Events (lm_output l) \<noteq> [] \<and> length (lm_output l) = 3"
    by code_simp
  then obtain l pmm where r: "?r = Some (l, pmm)" "map s_Events (lm_output l) \<noteq> [] \<and> length (lm_output l) = 3"
    by (auto split: option.splits)
  let ?s1 = "?s\<lparr>ll_logCh := ll_logCh ?s @ [sample_line]\<rparr>"
  have "log_step FakeInt64Metric_Record ?s ?s1"
    by (rule env_log) (simp add: log_start_def)
  moreover have "log_step FakeInt64Metric_Record ?s1
      (?s1\<lparr>ll_mon := l, ll_pmm := pmm, ll_logCh := [], ll_received := ll_received ?s1 @ [sample_line]\<rparr>)"
    by (rule log_recv) (use r in \<open>simp_all add: log_start_def\<close>)
  ultimately have "(log_step FakeInt64Metric_Record)\<^sup>*\<^sup>* ?s
      (?s1\<lparr>ll_mon := l, ll_pmm := pmm, ll_logCh := [], ll_received := ll_received ?s1 @ [sample_line]\<rparr>)"
    by (meson converse_rtranclp_into_rtranclp r_into_rtranclp)
  then have "(log_step FakeInt64Metric_Record)\<^sup>*\<^sup>* ?s
      (?s\<lparr>ll_mon := l, ll_pmm := pmm, ll_received := [sample_line]\<rparr>)"
    by (simp add: log_start_def)
  with r show ?thesis by (intro that) simp_all
qed





text \<open>
  C22: every status the monitor has sent carries the configured source and one condition for
  each default condition, in order and of the same type: either false, with the default reason
  and message, or true for the reason of a permanent rule for this condition.
\<close>

theorem log_statuses_well_formed:
  assumes "NewLogMonitorOrDie ReadFile Unmarshal parse createFuncs Record path pmm0 = Ok (l, watcher, pmm)"
    and "parser_groups parse"
    and "(log_step Record)\<^sup>*\<^sup>* (log_start now l pmm) s"
    and "st \<in> set (lm_output (ll_mon s))"
  shows "list_all2 (condition_ok (mc_Rules (lm_config l))) (mc_DefaultConditions (lm_config l)) (s_Conditions st)"
proof -
  let ?l = "logMonitor_initializeStatus now l" and ?mc = "lm_config l"
  let ?I = "list_all2 (condition_ok (mc_Rules ?mc)) (mc_DefaultConditions ?mc)"
  have inv: "logMonitor_inv ?l" "window (lm_buffer ?l) = []" "lm_output l = []"
    using NewLogMonitorOrDie_inv [OF assms(1,2)] by (simp_all add: npd_inv)
  have "parse_logs Record (ll_received s) ?l pmm = Some (ll_mon s, ll_pmm s)"
    using log_steps_inv [OF assms(3)] by (simp add: log_loop_inv_def)
  with parse_logs_spec [OF inv(1,2), of Record "ll_received s" pmm]
  have spec: "log_spec Record ?mc (lm_patterns l) (ll_received s) (lm_conditions ?l, lm_output ?l, pmm) =
      (lm_conditions (ll_mon s), lm_output (ll_mon s), ll_pmm s)"
    by (simp add: logMonitor_view_def npd_inv)
  have init: "?I (lm_conditions ?l)" "\<And>s. s \<in> set (lm_output ?l) \<Longrightarrow> ?I (s_Conditions s)"
    using inv(3) by (simp_all add: logMonitor_initializeStatus_def Let_def initialConditions_ok)
  from log_spec_invariant [where I = "\<lambda>cs pmm. ?I cs" and J = ?I, OF _ init _ spec] assms(4)
  show ?thesis using status_parts_ok by blast
qed

theorem log_statuses_well_formed_witness:
  "\<exists>st :: Status. list_all2 (condition_ok [sample_rule Perm, sample_rule Temp]) [sample_default] (s_Conditions st)"
proof (rule sample_reach)
  fix l pmm
  let ?s = "(log_start (\<lambda>_. 5) sample_monitor sample_pmm)\<lparr>ll_mon := l, ll_pmm := pmm, ll_received := [sample_line]\<rparr>"
  assume reach: "(log_step FakeInt64Metric_Record)\<^sup>*\<^sup>* (log_start (\<lambda>_. 5) sample_monitor sample_pmm) ?s"
    and out: "map s_Events (lm_output l) \<noteq> [] \<and> length (lm_output l) = 3"
  have cfg: "mc_Rules (lm_config sample_monitor) = [sample_rule Perm, sample_rule Temp]"
    "mc_DefaultConditions (lm_config sample_monitor) = [sample_default]" by code_simp+
  from out have "last (lm_output l) \<in> set (lm_output (ll_mon ?s))" by (auto intro!: last_in_set)
  from log_statuses_well_formed [OF sample_new_ok sample_parse_groups reach this] show ?thesis
    unfolding cfg by (rule exI)
qed



text \<open>
  C25: the status for a match of a permanent rule. The first condition of the rule's type
  becomes true for the rule's reason; if it was false or true for another reason, its transition
  time and message become those of the match, and exactly one event tells the change; otherwise
  both stay and there is no event. Every other condition stays, and the status carries the
  resulting conditions.
\<close>

theorem log_permanent_status:
  assumes "logMonitor_generateStatus Record (log # logs) rule l pmm = Some (st, l', pmm')"
    and "r_Type rule \<noteq> Temp" and "condition_of (r_Condition rule) (lm_conditions l) = Some c"
    and "message = generateMessage (log # logs) (r_PatternGeneratedMessageSuffix rule)"
    and "changed \<longleftrightarrow> c_Status c = CondFalse \<or> c_Reason c \<noteq> r_Reason rule"
  shows "s_Conditions st = lm_conditions l' \<and>
    s_Events st = (if changed then [GenerateConditionChangeEvent (r_Condition rule) CondTrue
                                      (r_Reason rule) message (log_Timestamp log)] else []) \<and>
    condition_of (r_Condition rule) (lm_conditions l') =
      Some \<lparr>c_Type = r_Condition rule, c_Status = CondTrue,
            c_Transition = (if changed then log_Timestamp log else c_Transition c),
            c_Reason = r_Reason rule, c_Message = (if changed then message else c_Message c)\<rparr> \<and>
    (\<forall>t. t \<noteq> r_Condition rule \<longrightarrow> condition_of t (lm_conditions l') = condition_of t (lm_conditions l))"
proof -
  obtain cs ev ch where parts: "status_parts rule (log_Timestamp log) message (lm_conditions l) = (cs, ev, ch)"
    by (metis prod_cases3)
  have en: "mc_EnableMetricsReporting (lm_config l) \<noteq> None"
    using assms(1) by (cases "mc_EnableMetricsReporting (lm_config l)")
      (simp_all add: logMonitor_generateStatus_def)
  have st: "s_Conditions st = cs" "s_Events st = ev" "lm_conditions l' = cs"
    using logMonitor_generateStatus_spec [of "log # logs" l rule cs ev ch Record pmm] assms(1,4) en parts
    by auto
  have "change_condition rule (log_Timestamp log) message (lm_conditions l) = (cs, ev, ch)"
    using parts assms(2) by (simp add: status_parts_def)
  then show ?thesis
  proof (cases rule: change_condition_cases)
    case absent
    with assms(3) show ?thesis by simp
  next
    case (present c1 c')
    with assms(3) have c1: "c1 = c" by simp
    have "c' = \<lparr>c_Type = r_Condition rule, c_Status = CondTrue,
            c_Transition = (if changed then log_Timestamp log else c_Transition c),
            c_Reason = r_Reason rule, c_Message = (if changed then message else c_Message c)\<rparr>"
      using present(3,5) assms(5) c1 by simp
    with present(2,6) st assms(5) c1 show ?thesis by simp
  qed
qed

theorem log_permanent_status_witness:
  "\<exists>st :: Status. condition_of ''Deadlock'' (s_Conditions st) =
     Some \<lparr>c_Type = ''Deadlock'', c_Status = CondTrue, c_Transition = 7, c_Reason = ''Hung'', c_Message = ''xb''\<rparr>
     \<and> length (s_Events st) = 1"
proof -
  let ?l = "logMonitor_initializeStatus (\<lambda>_. 5) sample_monitor"
  let ?c = "sample_default\<lparr>c_Status := CondFalse, c_Transition := 5\<rparr>"
  have "\<not> Option.is_none (logMonitor_generateStatus FakeInt64Metric_Record [sample_line] (sample_rule Perm) ?l sample_pmm)"
    by code_simp
  then obtain st l' pmm' where gen:
    "logMonitor_generateStatus FakeInt64Metric_Record [sample_line] (sample_rule Perm) ?l sample_pmm = Some (st, l', pmm')"
    by (auto simp: Option.is_none_def)
  have perm: "r_Type (sample_rule Perm) \<noteq> Temp" by code_simp
  have c: "condition_of (r_Condition (sample_rule Perm)) (lm_conditions ?l) = Some ?c" by code_simp
  have m: "''xb'' = generateMessage [sample_line] (r_PatternGeneratedMessageSuffix (sample_rule Perm))" by code_simp
  have ch: "True \<longleftrightarrow> c_Status ?c = CondFalse \<or> c_Reason ?c \<noteq> r_Reason (sample_rule Perm)" by code_simp
  have "r_Condition (sample_rule Perm) = ''Deadlock''" "r_Reason (sample_rule Perm) = ''Hung''"
    "log_Timestamp sample_line = 7" by code_simp+
  with log_permanent_status [OF gen perm c m ch] show ?thesis by (intro exI [of _ st]) simp
qed

end
