(* ===== verification/Custom_Plugin_Config.thy ===== *)
theory Custom_Plugin_Config
  imports NPD_Types
begin

text \<open>
  The configuration of the custom plugin monitor (\<^verbatim>\<open>pkg/custompluginmonitor/types\<close>): the
  defaults with the parsing of durations, and the validation. What \<^verbatim>\<open>os.Stat\<close> says of a path
  is an argument of the validation. The lemmas say what a configuration that passes both
  satisfies; the monitor and the plugin rely on it.
\<close>

subsection \<open>Types\<close>

type_synonym PluginStatus = int

definition OK :: PluginStatus where "OK = 0"
definition NonOK :: PluginStatus where "NonOK = 1"
definition UnknownStatus :: PluginStatus where "UnknownStatus = 2"

lemma plugin_status_distinct [simp]:
  "OK \<noteq> NonOK" "NonOK \<noteq> OK" "OK \<noteq> UnknownStatus" "UnknownStatus \<noteq> OK"
  "NonOK \<noteq> UnknownStatus" "UnknownStatus \<noteq> NonOK"
  by (simp_all add: OK_def NonOK_def UnknownStatus_def)

record CustomRule =
  cr_Type :: ProblemType
  cr_Condition :: string
  cr_Reason :: string
  cr_Path :: string
  cr_Args :: "string list"
  cr_TimeoutString :: "string option"
  cr_Timeout :: "duration option"
  cr_InvokeIntervalString :: "string option"
  cr_InvokeInterval :: "duration option"

record PluginResult =
  res_Rule :: CustomRule
  res_ExitStatus :: PluginStatus
  res_Message :: string

record pluginGlobalConfig =
  pg_InvokeIntervalString :: "string option"
  pg_TimeoutString :: "string option"
  pg_InvokeInterval :: "duration option"
  pg_Timeout :: "duration option"
  pg_MaxOutputLength :: "int option"
  pg_Concurrency :: "int option"
  pg_EnableMessageChangeBasedConditionUpdate :: "bool option"
  pg_SkipInitialStatus :: "bool option"

record CustomPluginConfig =
  cp_Plugin :: string
  cp_PluginGlobalConfig :: pluginGlobalConfig
  cp_Source :: string
  cp_DefaultConditions :: "Condition list"
  cp_Rules :: "CustomRule list"
  cp_EnableMetricsReporting :: "bool option"

definition defaultGlobalTimeoutString :: string where "defaultGlobalTimeoutString = ''5s''"
definition defaultInvokeIntervalString :: string where "defaultInvokeIntervalString = ''30s''"
definition defaultMaxOutputLength :: int where "defaultMaxOutputLength = 80"
definition defaultConcurrency :: int where "defaultConcurrency = 3"
definition defaultMessageChangeBasedConditionUpdate :: bool where
  "defaultMessageChangeBasedConditionUpdate = False"
definition defaultPluginMetricsReporting :: bool where "defaultPluginMetricsReporting = True"
definition defaultSkipInitialStatus :: bool where "defaultSkipInitialStatus = False"
definition customPluginName :: string where "customPluginName = ''custom''"

datatype plugin_config_error =
    BadGlobalTimeout string
  | BadGlobalInterval string
  | BadRuleTimeout CustomRule
  | BadRuleInterval CustomRule
  | UnsupportedPlugin string
  | GlobalIntervalNotPositive duration
  | RuleIntervalNotPositive CustomRule
  | RuleTimeoutTooLong CustomRule
  | RulePathMissing CustomRule
  | NoDefaultCondition string
  | NilDereference

subsection \<open>Defaults\<close>

text \<open>A pointer that is nil gets the default.\<close>

definition or_default :: "'a \<Rightarrow> 'a option \<Rightarrow> 'a option" where
  "or_default d x = (case x of None \<Rightarrow> Some d | Some y \<Rightarrow> Some y)"

lemma or_default_simps [simp]:
  "or_default d None = Some d" "or_default d (Some y) = Some y" "or_default d x \<noteq> None"
  by (simp_all add: or_default_def split: option.split)

lemma or_default_case: "Some (case x of None \<Rightarrow> d | Some s \<Rightarrow> s) = or_default d x"
  by (simp add: or_default_def split: option.split)

definition apply_rule :: "CustomRule \<Rightarrow> plugin_config_error + CustomRule" where
  "apply_rule rule =
     and_then
       (case cr_TimeoutString rule of
          None \<Rightarrow> Ok rule
        | Some s \<Rightarrow>
            (case time_ParseDuration s of
               None \<Rightarrow> Err (BadRuleTimeout rule)
             | Some timeout \<Rightarrow> Ok (rule\<lparr>cr_Timeout := Some timeout\<rparr>)))
       (\<lambda>rule.
          (case cr_InvokeIntervalString rule of
             None \<Rightarrow> Ok rule
           | Some s \<Rightarrow>
               (case time_ParseDuration s of
                  None \<Rightarrow> Err (BadRuleInterval rule)
                | Some invokeInterval \<Rightarrow> Ok (rule\<lparr>cr_InvokeInterval := Some invokeInterval\<rparr>))))"

definition parse_or :: "(string \<Rightarrow> plugin_config_error) \<Rightarrow> string \<Rightarrow> plugin_config_error + duration" where
  "parse_or err s = (case time_ParseDuration s of None \<Rightarrow> Err (err s) | Some d \<Rightarrow> Ok d)"

definition CustomPluginConfig_ApplyConfiguration ::
    "CustomPluginConfig \<Rightarrow> plugin_config_error + CustomPluginConfig" where
  "CustomPluginConfig_ApplyConfiguration cpc =
     (let g = cp_PluginGlobalConfig cpc;
          timeoutString = (case pg_TimeoutString g of None \<Rightarrow> defaultGlobalTimeoutString | Some s \<Rightarrow> s);
          intervalString = (case pg_InvokeIntervalString g of
                              None \<Rightarrow> defaultInvokeIntervalString | Some s \<Rightarrow> s)
      in and_then (parse_or BadGlobalTimeout timeoutString) (\<lambda>timeout.
         and_then (parse_or BadGlobalInterval intervalString) (\<lambda>invokeInterval.
         let g = g\<lparr>pg_TimeoutString := Some timeoutString, pg_Timeout := Some timeout,
                   pg_InvokeIntervalString := Some intervalString,
                   pg_InvokeInterval := Some invokeInterval,
                   pg_MaxOutputLength := or_default defaultMaxOutputLength (pg_MaxOutputLength g),
                   pg_Concurrency := or_default defaultConcurrency (pg_Concurrency g),
                   pg_EnableMessageChangeBasedConditionUpdate :=
                     or_default defaultMessageChangeBasedConditionUpdate
                       (pg_EnableMessageChangeBasedConditionUpdate g),
                   pg_SkipInitialStatus := or_default defaultSkipInitialStatus (pg_SkipInitialStatus g)\<rparr>
         in and_then (map_res apply_rule (cp_Rules cpc)) (\<lambda>rules.
            Ok (cpc\<lparr>cp_PluginGlobalConfig := g, cp_Rules := rules,
                    cp_EnableMetricsReporting :=
                      or_default defaultPluginMetricsReporting (cp_EnableMetricsReporting cpc)\<rparr>)))))"

subsection \<open>Validation\<close>

text \<open>
  \<^term>\<open>None\<close> is success. Following a nil pointer (a configuration whose defaults have not been
  applied) is the panic \<open>NilDereference\<close>.
\<close>

definition check_all :: "('a \<Rightarrow> 'e option) \<Rightarrow> 'a list \<Rightarrow> 'e option" where
  "check_all f xs = List.fold (\<lambda>x r. case r of Some e \<Rightarrow> Some e | None \<Rightarrow> f x) xs None"

definition validate_timeout :: "pluginGlobalConfig \<Rightarrow> CustomRule \<Rightarrow> plugin_config_error option" where
  "validate_timeout g rule =
     (case cr_Timeout rule of
        None \<Rightarrow> None
      | Some t \<Rightarrow>
          (case pg_Timeout g of
             None \<Rightarrow> Some NilDereference
           | Some timeout \<Rightarrow> if t > timeout then Some (RuleTimeoutTooLong rule) else None))"

definition validate_durations :: "pluginGlobalConfig \<Rightarrow> CustomRule \<Rightarrow> plugin_config_error option" where
  "validate_durations g rule =
     (case cr_InvokeInterval rule of
        None \<Rightarrow> validate_timeout g rule
      | Some i \<Rightarrow> if i \<le> 0 then Some (RuleIntervalNotPositive rule) else validate_timeout g rule)"

definition validate_path :: "(string \<Rightarrow> bool) \<Rightarrow> CustomRule \<Rightarrow> plugin_config_error option" where
  "validate_path IsNotExist rule =
     (if IsNotExist (cr_Path rule) then Some (RulePathMissing rule) else None)"

definition validate_condition :: "Condition list \<Rightarrow> CustomRule \<Rightarrow> plugin_config_error option" where
  "validate_condition defaults rule =
     (if cr_Type rule \<noteq> Perm then None
      else if list_ex (\<lambda>cond. cr_Condition rule = c_Type cond) defaults then None
      else Some (NoDefaultCondition (cr_Condition rule)))"

definition CustomPluginConfig_Validate ::
    "(string \<Rightarrow> bool) \<Rightarrow> CustomPluginConfig \<Rightarrow> plugin_config_error option" where
  "CustomPluginConfig_Validate IsNotExist cpc =
     (if cp_Plugin cpc \<noteq> customPluginName then Some (UnsupportedPlugin (cp_Plugin cpc))
      else case pg_InvokeInterval (cp_PluginGlobalConfig cpc) of
        None \<Rightarrow> Some NilDereference
      | Some interval \<Rightarrow>
      if interval \<le> 0 then Some (GlobalIntervalNotPositive interval)
      else case check_all (validate_durations (cp_PluginGlobalConfig cpc)) (cp_Rules cpc) of
        Some e \<Rightarrow> Some e
      | None \<Rightarrow>
          (case check_all (validate_path IsNotExist) (cp_Rules cpc) of
             Some e \<Rightarrow> Some e
           | None \<Rightarrow> check_all (validate_condition (cp_DefaultConditions cpc)) (cp_Rules cpc)))"

subsection \<open>What a valid configuration satisfies\<close>

lemma fold_first_error: "fold (\<lambda>x r. case r of Some e \<Rightarrow> Some e | None \<Rightarrow> f x) xs (Some e) = Some e"
  by (induction xs) simp_all

lemma check_all_simps [simp]:
  "check_all f [] = None"
  "check_all f (x # xs) = (case f x of Some e \<Rightarrow> Some e | None \<Rightarrow> check_all f xs)"
  by (simp_all add: check_all_def fold_first_error split: option.split)

lemma check_all_None_iff: "check_all f xs = None \<longleftrightarrow> (\<forall>x \<in> set xs. f x = None)"
  by (induction xs) (auto split: option.splits)

text \<open>What the monitor and the plugin rely on.\<close>

definition plugin_config_ok :: "CustomPluginConfig \<Rightarrow> bool" where
  "plugin_config_ok cpc \<longleftrightarrow>
     (\<exists>timeout interval maxlen conc msg skip enabled.
        pg_Timeout (cp_PluginGlobalConfig cpc) = Some timeout \<and>
        pg_InvokeInterval (cp_PluginGlobalConfig cpc) = Some interval \<and> 0 < interval \<and>
        pg_MaxOutputLength (cp_PluginGlobalConfig cpc) = Some maxlen \<and>
        pg_Concurrency (cp_PluginGlobalConfig cpc) = Some conc \<and>
        pg_EnableMessageChangeBasedConditionUpdate (cp_PluginGlobalConfig cpc) = Some msg \<and>
        pg_SkipInitialStatus (cp_PluginGlobalConfig cpc) = Some skip \<and>
        cp_EnableMetricsReporting cpc = Some enabled \<and>
        (\<forall>rule \<in> set (cp_Rules cpc).
           (\<forall>i. cr_InvokeInterval rule = Some i \<longrightarrow> 0 < i) \<and>
           (\<forall>t. cr_Timeout rule = Some t \<longrightarrow> t \<le> timeout) \<and>
           (cr_Type rule = Perm \<longrightarrow>
              (\<exists>c \<in> set (cp_DefaultConditions cpc). c_Type c = cr_Condition rule))))"

definition apply_globals :: "duration \<Rightarrow> duration \<Rightarrow> pluginGlobalConfig \<Rightarrow> pluginGlobalConfig" where
  "apply_globals timeout interval g = g
     \<lparr>pg_TimeoutString := or_default defaultGlobalTimeoutString (pg_TimeoutString g),
      pg_Timeout := Some timeout,
      pg_InvokeIntervalString := or_default defaultInvokeIntervalString (pg_InvokeIntervalString g),
      pg_InvokeInterval := Some interval,
      pg_MaxOutputLength := or_default defaultMaxOutputLength (pg_MaxOutputLength g),
      pg_Concurrency := or_default defaultConcurrency (pg_Concurrency g),
      pg_EnableMessageChangeBasedConditionUpdate :=
        or_default defaultMessageChangeBasedConditionUpdate (pg_EnableMessageChangeBasedConditionUpdate g),
      pg_SkipInitialStatus := or_default defaultSkipInitialStatus (pg_SkipInitialStatus g)\<rparr>"

lemma ApplyConfiguration_fields:
  assumes "CustomPluginConfig_ApplyConfiguration cpc = Ok cpc'"
  obtains timeout interval rules where
    "cpc' = cpc\<lparr>cp_PluginGlobalConfig := apply_globals timeout interval (cp_PluginGlobalConfig cpc),
                cp_Rules := rules,
                cp_EnableMetricsReporting :=
                  or_default defaultPluginMetricsReporting (cp_EnableMetricsReporting cpc)\<rparr>"
    and "map_res apply_rule (cp_Rules cpc) = Ok rules"
    and "time_ParseDuration (the (pg_TimeoutString (cp_PluginGlobalConfig cpc'))) = Some timeout"
    and "time_ParseDuration (the (pg_InvokeIntervalString (cp_PluginGlobalConfig cpc'))) = Some interval"
proof -
  define ts where "ts = (case pg_TimeoutString (cp_PluginGlobalConfig cpc) of
      None \<Rightarrow> defaultGlobalTimeoutString | Some s \<Rightarrow> s)"
  define iv where "iv = (case pg_InvokeIntervalString (cp_PluginGlobalConfig cpc) of
      None \<Rightarrow> defaultInvokeIntervalString | Some s \<Rightarrow> s)"
  have d: "or_default defaultGlobalTimeoutString (pg_TimeoutString (cp_PluginGlobalConfig cpc)) = Some ts"
    "or_default defaultInvokeIntervalString (pg_InvokeIntervalString (cp_PluginGlobalConfig cpc)) = Some iv"
    by (simp_all add: ts_def iv_def or_default_case)
  obtain timeout interval rules where 1: "parse_or BadGlobalTimeout ts = Ok timeout"
    "parse_or BadGlobalInterval iv = Ok interval" "map_res apply_rule (cp_Rules cpc) = Ok rules"
    "cpc' = cpc\<lparr>cp_PluginGlobalConfig := apply_globals timeout interval (cp_PluginGlobalConfig cpc),
                cp_Rules := rules,
                cp_EnableMetricsReporting :=
                  or_default defaultPluginMetricsReporting (cp_EnableMetricsReporting cpc)\<rparr>"
    using assms
    by (auto simp: CustomPluginConfig_ApplyConfiguration_def Let_def apply_globals_def d simp flip: ts_def iv_def)
  show ?thesis
    by (rule that [OF 1(4) 1(3)])
      (use 1(1,2,4) in \<open>simp_all add: parse_or_def apply_globals_def d split: option.splits\<close>)
qed

lemma valid_plugin_config:
  assumes "CustomPluginConfig_ApplyConfiguration cpc = Ok cpc'"
    and "CustomPluginConfig_Validate IsNotExist cpc' = None"
  shows "plugin_config_ok cpc'"
proof -
  obtain timeout interval where g: "pg_Timeout (cp_PluginGlobalConfig cpc') = Some timeout"
    "pg_InvokeInterval (cp_PluginGlobalConfig cpc') = Some interval"
    "pg_MaxOutputLength (cp_PluginGlobalConfig cpc') \<noteq> None"
    "pg_Concurrency (cp_PluginGlobalConfig cpc') \<noteq> None"
    "pg_EnableMessageChangeBasedConditionUpdate (cp_PluginGlobalConfig cpc') \<noteq> None"
    "pg_SkipInitialStatus (cp_PluginGlobalConfig cpc') \<noteq> None"
    "cp_EnableMetricsReporting cpc' \<noteq> None"
    by (rule ApplyConfiguration_fields [OF assms(1)]) (simp add: apply_globals_def)
  have pos: "0 < interval"
    and dur: "\<forall>rule \<in> set (cp_Rules cpc'). validate_durations (cp_PluginGlobalConfig cpc') rule = None"
    and cond: "\<forall>rule \<in> set (cp_Rules cpc'). validate_condition (cp_DefaultConditions cpc') rule = None"
    using assms(2) g(2)
    by (simp_all add: CustomPluginConfig_Validate_def check_all_None_iff split: if_splits option.splits)
  have "0 < i" if "rule \<in> set (cp_Rules cpc')" "cr_InvokeInterval rule = Some i" for rule i
    using bspec [OF dur that(1)] that(2) by (simp add: validate_durations_def split: if_splits)
  moreover have "t \<le> timeout" if "rule \<in> set (cp_Rules cpc')" "cr_Timeout rule = Some t" for rule t
    using bspec [OF dur that(1)] that(2) g(1)
    by (auto simp: validate_durations_def validate_timeout_def split: if_splits option.splits)
  moreover have "\<exists>c \<in> set (cp_DefaultConditions cpc'). c_Type c = cr_Condition rule"
    if "rule \<in> set (cp_Rules cpc')" "cr_Type rule = Perm" for rule
    using bspec [OF cond that(1)] that(2) by (auto simp: validate_condition_def list_ex_iff split: if_splits)
  ultimately show ?thesis
    using g pos unfolding plugin_config_ok_def by blast
qed

subsection \<open>Properties of the configuration\<close>

text \<open>
  C29: a configuration that gets its defaults without an error and passes the validation has
  every setting; the global interval and every rule's own interval are positive, no rule's
  timeout exceeds the global one, and every permanent rule has a default condition.
\<close>

theorem valid_custom_plugin_config:
  assumes "CustomPluginConfig_ApplyConfiguration cpc = Ok cpc'"
    and "CustomPluginConfig_Validate IsNotExist cpc' = None"
  shows "plugin_config_ok cpc'"
  by (rule valid_plugin_config [OF assms])

definition sample_custom_rule :: "ProblemType \<Rightarrow> CustomRule" where
  "sample_custom_rule type =
     \<lparr>cr_Type = type, cr_Condition = ''NTPProblem'', cr_Reason = ''NTPIsDown'', cr_Path = ''check_ntp.sh'',
      cr_Args = [], cr_TimeoutString = Some ''5s'', cr_Timeout = None, cr_InvokeIntervalString = None,
      cr_InvokeInterval = None\<rparr>"

definition sample_ntp_default :: Condition where
  "sample_ntp_default = \<lparr>c_Type = ''NTPProblem'', c_Status = [], c_Transition = 0,
     c_Reason = ''NTPIsUp'', c_Message = ''ntp service is up''\<rparr>"

definition sample_plugin_config :: CustomPluginConfig where
  "sample_plugin_config =
     \<lparr>cp_Plugin = ''custom'',
      cp_PluginGlobalConfig =
        \<lparr>pg_InvokeIntervalString = Some ''1m0s'', pg_TimeoutString = None, pg_InvokeInterval = None,
         pg_Timeout = None, pg_MaxOutputLength = None, pg_Concurrency = None,
         pg_EnableMessageChangeBasedConditionUpdate = None, pg_SkipInitialStatus = None\<rparr>,
      cp_Source = ''ntp-monitor'', cp_DefaultConditions = [sample_ntp_default],
      cp_Rules = [sample_custom_rule Perm, sample_custom_rule Temp], cp_EnableMetricsReporting = None\<rparr>"

definition sample_applied :: CustomPluginConfig where
  "sample_applied = sample_plugin_config
     \<lparr>cp_PluginGlobalConfig :=
        apply_globals (5 * Second) (60 * Second) (cp_PluginGlobalConfig sample_plugin_config),
      cp_Rules := map (\<lambda>t. (sample_custom_rule t)\<lparr>cr_Timeout := Some (5 * Second)\<rparr>) [Perm, Temp],
      cp_EnableMetricsReporting := Some True\<rparr>"

lemma sample_applied_ok: "CustomPluginConfig_ApplyConfiguration sample_plugin_config = Ok sample_applied"
  by (simp add: sample_applied_def CustomPluginConfig_ApplyConfiguration_def sample_plugin_config_def
      sample_custom_rule_def apply_rule_def parse_or_def apply_globals_def defaultGlobalTimeoutString_def
      defaultPluginMetricsReporting_def time_ParseDuration_examples Let_def)

lemma sample_applied_valid: "CustomPluginConfig_Validate (\<lambda>_. False) sample_applied = None"
  by code_simp

theorem valid_custom_plugin_config_witness:
  "plugin_config_ok sample_applied \<and> pg_InvokeInterval (cp_PluginGlobalConfig sample_applied) = Some (60 * Second)"
proof -
  have "pg_InvokeInterval (cp_PluginGlobalConfig sample_applied) = Some (60 * Second)" by code_simp
  with valid_custom_plugin_config [OF sample_applied_ok sample_applied_valid] show ?thesis by simp
qed

text \<open>
  The validation rejects a configuration exactly when it names another plugin, has an
  interval that is not positive, a rule's timeout above the global one, a path that does not
  exist, or a permanent rule without a default condition.
\<close>

theorem validate_rejects_iff:
  assumes "pg_InvokeInterval (cp_PluginGlobalConfig cpc) = Some interval"
    and "pg_Timeout (cp_PluginGlobalConfig cpc) = Some timeout"
  shows "CustomPluginConfig_Validate IsNotExist cpc \<noteq> None \<longleftrightarrow>
    cp_Plugin cpc \<noteq> customPluginName \<or> interval \<le> 0 \<or>
    (\<exists>rule \<in> set (cp_Rules cpc).
       (\<exists>i. cr_InvokeInterval rule = Some i \<and> i \<le> 0) \<or>
       (\<exists>t. cr_Timeout rule = Some t \<and> timeout < t) \<or>
       IsNotExist (cr_Path rule) \<or>
       (cr_Type rule = Perm \<and> (\<forall>c \<in> set (cp_DefaultConditions cpc). c_Type c \<noteq> cr_Condition rule)))"
proof -
  have 1: "validate_durations (cp_PluginGlobalConfig cpc) rule = None \<longleftrightarrow>
      \<not> ((\<exists>i. cr_InvokeInterval rule = Some i \<and> i \<le> 0) \<or> (\<exists>t. cr_Timeout rule = Some t \<and> timeout < t))" for rule
    using assms(2) by (cases "cr_InvokeInterval rule"; cases "cr_Timeout rule")
      (auto simp: validate_durations_def validate_timeout_def)
  have 2: "validate_path IsNotExist rule = None \<longleftrightarrow> \<not> IsNotExist (cr_Path rule)" for rule
    by (simp add: validate_path_def)
  have 3: "validate_condition (cp_DefaultConditions cpc) rule = None \<longleftrightarrow>
      \<not> (cr_Type rule = Perm \<and> (\<forall>c \<in> set (cp_DefaultConditions cpc). c_Type c \<noteq> cr_Condition rule))" for rule
    by (auto simp: validate_condition_def list_ex_iff)
  have "CustomPluginConfig_Validate IsNotExist cpc = None \<longleftrightarrow>
      cp_Plugin cpc = customPluginName \<and> 0 < interval \<and>
      (\<forall>rule \<in> set (cp_Rules cpc). validate_durations (cp_PluginGlobalConfig cpc) rule = None) \<and>
      (\<forall>rule \<in> set (cp_Rules cpc). validate_path IsNotExist rule = None) \<and>
      (\<forall>rule \<in> set (cp_Rules cpc). validate_condition (cp_DefaultConditions cpc) rule = None)"
    unfolding check_all_None_iff [symmetric] using assms(1)
    by (simp add: CustomPluginConfig_Validate_def split: option.split)
  then show ?thesis unfolding 1 2 3 not_le by (metis not_less)
qed

theorem validate_rejects_iff_witness:
  "CustomPluginConfig_Validate (\<lambda>p. p = ''check_ntp.sh'') sample_applied \<noteq> None"
proof -
  have i: "pg_InvokeInterval (cp_PluginGlobalConfig sample_applied) = Some (60 * Second)" by code_simp
  have t: "pg_Timeout (cp_PluginGlobalConfig sample_applied) = Some (5 * Second)" by code_simp
  have "list_ex (\<lambda>rule. cr_Path rule = ''check_ntp.sh'') (cp_Rules sample_applied)" by code_simp
  with validate_rejects_iff [OF i t] show ?thesis unfolding list_ex_iff by blast
qed

end
