(* ===== verification/Plugin_Runner.thy ===== *)
theory Plugin_Runner
  imports Custom_Plugin_Config Go_Strings
begin

text \<open>
  The plugin of a custom plugin monitor (\<^verbatim>\<open>pkg/custompluginmonitor/plugin/plugin.go\<close>): the
  grouping of rules by interval, running one command, and the goroutines that run the rules, as
  a step relation over the semaphore \<^verbatim>\<open>syncChan\<close>, the channel of results and the tomb.

  What running a command does (the pipes, the process, the clock) is an argument: a function
  from the deadline, the path and the arguments to a record of what the code observes.
\<close>

definition maxCustomPluginBufferBytes :: nat where
  "maxCustomPluginBufferBytes = 1024 * 4"

subsection \<open>Groups of rules\<close>

record intervalGroup =
  ig_interval :: duration
  ig_rules :: "CustomRule list"

definition effectiveInterval :: "CustomPluginConfig \<Rightarrow> CustomRule \<Rightarrow> duration" where
  "effectiveInterval config rule =
     (case cr_InvokeInterval rule of
        Some i \<Rightarrow> i
      | None \<Rightarrow> the (pg_InvokeInterval (cp_PluginGlobalConfig config)))"

definition intervalGroups_add ::
    "CustomPluginConfig \<Rightarrow> CustomRule \<Rightarrow> intervalGroup list \<times> (duration \<rightharpoonup> nat)
      \<Rightarrow> intervalGroup list \<times> (duration \<rightharpoonup> nat)" where
  "intervalGroups_add config rule st =
     (case st of (groups, groupIndexes) \<Rightarrow>
        let interval = effectiveInterval config rule;
            (groups, groupIndexes, groupIndex) =
              (case groupIndexes interval of
                 Some i \<Rightarrow> (groups, groupIndexes, i)
               | None \<Rightarrow> (groups @ [\<lparr>ig_interval = interval, ig_rules = []\<rparr>],
                          groupIndexes(interval \<mapsto> length groups), length groups))
        in (groups[groupIndex := (groups ! groupIndex)\<lparr>ig_rules := ig_rules (groups ! groupIndex) @ [rule]\<rparr>],
            groupIndexes))"

definition Plugin_intervalGroups :: "CustomPluginConfig \<Rightarrow> intervalGroup list" where
  "Plugin_intervalGroups config =
     fst (fold (intervalGroups_add config) (cp_Rules config) ([], Map.empty))"

subsection \<open>Running a command\<close>

text \<open>A reader delivers its bytes and then ends, or fails if the flag is set.\<close>

type_synonym reader = "string \<times> bool"

text \<open>
  \<^verbatim>\<open>readFromReader\<close>: at most \<open>maxBytes\<close> bytes through the limited reader, then the rest is
  drained. A failure is seen by the limited reader only if the limit is not reached before, and
  by the draining otherwise.
\<close>

definition readFromReader :: "reader \<Rightarrow> nat \<Rightarrow> unit + string" where
  "readFromReader reader maxBytes =
     (case reader of (bytes, fails) \<Rightarrow>
        let data = take maxBytes bytes in
        if length bytes < maxBytes \<and> fails then Err ()
        else if fails then Err ()
        else Ok data)"

datatype wait_result = WaitOk | WaitExitError | WaitOtherError

record run_env =
  re_stdoutPipe :: bool
  re_stderrPipe :: bool
  re_start :: bool
  re_stdout :: reader
  re_stderr :: reader
  re_wait :: wait_result
  re_killed :: bool
  re_state :: string
  re_exitCode :: int

definition run_timeout :: "CustomPluginConfig \<Rightarrow> CustomRule \<Rightarrow> duration" where
  "run_timeout config rule =
     (let global = the (pg_Timeout (cp_PluginGlobalConfig config)) in
      case cr_Timeout rule of
        Some t \<Rightarrow> if t < global then t else global
      | None \<Rightarrow> global)"

text \<open>The end of \<^verbatim>\<open>run\<close>: the message is cut (cutting at a negative length panics) and the exit code mapped.\<close>

definition finish_run :: "CustomPluginConfig \<Rightarrow> string \<Rightarrow> int \<Rightarrow> (PluginStatus \<times> string) option" where
  "finish_run config output exitCode =
     (let maxlen = the (pg_MaxOutputLength (cp_PluginGlobalConfig config));
          cut_output = (if int (length output) > maxlen
                        then (if maxlen < 0 then None else Some (take (nat maxlen) output))
                        else Some output)
      in map_option (\<lambda>out. (if exitCode = 0 then OK else if exitCode = 1 then NonOK else UnknownStatus, out))
           cut_output)"

definition Plugin_run ::
    "CustomPluginConfig \<Rightarrow> (duration \<Rightarrow> string \<Rightarrow> string list \<Rightarrow> run_env) \<Rightarrow> CustomRule
      \<Rightarrow> (PluginStatus \<times> string) option" where
  "Plugin_run config exec rule =
     (let env = exec (run_timeout config rule) (cr_Path rule) (cr_Args rule) in
      if \<not> re_stdoutPipe env
      then Some (UnknownStatus, ''Error creating stdout pipe for plugin. Please check the error log'')
      else if \<not> re_stderrPipe env
      then Some (UnknownStatus, ''Error creating stderr pipe for plugin. Please check the error log'')
      else if \<not> re_start env
      then Some (UnknownStatus, ''Error in starting plugin. Please check the error log'')
      else case readFromReader (re_stdout env) maxCustomPluginBufferBytes of
        Inl _ \<Rightarrow> Some (UnknownStatus, ''Error reading stdout for plugin. Please check the error log'')
      | Inr stdout \<Rightarrow>
      case readFromReader (re_stderr env) maxCustomPluginBufferBytes of
        Inl _ \<Rightarrow> Some (UnknownStatus, ''Error reading stderr for plugin. Please check the error log'')
      | Inr stderr \<Rightarrow>
      if re_wait env = WaitOtherError
      then Some (UnknownStatus, ''Error in waiting for plugin. Please check the error log'')
      else
        let output = strings_TrimSpace stdout;
            output = (if re_killed env
                      then ''Timeout when running plugin '' @ strconv_Quote (cr_Path rule) @ '': state - '' @
                           re_state env @ ''. output - '' @ strconv_Quote output
                      else output)
        in finish_run config output (re_exitCode env))"

subsection \<open>The goroutines\<close>

text \<open>
  A worker goroutine of \<^verbatim>\<open>runRules\<close>: before its check of the tomb, running the command, or
  holding a result to send. A call of \<^verbatim>\<open>runRules\<close>: the rules still to launch, where it is (at the
  \<^verbatim>\<open>select\<close> on the semaphore, at the check after it, or waiting for its workers with the value it
  will return), and its workers.
\<close>

datatype worker = WStart CustomRule | WRun CustomRule | WSend PluginResult

datatype batch_pc = AtSelect | AtCheck | AtWait bool

record batch =
  b_rules :: "CustomRule list"
  b_pc :: batch_pc
  b_workers :: "worker list"

definition runRules_start :: "CustomRule list \<Rightarrow> batch" where
  "runRules_start rules = \<lparr>b_rules = rules, b_pc = AtSelect, b_workers = []\<rparr>"

definition resultChanSize :: nat where "resultChanSize = 1000"

text \<open>
  One step of a call of \<^verbatim>\<open>runRules\<close> over the tokens in \<^verbatim>\<open>syncChan\<close> (of capacity \<open>cap\<close>) and the
  results in \<^verbatim>\<open>resultChan\<close>; \<open>stop\<close> says that the tomb is stopping. A worker that ends gives its
  token back and is done in one step.
\<close>

inductive runRules_step ::
    "CustomPluginConfig \<Rightarrow> nat \<Rightarrow> bool \<Rightarrow> nat \<times> PluginResult list \<times> batch \<Rightarrow> nat \<times> PluginResult list \<times> batch \<Rightarrow> bool"
  for config cap stop where
  acquire: "b_pc b = AtSelect \<Longrightarrow> b_rules b \<noteq> [] \<Longrightarrow> sem < cap \<Longrightarrow>
     runRules_step config cap stop (sem, rs, b) (Suc sem, rs, b\<lparr>b_pc := AtCheck\<rparr>)"
| acquire_stop: "b_pc b = AtSelect \<Longrightarrow> b_rules b \<noteq> [] \<Longrightarrow> stop \<Longrightarrow>
     runRules_step config cap stop (sem, rs, b) (sem, rs, b\<lparr>b_pc := AtWait False\<rparr>)"
| check_stop: "b_pc b = AtCheck \<Longrightarrow> stop \<Longrightarrow>
     runRules_step config cap stop (sem, rs, b) (sem - 1, rs, b\<lparr>b_pc := AtWait False\<rparr>)"
| launch: "b_pc b = AtCheck \<Longrightarrow> \<not> stop \<Longrightarrow> b_rules b = rule # rules \<Longrightarrow>
     runRules_step config cap stop (sem, rs, b)
       (sem, rs, b\<lparr>b_rules := rules, b_pc := AtSelect, b_workers := b_workers b @ [WStart rule]\<rparr>)"
| all_launched: "b_pc b = AtSelect \<Longrightarrow> b_rules b = [] \<Longrightarrow>
     runRules_step config cap stop (sem, rs, b) (sem, rs, b\<lparr>b_pc := AtWait True\<rparr>)"
| worker_stop: "b_workers b = ws @ WStart rule # ws' \<Longrightarrow> stop \<Longrightarrow>
     runRules_step config cap stop (sem, rs, b) (sem - 1, rs, b\<lparr>b_workers := ws @ ws'\<rparr>)"
| worker_run: "b_workers b = ws @ WStart rule # ws' \<Longrightarrow> \<not> stop \<Longrightarrow>
     runRules_step config cap stop (sem, rs, b) (sem, rs, b\<lparr>b_workers := ws @ WRun rule # ws'\<rparr>)"
| worker_ran: "b_workers b = ws @ WRun rule # ws' \<Longrightarrow> Plugin_run config exec rule = Some (st, msg) \<Longrightarrow>
     runRules_step config cap stop (sem, rs, b)
       (sem, rs, b\<lparr>b_workers := ws @ WSend \<lparr>res_Rule = rule, res_ExitStatus = st, res_Message = msg\<rparr> # ws'\<rparr>)"
| worker_send: "b_workers b = ws @ WSend result # ws' \<Longrightarrow> length rs < resultChanSize \<Longrightarrow>
     runRules_step config cap stop (sem, rs, b) (sem - 1, rs @ [result], b\<lparr>b_workers := ws @ ws'\<rparr>)"
| worker_drop: "b_workers b = ws @ WSend result # ws' \<Longrightarrow> stop \<Longrightarrow>
     runRules_step config cap stop (sem, rs, b) (sem - 1, rs, b\<lparr>b_workers := ws @ ws'\<rparr>)"

text \<open>
  \<^verbatim>\<open>Run\<close>: the first thread is the goroutine of \<^verbatim>\<open>Run\<close> itself, which runs all rules once and then
  starts one thread per group (\<^verbatim>\<open>runGroup\<close>), or waits for the tomb when there is no rule. A thread
  waits in its \<^verbatim>\<open>select\<close>, is in \<^verbatim>\<open>runRules\<close>, or is done. When all are done \<^verbatim>\<open>Run\<close> closes the
  channel and returns. The last two rules are the environment: the monitor takes a result, and
  the tomb is stopped. A ticker may fire at any time.
\<close>

datatype thread = Waiting | Running batch | Finished

record plugin_state =
  ps_sem :: nat
  ps_stop :: bool
  ps_results :: "PluginResult list"
  ps_closed :: bool
  ps_done :: bool
  ps_threads :: "thread list"

definition NewPlugin_Run :: "CustomPluginConfig \<Rightarrow> plugin_state" where
  "NewPlugin_Run config =
     \<lparr>ps_sem = 0, ps_stop = False, ps_results = [], ps_closed = False, ps_done = False,
      ps_threads = [if Plugin_intervalGroups config = [] then Waiting
                    else Running (runRules_start (cp_Rules config))]\<rparr>"

definition plugin_capacity :: "CustomPluginConfig \<Rightarrow> nat" where
  "plugin_capacity config = nat (the (pg_Concurrency (cp_PluginGlobalConfig config)))"

text \<open>\<^verbatim>\<open>make\<close> panics on a negative capacity.\<close>

definition NewPlugin :: "CustomPluginConfig \<Rightarrow> plugin_state option" where
  "NewPlugin config =
     (if the (pg_Concurrency (cp_PluginGlobalConfig config)) < 0 then None else Some (NewPlugin_Run config))"

inductive run_step :: "CustomPluginConfig \<Rightarrow> plugin_state \<Rightarrow> plugin_state \<Rightarrow> bool" for config where
  in_runRules: "i < length (ps_threads s) \<Longrightarrow> ps_threads s ! i = Running b \<Longrightarrow>
     runRules_step config (plugin_capacity config) (ps_stop s) (ps_sem s, ps_results s, b) (sem, rs, b') \<Longrightarrow>
     run_step config s (s\<lparr>ps_sem := sem, ps_results := rs, ps_threads := (ps_threads s)[i := Running b']\<rparr>)"
| boot_done: "ps_threads s = [Running b] \<Longrightarrow> b_pc b = AtWait ok \<Longrightarrow> b_workers b = [] \<Longrightarrow>
     run_step config s
       (s\<lparr>ps_threads := Finished # (if ok then replicate (length (Plugin_intervalGroups config)) Waiting else [])\<rparr>)"
| group_done: "0 < i \<Longrightarrow> i < length (ps_threads s) \<Longrightarrow> ps_threads s ! i = Running b \<Longrightarrow>
     b_pc b = AtWait ok \<Longrightarrow> b_workers b = [] \<Longrightarrow>
     run_step config s (s\<lparr>ps_threads := (ps_threads s)[i := if ok then Waiting else Finished]\<rparr>)"
| tick: "0 < i \<Longrightarrow> i < length (ps_threads s) \<Longrightarrow> ps_threads s ! i = Waiting \<Longrightarrow>
     run_step config s
       (s\<lparr>ps_threads := (ps_threads s)[i := Running (runRules_start (ig_rules (Plugin_intervalGroups config ! (i - 1))))]\<rparr>)"
| stopping: "i < length (ps_threads s) \<Longrightarrow> ps_threads s ! i = Waiting \<Longrightarrow> ps_stop s \<Longrightarrow>
     run_step config s (s\<lparr>ps_threads := (ps_threads s)[i := Finished]\<rparr>)"
| run_return: "list_all (\<lambda>t. t = Finished) (ps_threads s) \<Longrightarrow> \<not> ps_closed s \<Longrightarrow>
     run_step config s (s\<lparr>ps_closed := True, ps_done := True\<rparr>)"

inductive plugin_env_step :: "plugin_state \<Rightarrow> plugin_state \<Rightarrow> bool" where
  env_take: "ps_results s = r # rs \<Longrightarrow> plugin_env_step s (s\<lparr>ps_results := rs\<rparr>)"
| env_stop: "\<not> ps_stop s \<Longrightarrow> plugin_env_step s (s\<lparr>ps_stop := True\<rparr>)"

definition plugin_any_step :: "CustomPluginConfig \<Rightarrow> plugin_state \<Rightarrow> plugin_state \<Rightarrow> bool" where
  "plugin_any_step config s s' \<longleftrightarrow> run_step config s s' \<or> plugin_env_step s s'"

subsection \<open>Groups: lemmas\<close>

text \<open>The distinct elements of a list in the order of their first occurrence.\<close>

definition first_occurrences :: "'a list \<Rightarrow> 'a list" where
  "first_occurrences xs = rev (remdups (rev xs))"

lemma first_occurrences_snoc:
  "first_occurrences (xs @ [x]) = (if x \<in> set xs then first_occurrences xs else first_occurrences xs @ [x])"
  by (simp add: first_occurrences_def)

lemma set_first_occurrences [simp]: "set (first_occurrences xs) = set xs"
  by (simp add: first_occurrences_def)

lemma distinct_first_occurrences [simp]: "distinct (first_occurrences xs)"
  by (simp add: first_occurrences_def)

definition groups_spec :: "CustomPluginConfig \<Rightarrow> CustomRule list \<Rightarrow> intervalGroup list" where
  "groups_spec config rules =
     map (\<lambda>i. \<lparr>ig_interval = i, ig_rules = filter (\<lambda>r. effectiveInterval config r = i) rules\<rparr>)
       (first_occurrences (map (effectiveInterval config) rules))"

text \<open>\<open>groupIndexes\<close> maps every interval seen to its place.\<close>

definition index_map :: "'a list \<Rightarrow> ('a \<rightharpoonup> nat) \<Rightarrow> bool" where
  "index_map ks m \<longleftrightarrow> (\<forall>k i. m k = Some i \<longleftrightarrow> i < length ks \<and> ks ! i = k)"

lemma index_map_snoc:
  assumes "index_map ks m" and "x \<notin> set ks"
  shows "index_map (ks @ [x]) (m(x \<mapsto> length ks))"
  using assms unfolding index_map_def
  by (auto simp: nth_append less_Suc_eq)

lemma index_map_None: "index_map ks m \<Longrightarrow> m k = None \<longleftrightarrow> k \<notin> set ks"
  unfolding index_map_def by (metis in_set_conv_nth option.exhaust option.distinct(1))

lemma intervalGroups_fold:
  "\<exists>m. fold (intervalGroups_add config) rules ([], Map.empty) = (groups_spec config rules, m) \<and>
       index_map (first_occurrences (map (effectiveInterval config) rules)) m"
proof (induction rules rule: rev_induct)
  case Nil
  then show ?case by (simp add: groups_spec_def first_occurrences_def index_map_def)
next
  case (snoc rule rules)
  let ?eff = "effectiveInterval config" and ?i = "effectiveInterval config rule"
  let ?ks = "first_occurrences (map ?eff rules)"
  let ?g = "\<lambda>rs i. \<lparr>ig_interval = i, ig_rules = filter (\<lambda>r. ?eff r = i) rs\<rparr>"
  obtain m where m: "fold (intervalGroups_add config) rules ([], Map.empty) = (groups_spec config rules, m)"
    "index_map ?ks m" using snoc by blast
  have spec: "groups_spec config rules = map (?g rules) ?ks" by (simp add: groups_spec_def)
  show ?case
  proof (cases "m ?i")
    case None
    then have new: "?i \<notin> set ?ks" using m(2) by (simp add: index_map_None)
    then have ks: "first_occurrences (map ?eff (rules @ [rule])) = ?ks @ [?i]"
      by (simp add: first_occurrences_snoc)
    have "map (?g rules) ?ks = map (?g (rules @ [rule])) ?ks"
      using new by (intro map_cong) auto
    moreover have "\<forall>r \<in> set rules. ?eff r \<noteq> ?i" using new by (metis image_eqI image_set set_first_occurrences)
    then have "filter (\<lambda>r. ?eff r = ?i) rules = []" by (simp add: filter_empty_conv)
    ultimately have spec': "groups_spec config (rules @ [rule]) =
        groups_spec config rules @ [\<lparr>ig_interval = ?i, ig_rules = [rule]\<rparr>]"
      unfolding groups_spec_def ks by simp
    have len: "length (groups_spec config rules) = length ?ks" by (simp add: groups_spec_def)
    have "intervalGroups_add config rule (groups_spec config rules, m) =
        (groups_spec config (rules @ [rule]), m(?i \<mapsto> length ?ks))"
      using None unfolding spec' len [symmetric] by (simp add: intervalGroups_add_def Let_def)
    with m index_map_snoc [OF m(2) new] ks show ?thesis by simp
  next
    case (Some k)
    then have k: "k < length ?ks" "?ks ! k = ?i" using m(2) by (auto simp: index_map_def)
    then have old: "?i \<in> set (map ?eff rules)" by (metis nth_mem set_first_occurrences)
    then have ks: "first_occurrences (map ?eff (rules @ [rule])) = ?ks"
      by (simp add: first_occurrences_snoc)
    have "(map (?g rules) ?ks)[k := (?g rules ?i)\<lparr>ig_rules := filter (\<lambda>r. ?eff r = ?i) rules @ [rule]\<rparr>]
        = map (?g (rules @ [rule])) ?ks"
    proof (rule nth_equalityI)
      fix j assume "j < length ((map (?g rules) ?ks)[k := (?g rules ?i)\<lparr>ig_rules := filter (\<lambda>r. ?eff r = ?i) rules @ [rule]\<rparr>])"
      then have j: "j < length ?ks" by simp
      then have "j = k \<longleftrightarrow> ?ks ! j = ?i" using k nth_eq_iff_index_eq [of ?ks j k] by auto
      then show "(map (?g rules) ?ks)[k := (?g rules ?i)\<lparr>ig_rules := filter (\<lambda>r. ?eff r = ?i) rules @ [rule]\<rparr>] ! j
          = map (?g (rules @ [rule])) ?ks ! j"
        using j by (cases "j = k") auto
    qed simp
    then have "intervalGroups_add config rule (groups_spec config rules, m) = (groups_spec config (rules @ [rule]), m)"
      using Some k ks by (simp add: intervalGroups_add_def groups_spec_def Let_def)
    with m ks show ?thesis by simp
  qed
qed

lemma intervalGroups_spec: "Plugin_intervalGroups config = groups_spec config (cp_Rules config)"
  using intervalGroups_fold [of config "cp_Rules config"] by (auto simp: Plugin_intervalGroups_def)

lemma intervalGroups_rules:
  assumes "g \<in> set (Plugin_intervalGroups config)"
  shows "ig_rules g \<noteq> []" and "set (ig_rules g) \<subseteq> set (cp_Rules config)"
  using assms by (auto simp: intervalGroups_spec groups_spec_def filter_empty_conv)

lemma intervalGroups_Nil: "Plugin_intervalGroups config = [] \<longleftrightarrow> cp_Rules config = []"
  by (cases "cp_Rules config" rule: rev_cases)
    (auto simp: intervalGroups_spec groups_spec_def first_occurrences_def)

subsection \<open>Safety of the goroutines\<close>

definition tokens :: "batch \<Rightarrow> nat" where
  "tokens b = length (b_workers b) + (if b_pc b = AtCheck then 1 else 0)"

fun worker_rule :: "worker \<Rightarrow> CustomRule" where
  "worker_rule (WStart r) = r"
| "worker_rule (WRun r) = r"
| "worker_rule (WSend res) = res_Rule res"

definition batch_ok :: "CustomRule set \<Rightarrow> bool \<Rightarrow> batch \<Rightarrow> bool" where
  "batch_ok R stop b \<longleftrightarrow>
     set (b_rules b) \<subseteq> R \<and> worker_rule ` set (b_workers b) \<subseteq> R \<and>
     (b_pc b = AtCheck \<longrightarrow> b_rules b \<noteq> []) \<and> (b_pc b = AtWait False \<longrightarrow> stop)"

lemma runRules_step_safe:
  assumes "runRules_step config cap stop (sem, rs, b) (sem', rs', b')"
    and "tokens b \<le> sem" and "sem \<le> cap" and "batch_ok R stop b" and "res_Rule ` set rs \<subseteq> R"
  shows "sem' + tokens b = sem + tokens b'" and "sem' \<le> cap" and "batch_ok R stop b'"
    and "res_Rule ` set rs' \<subseteq> R"
  using assms
  by (cases rule: runRules_step.cases; auto simp: tokens_def batch_ok_def)+

fun thread_tokens :: "thread \<Rightarrow> nat" where
  "thread_tokens (Running b) = tokens b"
| "thread_tokens _ = 0"

fun thread_ok :: "CustomRule set \<Rightarrow> bool \<Rightarrow> thread \<Rightarrow> bool" where
  "thread_ok R stop (Running b) = batch_ok R stop b"
| "thread_ok R stop _ = True"

definition threads_shape :: "CustomPluginConfig \<Rightarrow> thread list \<Rightarrow> bool" where
  "threads_shape config ts \<longleftrightarrow>
     (if cp_Rules config = [] then ts = [Waiting] \<or> ts = [Finished]
      else (\<exists>b. ts = [Running b]) \<or> ts = [Finished] \<or>
           (length ts = Suc (length (Plugin_intervalGroups config)) \<and> ts ! 0 = Finished))"

text \<open>
  The tokens in the semaphore are those of the threads and never more than its capacity; a
  closed channel has no thread left that could send on it, and is closed only after a stop; the
  results are results of the configured rules.
\<close>

definition plugin_inv :: "CustomPluginConfig \<Rightarrow> plugin_state \<Rightarrow> bool" where
  "plugin_inv config s \<longleftrightarrow>
     ps_sem s = sum_list (map thread_tokens (ps_threads s)) \<and> ps_sem s \<le> plugin_capacity config \<and>
     ps_threads s \<noteq> [] \<and> list_all (thread_ok (set (cp_Rules config)) (ps_stop s)) (ps_threads s) \<and>
     threads_shape config (ps_threads s) \<and>
     (list_all (\<lambda>t. t = Finished) (ps_threads s) \<longrightarrow> ps_stop s) \<and>
     (ps_closed s \<longrightarrow> list_all (\<lambda>t. t = Finished) (ps_threads s)) \<and> ps_done s = ps_closed s \<and>
     res_Rule ` set (ps_results s) \<subseteq> set (cp_Rules config)"

lemma sum_list_map_update:
  fixes f :: "'a \<Rightarrow> nat"
  assumes "i < length xs"
  shows "sum_list (map f (xs[i := x])) + f (xs ! i) = sum_list (map f xs) + f x"
proof -
  have "f (xs ! i) \<le> sum_list (map f xs)"
    using assms elem_le_sum_list [of i "map f xs"] by simp
  then show ?thesis using assms by (simp add: map_update sum_list_update)
qed

lemma thread_tokens_le:
  "i < length ts \<Longrightarrow> thread_tokens (ts ! i) \<le> sum_list (map thread_tokens ts)"
  using elem_le_sum_list [of i "map thread_tokens ts"] by simp

lemma list_all_update: "list_all P xs \<Longrightarrow> P x \<Longrightarrow> list_all P (xs[i := x])"
  by (cases "i < length xs") (simp_all add: list_all_length nth_list_update)

lemma plugin_inv_start: "plugin_inv config (NewPlugin_Run config)"
  by (auto simp: plugin_inv_def NewPlugin_Run_def threads_shape_def runRules_start_def tokens_def
      batch_ok_def intervalGroups_Nil)

text \<open>Replacing one thread that has not finished keeps the invariant.\<close>

lemma plugin_inv_thread:
  assumes inv: "plugin_inv config s" and i: "i < length (ps_threads s)" and run: "ps_threads s ! i \<noteq> Finished"
    and sem: "sem + thread_tokens (ps_threads s ! i) = ps_sem s + thread_tokens t" "sem \<le> plugin_capacity config"
    and ok: "thread_ok (set (cp_Rules config)) (ps_stop s) t" "t = Finished \<longrightarrow> ps_stop s"
    and shape: "threads_shape config ((ps_threads s)[i := t])"
    and res: "res_Rule ` set rs \<subseteq> set (cp_Rules config)"
  shows "plugin_inv config (s\<lparr>ps_sem := sem, ps_results := rs, ps_threads := (ps_threads s)[i := t]\<rparr>)"
proof -
  let ?ts = "(ps_threads s)[i := t]"
  have "sem = sum_list (map thread_tokens ?ts)"
    using sum_list_map_update [OF i, of thread_tokens t] sem(1) inv by (simp add: plugin_inv_def)
  moreover have "list_all (thread_ok (set (cp_Rules config)) (ps_stop s)) ?ts"
    using inv ok(1) by (intro list_all_update) (simp_all add: plugin_inv_def)
  moreover have "\<not> list_all (\<lambda>t. t = Finished) (ps_threads s)"
    using i run by (auto simp: list_all_length)
  moreover have "list_all (\<lambda>t. t = Finished) ?ts \<longrightarrow> ps_stop s"
    using ok(2) i by (auto simp: list_all_length nth_list_update dest!: spec [of _ i])
  ultimately show ?thesis
    using inv sem(2) shape res by (auto simp: plugin_inv_def)
qed

lemma plugin_inv_threadD:
  assumes "plugin_inv config s" and "i < length (ps_threads s)"
  shows "thread_ok (set (cp_Rules config)) (ps_stop s) (ps_threads s ! i)"
    and "thread_tokens (ps_threads s ! i) \<le> ps_sem s"
  using assms thread_tokens_le [OF assms(2)] by (auto simp: plugin_inv_def list_all_length)

lemma plugin_inv_unchanged:
  "plugin_inv config s \<Longrightarrow>
   plugin_inv config (s\<lparr>ps_sem := ps_sem s, ps_results := ps_results s, ps_threads := ts\<rparr>) \<Longrightarrow>
   plugin_inv config (s\<lparr>ps_threads := ts\<rparr>)"
  by (simp add: plugin_inv_def)

lemma run_step_inv:
  assumes "run_step config s s'" and inv: "plugin_inv config s"
  shows "plugin_inv config s'"
proof -
  have cap: "ps_sem s \<le> plugin_capacity config" and res: "res_Rule ` set (ps_results s) \<subseteq> set (cp_Rules config)"
    and shape: "threads_shape config (ps_threads s)"
    using inv by (simp_all add: plugin_inv_def)
  note repl = plugin_inv_unchanged [OF inv plugin_inv_thread [OF inv]]
  from assms(1) show ?thesis
  proof (cases rule: run_step.cases)
    case (in_runRules i b sem rs b')
    note D = plugin_inv_threadD [OF inv in_runRules(2), unfolded in_runRules(3), simplified]
    note safe = runRules_step_safe [OF in_runRules(4) D(2) cap D(1) res]
    show ?thesis unfolding in_runRules(1)
      by (rule plugin_inv_thread [OF inv in_runRules(2)])
        (use in_runRules(2,3) safe shape in \<open>auto simp: threads_shape_def nth_list_update split: if_splits\<close>)
  next
    case (boot_done b ok)
    have "thread_ok (set (cp_Rules config)) (ps_stop s) (Running b)"
      using inv boot_done(2) by (simp add: plugin_inv_def)
    then have "\<not> ok \<longrightarrow> ps_stop s" using boot_done(3) by (auto simp: batch_ok_def)
    moreover have "cp_Rules config \<noteq> []" "ps_sem s = 0"
      using inv shape boot_done by (auto simp: plugin_inv_def threads_shape_def tokens_def)
    ultimately show ?thesis
      using inv boot_done by (auto simp: plugin_inv_def threads_shape_def list_all_iff intervalGroups_Nil
          sum_list_replicate map_replicate_const)
  next
    case (group_done i b ok)
    note D = plugin_inv_threadD [OF inv group_done(3), unfolded group_done(4), simplified]
    show ?thesis unfolding group_done(1)
      by (rule repl [OF group_done(3)])
        (use group_done(2-6) D cap res shape in
          \<open>auto simp: threads_shape_def tokens_def batch_ok_def split: if_splits\<close>)
  next
    case (tick i)
    let ?rules = "ig_rules (Plugin_intervalGroups config ! (i - 1))"
    have "i - 1 < length (Plugin_intervalGroups config)"
      using shape tick(2-4) by (auto simp: threads_shape_def split: if_splits)
    then have g: "set ?rules \<subseteq> set (cp_Rules config)" by (simp add: intervalGroups_rules(2))
    show ?thesis unfolding tick(1)
      by (rule repl [OF tick(3)])
        (use tick(2-4) g cap res shape in
          \<open>auto simp: threads_shape_def tokens_def batch_ok_def runRules_start_def split: if_splits\<close>)
  next
    case (stopping i)
    show ?thesis unfolding stopping(1)
      by (rule repl [OF stopping(2)])
        (use stopping(2-4) cap res shape in \<open>auto simp: threads_shape_def nth_list_update split: if_splits\<close>)
  next
    case run_return
    then show ?thesis using inv by (auto simp: plugin_inv_def)
  qed
qed

lemma batch_ok_mono: "batch_ok R stop b \<Longrightarrow> (stop \<Longrightarrow> stop') \<Longrightarrow> batch_ok R stop' b"
  by (auto simp: batch_ok_def)

lemma thread_ok_mono: "thread_ok R stop t \<Longrightarrow> (stop \<Longrightarrow> stop') \<Longrightarrow> thread_ok R stop' t"
  by (cases t) (auto intro: batch_ok_mono)

lemma plugin_env_step_inv:
  assumes "plugin_env_step s s'" and "plugin_inv config s"
  shows "plugin_inv config s'"
  using assms
  by (cases rule: plugin_env_step.cases)
    (auto simp: plugin_inv_def elim!: list.pred_mono_strong thread_ok_mono)

lemma plugin_reachable_inv:
  assumes "(plugin_any_step config)\<^sup>*\<^sup>* (NewPlugin_Run config) s"
  shows "plugin_inv config s"
  using assms
  by (induction rule: rtranclp_induct)
    (auto simp: plugin_any_step_def intro: plugin_inv_start run_step_inv plugin_env_step_inv)

subsection \<open>Shutdown\<close>

text \<open>
  After a stop every step of the goroutines brings \<^verbatim>\<open>Run\<close> closer to its end: the measure of a
  state, with \<open>n\<close> groups.
\<close>

fun worker_weight :: "worker \<Rightarrow> nat" where
  "worker_weight (WStart r) = 1"
| "worker_weight (WRun r) = 2"
| "worker_weight (WSend res) = 1"

definition batch_weight :: "nat \<Rightarrow> batch \<Rightarrow> nat" where
  "batch_weight n b =
     sum_list (map worker_weight (b_workers b)) +
     (case b_pc b of
        AtWait True \<Rightarrow> 5 + 4 * n
      | AtWait False \<Rightarrow> 0
      | AtCheck \<Rightarrow> 1
      | AtSelect \<Rightarrow> if b_rules b = [] then 6 + 4 * n else 2)"

fun thread_weight :: "nat \<Rightarrow> thread \<Rightarrow> nat" where
  "thread_weight n Waiting = 4"
| "thread_weight n (Running b) = 1 + batch_weight n b"
| "thread_weight n Finished = 0"

definition plugin_weight :: "CustomPluginConfig \<Rightarrow> plugin_state \<Rightarrow> nat" where
  "plugin_weight config s =
     sum_list (map (thread_weight (length (Plugin_intervalGroups config))) (ps_threads s)) +
     (if ps_closed s then 0 else 1)"

lemma runRules_step_weight:
  assumes "runRules_step config cap True (sem, rs, b) (sem', rs', b')"
  shows "batch_weight n b' < batch_weight n b"
  using assms by (cases rule: runRules_step.cases) (simp_all add: batch_weight_def)

lemma sum_list_map_decrease:
  fixes f :: "'a \<Rightarrow> nat"
  assumes "i < length xs" and "f x < f (xs ! i)"
  shows "sum_list (map f (xs[i := x])) < sum_list (map f xs)"
  using sum_list_map_update [OF assms(1), of f x] assms(2) by simp

lemma run_step_weight:
  assumes "run_step config s s'" and "plugin_inv config s" and "ps_stop s"
  shows "plugin_weight config s' < plugin_weight config s" and "ps_stop s'"
proof -
  let ?n = "length (Plugin_intervalGroups config)"
  have shape: "threads_shape config (ps_threads s)" using assms(2) by (simp add: plugin_inv_def)
  from assms(1) show "plugin_weight config s' < plugin_weight config s"
  proof (cases rule: run_step.cases)
    case (in_runRules i b sem rs b')
    have "batch_weight ?n b' < batch_weight ?n b"
      using runRules_step_weight in_runRules(4) assms(3) by auto
    with in_runRules sum_list_map_decrease [OF in_runRules(2), of "thread_weight ?n" "Running b'"] show ?thesis
      by (simp add: plugin_weight_def)
  next
    case (boot_done b ok)
    then show ?thesis
      by (cases ok) (simp_all add: plugin_weight_def batch_weight_def sum_list_replicate map_replicate_const)
  next
    case (group_done i b ok)
    then show ?thesis
      using sum_list_map_decrease [OF group_done(3), of "thread_weight ?n" "if ok then Waiting else Finished"]
      by (cases ok) (simp_all add: plugin_weight_def batch_weight_def)
  next
    case (tick i)
    let ?b = "runRules_start (ig_rules (Plugin_intervalGroups config ! (i - 1)))"
    have "i - 1 < ?n" using shape tick(2-4) by (auto simp: threads_shape_def split: if_splits)
    then have "b_rules ?b \<noteq> []"
      using intervalGroups_rules(1) [OF nth_mem] by (simp add: runRules_start_def)
    then have "thread_weight ?n (Running ?b) < thread_weight ?n (ps_threads s ! i)"
      using tick(4) by (simp add: batch_weight_def runRules_start_def)
    with sum_list_map_decrease [OF tick(3)] tick(1) show ?thesis by (simp add: plugin_weight_def)
  next
    case (stopping i)
    then show ?thesis
      using sum_list_map_decrease [OF stopping(2), of "thread_weight ?n" Finished] by (simp add: plugin_weight_def)
  next
    case run_return
    then show ?thesis by (simp add: plugin_weight_def)
  qed
  from assms(1,3) show "ps_stop s'" by (cases rule: run_step.cases) simp_all
qed

subsection \<open>Running a command: lemmas\<close>

definition run_failed :: "run_env \<Rightarrow> bool" where
  "run_failed env \<longleftrightarrow> \<not> re_stdoutPipe env \<or> \<not> re_stderrPipe env \<or> \<not> re_start env \<or>
     snd (re_stdout env) \<or> snd (re_stderr env) \<or> re_wait env = WaitOtherError"

lemma readFromReader_cases:
  "readFromReader r n = (if snd r then Err () else Ok (take n (fst r)))"
  by (cases r) (simp add: readFromReader_def Let_def)

lemma Plugin_run_failed:
  assumes "run_failed (exec (run_timeout config rule) (cr_Path rule) (cr_Args rule))"
  shows "\<exists>msg. Plugin_run config exec rule = Some (UnknownStatus, msg)"
  using assms by (auto simp: Plugin_run_def run_failed_def readFromReader_cases Let_def)

lemma Plugin_run_not_failed:
  fixes config exec rule
  defines "env \<equiv> exec (run_timeout config rule) (cr_Path rule) (cr_Args rule)"
  assumes "\<not> run_failed env"
  shows "Plugin_run config exec rule =
    finish_run config
      (let out = strings_TrimSpace (take maxCustomPluginBufferBytes (fst (re_stdout env)))
       in if re_killed env
          then ''Timeout when running plugin '' @ strconv_Quote (cr_Path rule) @ '': state - '' @
               re_state env @ ''. output - '' @ strconv_Quote out
          else out) (re_exitCode env)"
  using assms by (auto simp: Plugin_run_def run_failed_def readFromReader_cases Let_def)

lemma finish_run_total:
  assumes "pg_MaxOutputLength (cp_PluginGlobalConfig config) = Some n" and "0 \<le> n"
  shows "finish_run config out code =
    Some (if code = 0 then OK else if code = 1 then NonOK else UnknownStatus, take (nat n) out)"
  using assms by (auto simp: finish_run_def Let_def)

lemma Plugin_run_total:
  assumes "pg_MaxOutputLength (cp_PluginGlobalConfig config) = Some n" and "0 \<le> n"
  shows "\<exists>st msg. Plugin_run config exec rule = Some (st, msg)"
proof (cases "run_failed (exec (run_timeout config rule) (cr_Path rule) (cr_Args rule))")
  case True
  then show ?thesis using Plugin_run_failed by blast
next
  case False
  then show ?thesis
    using Plugin_run_not_failed [of exec config rule] finish_run_total [OF assms] by auto
qed

text \<open>After a stop, a goroutine that has not finished can always take a step.\<close>

lemma runRules_progress:
  assumes "pg_MaxOutputLength (cp_PluginGlobalConfig config) = Some n" and "0 \<le> n"
    and "\<not> (b_workers b = [] \<and> (\<exists>ok. b_pc b = AtWait ok))"
  shows "\<exists>x. runRules_step config cap True (sem, rs, b) x"
proof (cases "b_workers b")
  case Nil
  then show ?thesis
  proof (cases "b_pc b")
    case AtSelect
    then show ?thesis
      using all_launched [of b] acquire_stop [of b True] by (cases "b_rules b = []") blast+
  next
    case AtCheck
    then show ?thesis by (intro exI) (rule check_stop, simp_all)
  next
    case (AtWait ok)
    with assms(3) Nil show ?thesis by simp
  qed
next
  case (Cons w ws)
  then have split: "b_workers b = [] @ w # ws" by simp
  show ?thesis
  proof (cases w)
    case (WStart r)
    from worker_stop [OF split [unfolded WStart] TrueI] show ?thesis by blast
  next
    case (WRun r)
    obtain st msg where "Plugin_run config undefined r = Some (st, msg)"
      using Plugin_run_total [OF assms(1,2)] by blast
    from worker_ran [OF split [unfolded WRun] this] show ?thesis by blast
  next
    case (WSend res)
    from worker_drop [OF split [unfolded WSend] TrueI] show ?thesis by blast
  qed
qed

lemma run_progress:
  assumes "pg_MaxOutputLength (cp_PluginGlobalConfig config) = Some n" and "0 \<le> n"
    and "plugin_inv config s" and "ps_stop s" and "\<not> ps_done s"
  shows "\<exists>s'. run_step config s s'"
proof (cases "list_all (\<lambda>t. t = Finished) (ps_threads s)")
  case True
  with assms(3,5) run_return show ?thesis by (metis plugin_inv_def)
next
  case False
  then obtain i where i: "i < length (ps_threads s)" "ps_threads s ! i \<noteq> Finished"
    by (auto simp: list_all_length)
  show ?thesis
  proof (cases "ps_threads s ! i")
    case Waiting
    with i assms(4) show ?thesis using stopping by blast
  next
    case (Running b)
    show ?thesis
    proof (cases "b_workers b = [] \<and> (\<exists>ok. b_pc b = AtWait ok)")
      case False
      then obtain sem rs b' where
        "runRules_step config (plugin_capacity config) True (ps_sem s, ps_results s, b) (sem, rs, b')"
        using runRules_progress [OF assms(1,2) False] by (metis prod_cases3)
      with assms(4) have "runRules_step config (plugin_capacity config) (ps_stop s) (ps_sem s, ps_results s, b) (sem, rs, b')"
        by simp
      from in_runRules [OF i(1) Running this] show ?thesis by blast
    next
      case True
      then obtain ok where ok: "b_pc b = AtWait ok" "b_workers b = []" by blast
      show ?thesis
      proof (cases "i = 0")
        case False
        with ok i(1) Running show ?thesis using group_done by blast
      next
        case True
        have "threads_shape config (ps_threads s)" using assms(3) by (simp add: plugin_inv_def)
        with True Running i have "ps_threads s = [Running b]" by (auto simp: threads_shape_def split: if_splits)
        with ok show ?thesis using boot_done by blast
      qed
    qed
  qed (use i in simp)
qed

lemma run_steps_weight:
  assumes "(run_step config ^^ k) s s'" and "plugin_inv config s" and "ps_stop s"
  shows "k + plugin_weight config s' \<le> plugin_weight config s \<and> plugin_inv config s' \<and> ps_stop s'"
  using assms
proof (induction k arbitrary: s')
  case (Suc k)
  then obtain t where "(run_step config ^^ k) s t" "run_step config t s'" by auto
  with Suc.IH [OF this(1) Suc.prems(2,3)] show ?case
    using run_step_weight [of config t s'] run_step_inv [of config t s'] by auto
qed simp

lemma run_ends:
  assumes "pg_MaxOutputLength (cp_PluginGlobalConfig config) = Some n" and "0 \<le> n"
    and "plugin_inv config s" and "ps_stop s"
  shows "\<exists>s'. (run_step config)\<^sup>*\<^sup>* s s' \<and> ps_done s'"
  using assms(3,4)
proof (induction "plugin_weight config s" arbitrary: s rule: less_induct)
  case less
  show ?case
  proof (cases "ps_done s")
    case False
    then obtain t where t: "run_step config s t"
      using run_progress [OF assms(1,2) less.prems] by blast
    with less run_step_weight [OF t less.prems] run_step_inv [OF t less.prems(1)] show ?thesis
      by (meson converse_rtranclp_into_rtranclp)
  qed blast
qed

definition thread_workers :: "thread \<Rightarrow> nat" where
  "thread_workers t = (case t of Running b \<Rightarrow> length (b_workers b) | _ \<Rightarrow> 0)"

definition running_workers :: "plugin_state \<Rightarrow> nat" where
  "running_workers s = sum_list (map thread_workers (ps_threads s))"

lemma running_workers_le:
  assumes "plugin_inv config s"
  shows "running_workers s \<le> plugin_capacity config"
proof -
  have "thread_workers t \<le> thread_tokens t" for t
    by (cases t) (simp_all add: thread_workers_def tokens_def)
  then have "running_workers s \<le> sum_list (map thread_tokens (ps_threads s))"
    unfolding running_workers_def by (intro sum_list_mono)
  with assms show ?thesis by (simp add: plugin_inv_def)
qed

lemma no_workers_no_results:
  assumes "plugin_any_step config s s'" and "plugin_inv config s" and "plugin_capacity config = 0"
    and "ps_results s = []"
  shows "ps_results s' = []"
proof -
  have "sum_list (map thread_tokens (ps_threads s)) = 0" using assms(2,3) by (auto simp: plugin_inv_def)
  then have "\<forall>t \<in> set (ps_threads s). thread_tokens t = 0" by (simp add: sum_list_eq_0_iff)
  then have none: "b_workers b = []" if "i < length (ps_threads s)" "ps_threads s ! i = Running b" for i b
    using that nth_mem [of i "ps_threads s"] by (force simp: tokens_def)
  from assms(1) consider "run_step config s s'" | "plugin_env_step s s'" by (auto simp: plugin_any_step_def)
  then show ?thesis
  proof cases
    case 1
    then show ?thesis
    proof (cases rule: run_step.cases)
      case (in_runRules i b sem rs b')
      from in_runRules(4) have "rs = []"
        by (cases rule: runRules_step.cases) (use assms(4) none [OF in_runRules(2,3)] in auto)
      with in_runRules show ?thesis by simp
    qed (use assms(4) in simp_all)
  next
    case 2
    then show ?thesis using assms(4) by (cases rule: plugin_env_step.cases) auto
  qed
qed

subsection \<open>Properties\<close>

text \<open>
  The groups of rules are the distinct intervals in the order of their first rule, each with
  exactly the rules of that interval in the order of the configuration.
\<close>

theorem plugin_groups_partition:
  "Plugin_intervalGroups config =
     map (\<lambda>i. \<lparr>ig_interval = i, ig_rules = filter (\<lambda>r. effectiveInterval config r = i) (cp_Rules config)\<rparr>)
       (first_occurrences (map (effectiveInterval config) (cp_Rules config)))"
  by (simp add: intervalGroups_spec groups_spec_def)

text \<open>
  C7: however the goroutines, the tickers, the monitor and a stop interleave, no more commands
  run at once than the configured concurrency, every result in the channel is of a configured
  rule, and the channel is closed only once the plugin was told to stop and no goroutine is left
  that could send on it.
\<close>

theorem plugin_goroutines_safe:
  assumes "(plugin_any_step config)\<^sup>*\<^sup>* (NewPlugin_Run config) s"
    and "pg_Concurrency (cp_PluginGlobalConfig config) = Some c"
  shows "running_workers s \<le> nat c \<and>
    (\<forall>r \<in> set (ps_results s). res_Rule r \<in> set (cp_Rules config)) \<and>
    (ps_closed s \<longrightarrow> ps_stop s \<and> (\<forall>t \<in> set (ps_threads s). t = Finished))"
  using plugin_reachable_inv [OF assms(1)] running_workers_le [OF plugin_reachable_inv [OF assms(1)]] assms(2)
  by (auto simp: plugin_inv_def plugin_capacity_def list_all_iff)

text \<open>
  C9: once told to stop, in whatever state it is and however its goroutines interleave, the
  plugin takes a bounded number of steps, is never stuck before it has closed its channel and
  reported itself done, and so gets there.
\<close>

theorem plugin_stop_terminates:
  assumes "(plugin_any_step config)\<^sup>*\<^sup>* (NewPlugin_Run config) s" and "ps_stop s"
    and "pg_MaxOutputLength (cp_PluginGlobalConfig config) = Some n" and "0 \<le> n"
  shows "(\<forall>k s'. (run_step config ^^ k) s s' \<longrightarrow>
            k \<le> plugin_weight config s \<and> (ps_done s' \<or> (\<exists>s''. run_step config s' s''))) \<and>
         (\<exists>s'. (run_step config)\<^sup>*\<^sup>* s s' \<and> ps_done s')"
proof -
  note inv = plugin_reachable_inv [OF assms(1)]
  have "k \<le> plugin_weight config s \<and> (ps_done s' \<or> (\<exists>s''. run_step config s' s''))"
    if "(run_step config ^^ k) s s'" for k s'
    using run_steps_weight [OF that inv assms(2)] run_progress [OF assms(3,4)] by fastforce
  with run_ends [OF assms(3,4) inv assms(2)] show ?thesis by blast
qed


text \<open>
  A configuration with concurrency 0, which the validation accepts, never runs a rule: no
  result ever reaches the monitor.
\<close>

theorem plugin_concurrency_zero_silent:
  assumes "pg_Concurrency (cp_PluginGlobalConfig config) = Some 0"
    and "(plugin_any_step config)\<^sup>*\<^sup>* (NewPlugin_Run config) s"
  shows "ps_results s = [] \<and> running_workers s = 0"
proof -
  have cap: "plugin_capacity config = 0" using assms(1) by (simp add: plugin_capacity_def)
  from assms(2) have "ps_results s = []"
  proof (induction rule: rtranclp_induct)
    case base
    show ?case by (simp add: NewPlugin_Run_def)
  next
    case (step t u)
    then show ?case using no_workers_no_results [OF step(2) plugin_reachable_inv cap] by blast
  qed
  with running_workers_le [OF plugin_reachable_inv [OF assms(2)]] cap show ?thesis by simp
qed

subsection \<open>Witnesses\<close>

definition sample_exec :: "duration \<Rightarrow> string \<Rightarrow> string list \<Rightarrow> run_env" where
  "sample_exec deadline path args =
     \<lparr>re_stdoutPipe = True, re_stderrPipe = True, re_start = True, re_stdout = ('' out of sync '', False),
      re_stderr = ('''', False), re_wait = WaitExitError, re_killed = False, re_state = ''exit status 1'',
      re_exitCode = 1\<rparr>"


text \<open>The sample configuration after its first rule has been launched, and after a stop then.\<close>

definition sample_launched :: plugin_state where
  "sample_launched = (NewPlugin_Run sample_applied)
     \<lparr>ps_sem := 1,
      ps_threads := [Running \<lparr>b_rules = [(sample_custom_rule Temp)\<lparr>cr_Timeout := Some (5 * Second)\<rparr>],
        b_pc = AtSelect, b_workers = [WStart ((sample_custom_rule Perm)\<lparr>cr_Timeout := Some (5 * Second)\<rparr>)]\<rparr>]\<rparr>"

lemma sample_rules:
  "cp_Rules sample_applied = map (\<lambda>t. (sample_custom_rule t)\<lparr>cr_Timeout := Some (5 * Second)\<rparr>) [Perm, Temp]"
  by (simp add: sample_applied_def)

lemma sample_globals:
  "pg_Concurrency (cp_PluginGlobalConfig sample_applied) = Some 3"
  "pg_MaxOutputLength (cp_PluginGlobalConfig sample_applied) = Some 80"
  by code_simp+

lemma sample_launched_reachable:
  "(plugin_any_step sample_applied)\<^sup>*\<^sup>* (NewPlugin_Run sample_applied) sample_launched"
proof -
  let ?c = sample_applied and ?s = "NewPlugin_Run sample_applied"
  let ?b = "runRules_start (cp_Rules ?c)"
  let ?t = "?s\<lparr>ps_sem := 1, ps_results := [], ps_threads := [Running (?b\<lparr>b_pc := AtCheck\<rparr>)]\<rparr>"
  have ts: "ps_threads ?s = [Running ?b]" by (simp add: NewPlugin_Run_def intervalGroups_Nil sample_rules)
  have "runRules_step ?c (plugin_capacity ?c) (ps_stop ?s) (ps_sem ?s, ps_results ?s, ?b) (Suc (ps_sem ?s), ps_results ?s, ?b\<lparr>b_pc := AtCheck\<rparr>)"
    by (rule acquire) (simp_all add: runRules_start_def sample_rules plugin_capacity_def sample_globals NewPlugin_Run_def)
  from in_runRules [of 0, OF _ _ this] ts have "run_step ?c ?s ?t"
    by (simp add: NewPlugin_Run_def)
  moreover have "runRules_step ?c (plugin_capacity ?c) (ps_stop ?t) (ps_sem ?t, ps_results ?t, ?b\<lparr>b_pc := AtCheck\<rparr>)
      (ps_sem ?t, ps_results ?t, (?b\<lparr>b_pc := AtCheck\<rparr>)\<lparr>b_rules := tl (cp_Rules ?c), b_pc := AtSelect,
        b_workers := b_workers (?b\<lparr>b_pc := AtCheck\<rparr>) @ [WStart (hd (cp_Rules ?c))]\<rparr>)"
    by (rule launch) (simp_all add: runRules_start_def sample_rules NewPlugin_Run_def)
  from in_runRules [of 0, OF _ _ this] have "run_step ?c ?t sample_launched"
    by (simp add: sample_launched_def sample_rules runRules_start_def NewPlugin_Run_def)
  ultimately have "plugin_any_step ?c ?s ?t" "plugin_any_step ?c ?t sample_launched"
    by (simp_all only: plugin_any_step_def simp_thms)
  then show ?thesis by (rule converse_rtranclp_into_rtranclp [OF _ r_into_rtranclp])
qed

lemma sample_stopped_reachable:
  "(plugin_any_step sample_applied)\<^sup>*\<^sup>* (NewPlugin_Run sample_applied) (sample_launched\<lparr>ps_stop := True\<rparr>)"
proof -
  have "plugin_env_step sample_launched (sample_launched\<lparr>ps_stop := True\<rparr>)"
    by (rule env_stop) (simp add: sample_launched_def NewPlugin_Run_def)
  then have "plugin_any_step sample_applied sample_launched (sample_launched\<lparr>ps_stop := True\<rparr>)"
    by (simp only: plugin_any_step_def simp_thms)
  with sample_launched_reachable show ?thesis by (rule rtranclp.rtrancl_into_rtrancl)
qed

theorem plugin_goroutines_safe_witness:
  "running_workers sample_launched = 1 \<and> running_workers sample_launched \<le> 3"
proof -
  have "running_workers sample_launched = 1"
    by (simp add: running_workers_def thread_workers_def sample_launched_def)
  with plugin_goroutines_safe [OF sample_launched_reachable sample_globals(1)] show ?thesis by simp
qed

theorem plugin_stop_terminates_witness:
  "\<exists>s'. (run_step sample_applied)\<^sup>*\<^sup>* (sample_launched\<lparr>ps_stop := True\<rparr>) s' \<and> ps_done s'"
  using plugin_stop_terminates [OF sample_stopped_reachable _ sample_globals(2)] by simp

definition sample_unlaunchable :: CustomPluginConfig where
  "sample_unlaunchable = sample_applied
     \<lparr>cp_PluginGlobalConfig := (cp_PluginGlobalConfig sample_applied)\<lparr>pg_Concurrency := Some 0\<rparr>\<rparr>"

theorem plugin_concurrency_zero_silent_witness:
  "CustomPluginConfig_Validate (\<lambda>_. False) sample_unlaunchable = None \<and> cp_Rules sample_unlaunchable \<noteq> [] \<and>
   (\<exists>s. (plugin_any_step sample_unlaunchable)\<^sup>*\<^sup>* (NewPlugin_Run sample_unlaunchable) s \<and> ps_stop s \<and> ps_results s = [])"
proof -
  let ?s = "NewPlugin_Run sample_unlaunchable"
  have "plugin_env_step ?s (?s\<lparr>ps_stop := True\<rparr>)" by (rule env_stop) (simp add: NewPlugin_Run_def)
  then have reach: "(plugin_any_step sample_unlaunchable)\<^sup>*\<^sup>* ?s (?s\<lparr>ps_stop := True\<rparr>)"
    by (simp add: plugin_any_step_def r_into_rtranclp)
  have "CustomPluginConfig_Validate (\<lambda>_. False) sample_unlaunchable = None" by code_simp
  moreover have "pg_Concurrency (cp_PluginGlobalConfig sample_unlaunchable) = Some 0"
    by (simp add: sample_unlaunchable_def)
  from plugin_concurrency_zero_silent [OF this reach] reach
  have "\<exists>s. (plugin_any_step sample_unlaunchable)\<^sup>*\<^sup>* ?s s \<and> ps_stop s \<and> ps_results s = []"
    by (intro exI [of _ "?s\<lparr>ps_stop := True\<rparr>"]) simp
  moreover have "cp_Rules sample_unlaunchable \<noteq> []" by (simp add: sample_unlaunchable_def sample_rules)
  ultimately show ?thesis by blast
qed

end
