(* ===== verification/Custom_Plugin_Monitor.thy ===== *)
theory Custom_Plugin_Monitor
  imports Plugin_Runner Problem_Metrics
begin

text \<open>
  The custom plugin monitor (\<^verbatim>\<open>pkg/custompluginmonitor/custom_plugin_monitor.go\<close>): its
  construction, the status for a plugin result with its five scenarios, and the main loop as a
  step relation over the channel of results.

  The statuses sent are a list, oldest first, and hold the conditions as they are when the
  status is sent. The pointers of the configuration are set by \<^verbatim>\<open>ApplyConfiguration\<close> before
  the monitor exists; a flag counts as on when its pointer is set and true.
\<close>

record customPluginMonitor =
  cpm_configPath :: string
  cpm_config :: CustomPluginConfig
  cpm_conditions :: "Condition list"
  cpm_statusChan :: "Status list"

datatype ('i, 'j, 'e) plugin_fatal =
    PluginReadFailed 'i
  | PluginUnmarshalFailed 'j
  | PluginApplyFailed plugin_config_error
  | PluginValidateFailed plugin_config_error
  | PluginPanicked
  | PluginMetricsFailed "'e pmm_error"

definition plugin_initializeProblemMetricsOrDie ::
    "(labels \<Rightarrow> int64 \<Rightarrow> 'm \<Rightarrow> 'e option \<times> 'm) \<Rightarrow> CustomRule list \<Rightarrow> 'm ProblemMetricsManager
      \<Rightarrow> 'e pmm_error + 'm ProblemMetricsManager" where
  "plugin_initializeProblemMetricsOrDie Record rules pmm =
     fold_res (\<lambda>rule. init_rule_metrics Record (cr_Type rule = Perm, cr_Condition rule, cr_Reason rule)) rules pmm"

definition NewCustomPluginMonitorOrDie ::
    "(string \<Rightarrow> 'i + string) \<Rightarrow> (string \<Rightarrow> 'j + CustomPluginConfig) \<Rightarrow> (string \<Rightarrow> bool) \<Rightarrow>
     (labels \<Rightarrow> int64 \<Rightarrow> 'm \<Rightarrow> 'e option \<times> 'm) \<Rightarrow> string \<Rightarrow> 'm ProblemMetricsManager \<Rightarrow>
     ('i, 'j, 'e) plugin_fatal + customPluginMonitor \<times> 'm ProblemMetricsManager" where
  "NewCustomPluginMonitorOrDie ReadFile Unmarshal IsNotExist Record configPath pmm =
     (case ReadFile configPath of Inl err \<Rightarrow> Err (PluginReadFailed err) | Inr f \<Rightarrow>
      case Unmarshal f of Inl err \<Rightarrow> Err (PluginUnmarshalFailed err) | Inr config \<Rightarrow>
      case CustomPluginConfig_ApplyConfiguration config of
        Inl err \<Rightarrow> Err (PluginApplyFailed err) | Inr config \<Rightarrow>
      case CustomPluginConfig_Validate IsNotExist config of
        Some err \<Rightarrow> Err (PluginValidateFailed err) | None \<Rightarrow>
      case NewPlugin config of None \<Rightarrow> Err PluginPanicked | Some _ \<Rightarrow>
      let c = \<lparr>cpm_configPath = configPath, cpm_config = config, cpm_conditions = [], cpm_statusChan = []\<rparr> in
      if cp_EnableMetricsReporting config = Some True
      then (case plugin_initializeProblemMetricsOrDie Record (cp_Rules config) pmm of
              Inl err \<Rightarrow> Err (PluginMetricsFailed err)
            | Inr pmm \<Rightarrow> Ok (c, pmm))
      else Ok (c, pmm))"

definition toConditionStatus :: "PluginStatus \<Rightarrow> ConditionStatus" where
  "toConditionStatus s = (if s = OK then CondFalse else if s = NonOK then CondTrue else CondUnknown)"

definition plugin_initialConditions :: "(nat \<Rightarrow> gotime) \<Rightarrow> Condition list \<Rightarrow> Condition list" where
  "plugin_initialConditions now defaults =
     map (\<lambda>(i, c). c\<lparr>c_Status := CondFalse, c_Transition := now i\<rparr>) (enumerate 0 defaults)"

definition customPluginMonitor_initializeConditions ::
    "(nat \<Rightarrow> gotime) \<Rightarrow> customPluginMonitor \<Rightarrow> customPluginMonitor" where
  "customPluginMonitor_initializeConditions now c =
     c\<lparr>cpm_conditions := plugin_initialConditions now (cp_DefaultConditions (cpm_config c))\<rparr>"

definition customPluginMonitor_sendInitialStatus :: "customPluginMonitor \<Rightarrow> customPluginMonitor" where
  "customPluginMonitor_sendInitialStatus c =
     c\<lparr>cpm_statusChan := cpm_statusChan c @
         [\<lparr>s_Source = cp_Source (cpm_config c), s_Events = [], s_Conditions = cpm_conditions c\<rparr>]\<rparr>"

text \<open>
  The new reason and message of a condition, or nothing when the condition stays: scenarios 1 to 5
  of the code.
\<close>

definition new_reason_message ::
    "bool \<Rightarrow> string \<Rightarrow> string \<Rightarrow> PluginResult \<Rightarrow> ConditionStatus \<Rightarrow> Condition \<Rightarrow> (string \<times> string) option" where
  "new_reason_message messageUpdate defaultReason defaultMessage result status condition =
     (if c_Status condition = CondTrue \<and> status \<noteq> CondTrue
      then Some (defaultReason, if status = CondFalse then defaultMessage else res_Message result)
      else if c_Status condition \<noteq> CondTrue \<and> status = CondTrue
      then Some (cr_Reason (res_Rule result), res_Message result)
      else if c_Status condition \<noteq> status
      then Some (defaultReason, if status = CondFalse then defaultMessage else res_Message result)
      else if c_Status condition = CondTrue \<and> status = CondTrue \<and>
              (c_Reason condition \<noteq> cr_Reason (res_Rule result) \<or>
               messageUpdate \<and> c_Message condition \<noteq> res_Message result)
      then Some (cr_Reason (res_Rule result), res_Message result)
      else None)"

text \<open>
  The part of \<^verbatim>\<open>generateStatus\<close> for a permanent rule: the conditions, the events of active and
  those of inactive problems.
\<close>

definition plugin_change ::
    "CustomPluginConfig \<Rightarrow> PluginResult \<Rightarrow> gotime \<Rightarrow> Condition list \<Rightarrow> Condition list \<times> Event list \<times> Event list" where
  "plugin_change config result timestamp conditions =
     (let t = cr_Condition (res_Rule result) in
      case condition_of t conditions of
        None \<Rightarrow> (conditions, [], [])
      | Some condition \<Rightarrow>
          let (defaultReason, defaultMessage) =
                (case condition_of t (cp_DefaultConditions config) of
                   None \<Rightarrow> ([], []) | Some d \<Rightarrow> (c_Reason d, c_Message d));
              status = toConditionStatus (res_ExitStatus result);
              messageUpdate =
                (pg_EnableMessageChangeBasedConditionUpdate (cp_PluginGlobalConfig config) = Some True)
          in case new_reason_message messageUpdate defaultReason defaultMessage result status condition of
               None \<Rightarrow> (conditions, [], [])
             | Some (newReason, newMessage) \<Rightarrow>
                 let condition' = condition\<lparr>c_Transition := timestamp, c_Status := status,
                                             c_Reason := newReason, c_Message := newMessage\<rparr>;
                     updateEvent = GenerateConditionChangeEvent (c_Type condition) status
                                     newReason newMessage timestamp
                 in (update_first (\<lambda>c. c_Type c = t) (\<lambda>_. condition') conditions,
                     if status = CondTrue then [updateEvent] else [],
                     if status = CondTrue then [] else [updateEvent]))"

definition plugin_parts ::
    "CustomPluginConfig \<Rightarrow> PluginResult \<Rightarrow> gotime \<Rightarrow> Condition list \<Rightarrow> Condition list \<times> Event list \<times> Event list" where
  "plugin_parts config result timestamp conditions =
     (if cr_Type (res_Rule result) = Temp
      then (conditions,
            if res_ExitStatus result \<ge> NonOK
            then [\<lparr>e_Severity = Warn, e_Timestamp = timestamp, e_Reason = cr_Reason (res_Rule result),
                   e_Message = res_Message result\<rparr>]
            else [], [])
      else plugin_change config result timestamp conditions)"

definition customPluginMonitor_generateStatus ::
    "(labels \<Rightarrow> int64 \<Rightarrow> 'm \<Rightarrow> 'e option \<times> 'm) \<Rightarrow> gotime \<Rightarrow> PluginResult \<Rightarrow> customPluginMonitor
      \<Rightarrow> 'm ProblemMetricsManager \<Rightarrow> Status \<times> customPluginMonitor \<times> 'm ProblemMetricsManager" where
  "customPluginMonitor_generateStatus Record timestamp result c pmm =
     (case plugin_parts (cpm_config c) result timestamp (cpm_conditions c) of
        (conditions, active, inactive) \<Rightarrow>
          (\<lparr>s_Source = cp_Source (cpm_config c), s_Events = active @ inactive, s_Conditions = conditions\<rparr>,
           c\<lparr>cpm_conditions := conditions\<rparr>,
           if cp_EnableMetricsReporting (cpm_config c) = Some True
           then gauge_conditions Record conditions (count_events Record active pmm)
           else pmm))"

subsection \<open>The main loop\<close>

text \<open>
  \<^verbatim>\<open>monitorLoop\<close>: the start (initial conditions and, unless it is to be skipped, the initial
  status) and the steps of the loop. \<open>pl_results\<close> is the channel of results and \<open>pl_closed\<close>
  whether it is closed, \<open>pl_stop\<close> and \<open>pl_done\<close> the two channels of the monitor's tomb,
  \<open>pl_pluginStopped\<close> whether \<^verbatim>\<open>plugin.Stop\<close> has been called. \<open>pl_received\<close> records the results
  taken from the channel, with the time of their status. The last three rules are the
  environment: the plugin sends a result or closes the channel, \<^verbatim>\<open>Stop\<close> is called.
\<close>

record 'm pluginLoop =
  pl_mon :: customPluginMonitor
  pl_pmm :: "'m ProblemMetricsManager"
  pl_results :: "PluginResult list"
  pl_closed :: bool
  pl_stop :: bool
  pl_done :: bool
  pl_pluginStopped :: bool
  pl_returned :: bool
  pl_received :: "(gotime \<times> PluginResult) list"

definition plugin_start :: "(nat \<Rightarrow> gotime) \<Rightarrow> customPluginMonitor \<Rightarrow> 'm ProblemMetricsManager \<Rightarrow> 'm pluginLoop" where
  "plugin_start now c pmm =
     (let c = customPluginMonitor_initializeConditions now c;
          c = (if pg_SkipInitialStatus (cp_PluginGlobalConfig (cpm_config c)) = Some True then c
               else customPluginMonitor_sendInitialStatus c)
      in \<lparr>pl_mon = c, pl_pmm = pmm, pl_results = [], pl_closed = False, pl_stop = False, pl_done = False,
          pl_pluginStopped = False, pl_returned = False, pl_received = []\<rparr>)"

inductive plugin_step ::
    "(labels \<Rightarrow> int64 \<Rightarrow> 'm \<Rightarrow> 'e option \<times> 'm) \<Rightarrow> 'm pluginLoop \<Rightarrow> 'm pluginLoop \<Rightarrow> bool"
  for Record where
  plugin_recv: "\<not> pl_returned s \<Longrightarrow> pl_results s = result # rest \<Longrightarrow>
     customPluginMonitor_generateStatus Record timestamp result (pl_mon s) (pl_pmm s) = (status, c, pmm) \<Longrightarrow>
     plugin_step Record s
       (s\<lparr>pl_mon := c\<lparr>cpm_statusChan := cpm_statusChan c @ [status]\<rparr>, pl_pmm := pmm, pl_results := rest,
          pl_received := pl_received s @ [(timestamp, result)]\<rparr>)"
| plugin_closed: "\<not> pl_returned s \<Longrightarrow> pl_results s = [] \<Longrightarrow> pl_closed s \<Longrightarrow>
     plugin_step Record s (s\<lparr>pl_returned := True\<rparr>)"
| plugin_stopping: "\<not> pl_returned s \<Longrightarrow> pl_stop s \<Longrightarrow>
     plugin_step Record s (s\<lparr>pl_pluginStopped := True, pl_done := True, pl_returned := True\<rparr>)"
| plugin_env_result: "\<not> pl_closed s \<Longrightarrow>
     plugin_step Record s (s\<lparr>pl_results := pl_results s @ [result]\<rparr>)"
| plugin_env_close: "\<not> pl_closed s \<Longrightarrow> plugin_step Record s (s\<lparr>pl_closed := True\<rparr>)"
| plugin_env_stop: "\<not> pl_stop s \<Longrightarrow> plugin_step Record s (s\<lparr>pl_stop := True\<rparr>)"

text \<open>\<^verbatim>\<open>Start\<close> runs the plugin and the loop and cannot fail; \<^verbatim>\<open>Stop\<close> panics when it is called again.\<close>

definition customPluginMonitor_Start ::
    "(nat \<Rightarrow> gotime) \<Rightarrow> customPluginMonitor \<Rightarrow> 'm ProblemMetricsManager \<Rightarrow> plugin_state \<times> 'm pluginLoop" where
  "customPluginMonitor_Start now c pmm = (NewPlugin_Run (cpm_config c), plugin_start now c pmm)"

definition customPluginMonitor_Stop :: "'m pluginLoop \<Rightarrow> 'm pluginLoop option" where
  "customPluginMonitor_Stop s = (if pl_stop s then None else Some (s\<lparr>pl_stop := True\<rparr>))"

lemma customPluginMonitor_Stop_step: "customPluginMonitor_Stop s = Some s' \<Longrightarrow> plugin_step Record s s'"
  by (auto simp: customPluginMonitor_Stop_def intro: plugin_env_stop split: if_splits)

text \<open>
  When the channel of results was closed first, the loop has returned without telling the tomb, and nothing the
  monitor does afterwards tells it: \<^verbatim>\<open>Stop\<close> would wait forever. The plugin runner closes the channel only after
  the monitor stopped it, so this does not happen.
\<close>

lemma stop_after_close_hangs:
  assumes "(plugin_step Record)\<^sup>*\<^sup>* s s'" "pl_returned s" "\<not> pl_done s"
  shows "pl_returned s' \<and> \<not> pl_done s'"
  using assms(1) by (induction rule: rtranclp_induct) (use assms(2,3) in \<open>auto elim!: plugin_step.cases\<close>)

subsection \<open>Conditions\<close>

text \<open>
  A condition and the default condition at its place: false with the default reason and
  message, unknown with the default reason, or true for the reason of a rule for it.
\<close>

definition plugin_condition_ok :: "CustomRule list \<Rightarrow> Condition \<Rightarrow> Condition \<Rightarrow> bool" where
  "plugin_condition_ok rules d c \<longleftrightarrow>
     c_Type c = c_Type d \<and>
     (c_Status c = CondFalse \<and> c_Reason c = c_Reason d \<and> c_Message c = c_Message d \<or>
      c_Status c = CondUnknown \<and> c_Reason c = c_Reason d \<or>
      c_Status c = CondTrue \<and>
        (\<exists>rule \<in> set rules. cr_Type rule \<noteq> Temp \<and> cr_Condition rule = c_Type c \<and> cr_Reason rule = c_Reason c))"

lemma plugin_condition_ok_Type: "plugin_condition_ok rules d c \<Longrightarrow> c_Type c = c_Type d"
  by (simp add: plugin_condition_ok_def)

text \<open>Updating the first condition of a type next to the first default of that type.\<close>

lemma update_first_parallel:
  assumes "list_all2 P ds cs" and "\<And>d c. P d c \<Longrightarrow> c_Type c = c_Type d"
    and "condition_of t cs = Some c" and "\<And>d. condition_of t ds = Some d \<Longrightarrow> P d c \<Longrightarrow> P d c'"
  shows "list_all2 P ds (update_first (\<lambda>c. c_Type c = t) (\<lambda>_. c') cs)"
  using assms(1,3,4)
proof (induction ds cs rule: list_all2_induct)
  case Nil
  then show ?case by simp
next
  case (Cons d ds x cs)
  note ty = assms(2) [OF Cons.hyps(1)]
  show ?case
  proof (cases "c_Type x = t")
    case True
    then have "x = c" "condition_of t (d # ds) = Some d" using Cons.prems(1) ty by (simp_all add: condition_of_def)
    with Cons.hyps Cons.prems(2) True show ?thesis by simp
  next
    case False
    then have "condition_of t cs = Some c" "condition_of t (d # ds) = condition_of t ds"
      using Cons.prems(1) ty by (simp_all add: condition_of_def)
    with Cons.IH Cons.prems(2) Cons.hyps False show ?thesis by simp
  qed
qed

lemma condition_of_Some: "condition_of t cs = Some c \<Longrightarrow> c \<in> set cs \<and> c_Type c = t"
  unfolding condition_of_def by (drule find_Some_set) simp

lemma condition_of_None_iff: "condition_of t cs = None \<longleftrightarrow> t \<notin> c_Type ` set cs"
  by (induction cs) (auto simp: condition_of_def)

lemma condition_of_parallel:
  assumes "list_all2 P ds cs" and "\<And>d c. P d c \<Longrightarrow> c_Type c = c_Type d" and "condition_of t cs = Some c"
  shows "\<exists>d. condition_of t ds = Some d \<and> P d c"
  using assms(1,3)
  by (induction ds cs rule: list_all2_induct) (auto simp: condition_of_def assms(2) split: if_splits)

lemma plugin_change_ok:
  assumes ok: "list_all2 (plugin_condition_ok rules) (cp_DefaultConditions config) cs"
    and rule: "res_Rule result \<in> set rules" "cr_Type (res_Rule result) \<noteq> Temp"
    and change: "plugin_change config result ts cs = (cs', active, inactive)"
  shows "list_all2 (plugin_condition_ok rules) (cp_DefaultConditions config) cs'"
proof (cases "condition_of (cr_Condition (res_Rule result)) cs")
  case None
  with change ok show ?thesis by (simp add: plugin_change_def)
next
  case (Some c)
  let ?t = "cr_Condition (res_Rule result)" and ?st = "toConditionStatus (res_ExitStatus result)"
  obtain d where d: "condition_of ?t (cp_DefaultConditions config) = Some d" "plugin_condition_ok rules d c"
    using condition_of_parallel [OF ok plugin_condition_ok_Type [of rules] Some] by blast
  have ty: "c_Type c = ?t" "c_Type d = ?t" using condition_of_Some [OF Some] d(2) by (simp_all add: plugin_condition_ok_def)
  let ?upd = "pg_EnableMessageChangeBasedConditionUpdate (cp_PluginGlobalConfig config) = Some True"
  show ?thesis
  proof (cases "new_reason_message ?upd (c_Reason d) (c_Message d) result ?st c")
    case None
    with change ok Some d show ?thesis by (simp add: plugin_change_def)
  next
    case rm: (Some rm)
    obtain r m where rm2: "rm = (r, m)" by (cases rm)
    let ?c = "c\<lparr>c_Transition := ts, c_Status := ?st, c_Reason := r, c_Message := m\<rparr>"
    have cs': "cs' = update_first (\<lambda>c. c_Type c = ?t) (\<lambda>_. ?c) cs"
      using change Some d rm rm2 by (simp add: plugin_change_def Let_def)
    have "?st = CondFalse \<or> ?st = CondUnknown \<or> ?st = CondTrue" by (simp add: toConditionStatus_def)
    then have "plugin_condition_ok rules d ?c"
      using rm rm2 rule ty by (auto simp: new_reason_message_def plugin_condition_ok_def split: if_splits)
    then show ?thesis
      unfolding cs' using update_first_parallel [OF ok plugin_condition_ok_Type [of rules] Some] d(1) by simp
  qed
qed

lemma plugin_parts_ok:
  assumes "list_all2 (plugin_condition_ok rules) (cp_DefaultConditions config) cs"
    and "res_Rule result \<in> set rules"
    and "plugin_parts config result ts cs = (cs', active, inactive)"
  shows "list_all2 (plugin_condition_ok rules) (cp_DefaultConditions config) cs'"
  using assms plugin_change_ok [OF assms(1,2)] by (auto simp: plugin_parts_def split: if_splits)

lemma plugin_initialConditions_ok: "list_all2 (plugin_condition_ok rules) ds (plugin_initialConditions now ds)"
  by (simp add: list_all2_conv_all_nth plugin_initialConditions_def nth_enumerate_eq plugin_condition_ok_def)

lemma plugin_initialConditions_types: "map c_Type (plugin_initialConditions now ds) = map c_Type ds"
  by (rule nth_equalityI) (simp_all add: plugin_initialConditions_def nth_enumerate_eq)

lemma plugin_parts_types:
  assumes "plugin_parts config result ts cs = (cs', active, inactive)"
  shows "map c_Type cs' = map c_Type cs"
proof -
  have "map c_Type (update_first (\<lambda>c. c_Type c = t) (\<lambda>_. c\<lparr>c_Transition := ts, c_Status := st, c_Reason := r, c_Message := m\<rparr>) cs)
      = map c_Type cs" if "condition_of t cs = Some c" for t c st r m
    using condition_of_Some [OF that] by (intro map_update_first) simp
  with assms show ?thesis
    by (auto simp: plugin_parts_def plugin_change_def Let_def split: if_splits option.splits prod.splits)
qed

subsection \<open>The status of one result\<close>

text \<open>Whether a result changes a condition, and the condition it leaves.\<close>

definition plugin_changes :: "bool \<Rightarrow> PluginResult \<Rightarrow> Condition \<Rightarrow> bool" where
  "plugin_changes messageUpdate result c \<longleftrightarrow>
     c_Status c \<noteq> toConditionStatus (res_ExitStatus result) \<or>
     (c_Status c = CondTrue \<and>
      (c_Reason c \<noteq> cr_Reason (res_Rule result) \<or> messageUpdate \<and> c_Message c \<noteq> res_Message result))"

definition plugin_condition_after :: "gotime \<Rightarrow> Condition \<Rightarrow> PluginResult \<Rightarrow> Condition \<Rightarrow> Condition" where
  "plugin_condition_after ts d result c =
     (let status = toConditionStatus (res_ExitStatus result)
      in \<lparr>c_Type = c_Type c, c_Status = status, c_Transition = ts,
          c_Reason = (if status = CondTrue then cr_Reason (res_Rule result) else c_Reason d),
          c_Message = (if status = CondFalse then c_Message d else res_Message result)\<rparr>)"

lemma new_reason_message_iff:
  "new_reason_message mu (c_Reason d) (c_Message d) result (toConditionStatus (res_ExitStatus result)) c =
     (if plugin_changes mu result c
      then Some (c_Reason (plugin_condition_after ts d result c), c_Message (plugin_condition_after ts d result c))
      else None)"
  by (auto simp: new_reason_message_def plugin_changes_def plugin_condition_after_def Let_def)

lemma condition_of_update_first:
  assumes "condition_of t cs = Some c" and "c_Type c' = t"
  shows "condition_of u (update_first (\<lambda>c. c_Type c = t) (\<lambda>_. c') cs) = (if u = t then Some c' else condition_of u cs)"
  using assms by (induction cs) (auto simp: condition_of_def split: if_splits)

lemma plugin_change_cases:
  assumes "plugin_change config result ts cs = (cs', active, inactive)"
    and "condition_of (cr_Condition (res_Rule result)) cs = Some c"
    and "condition_of (cr_Condition (res_Rule result)) (cp_DefaultConditions config) = Some d"
    and "mu \<longleftrightarrow> pg_EnableMessageChangeBasedConditionUpdate (cp_PluginGlobalConfig config) = Some True"
  obtains (same) "\<not> plugin_changes mu result c" "cs' = cs" "active = []" "inactive = []"
  | (changed) "plugin_changes mu result c"
      "cs' = update_first (\<lambda>c. c_Type c = cr_Condition (res_Rule result))
               (\<lambda>_. plugin_condition_after ts d result c) cs"
      "active @ inactive =
         [GenerateConditionChangeEvent (cr_Condition (res_Rule result)) (toConditionStatus (res_ExitStatus result))
            (c_Reason (plugin_condition_after ts d result c)) (c_Message (plugin_condition_after ts d result c)) ts]"
      "active = [] \<longleftrightarrow> toConditionStatus (res_ExitStatus result) \<noteq> CondTrue"
proof (cases "plugin_changes mu result c")
  case False
  then have "new_reason_message mu (c_Reason d) (c_Message d) result (toConditionStatus (res_ExitStatus result)) c = None"
    by (simp add: new_reason_message_iff [where ts = ts])
  with assms have "cs' = cs" "active = []" "inactive = []" by (simp_all add: plugin_change_def)
  with False show ?thesis by (rule same)
next
  case True
  let ?c = "plugin_condition_after ts d result c"
  have rm: "new_reason_message mu (c_Reason d) (c_Message d) result (toConditionStatus (res_ExitStatus result)) c
      = Some (c_Reason ?c, c_Message ?c)"
    using True by (simp add: new_reason_message_iff [where ts = ts])
  have ty: "c_Type c = cr_Condition (res_Rule result)" using condition_of_Some [OF assms(2)] by simp
  have "?c = c\<lparr>c_Transition := ts, c_Status := toConditionStatus (res_ExitStatus result),
                c_Reason := c_Reason ?c, c_Message := c_Message ?c\<rparr>"
    by (simp add: plugin_condition_after_def Let_def)
  with assms rm ty have
    "cs' = update_first (\<lambda>c. c_Type c = cr_Condition (res_Rule result)) (\<lambda>_. ?c) cs"
    "active @ inactive =
       [GenerateConditionChangeEvent (cr_Condition (res_Rule result)) (toConditionStatus (res_ExitStatus result))
          (c_Reason ?c) (c_Message ?c) ts]"
    "active = [] \<longleftrightarrow> toConditionStatus (res_ExitStatus result) \<noteq> CondTrue"
    by (auto simp: plugin_change_def Let_def)
  with True show ?thesis by (rule changed)
qed

subsection \<open>Metrics\<close>

context Gauge_contract
begin

lemma gauge_conditions_show:
  assumes "gauges_show val accepts G pmm"
  shows "gauges_show val accepts
    (fold (\<lambda>c G. G(c_Type c \<mapsto> (c_Reason c, c_Status c = CondTrue))) cs G) (gauge_conditions Record cs pmm)"
  using assms
  by (induction cs arbitrary: G pmm) (auto simp: gauge_conditions_def set_gauge(2))

end

lemma fold_gauges_lookup:
  "distinct (map c_Type cs) \<Longrightarrow>
   fold (\<lambda>c G. G(c_Type c \<mapsto> (c_Reason c, c_Status c = CondTrue))) cs G t =
     (case condition_of t cs of None \<Rightarrow> G t | Some c \<Rightarrow> Some (c_Reason c, c_Status c = CondTrue))"
proof (induction cs arbitrary: G)
  case Nil
  then show ?case by (simp add: condition_of_def)
next
  case (Cons c cs)
  have "condition_of (c_Type c) cs = None"
    using Cons.prems by (simp add: condition_of_None_iff)
  with Cons show ?case by (auto simp: condition_of_def split: option.split)
qed

context Gauge_contract
begin

text \<open>Reporting all conditions, with one condition per type, makes the gauges agree with them.\<close>

lemma gauge_conditions_agree:
  assumes "gauges_show val accepts G pmm" and "distinct (map c_Type cs)"
    and "\<And>t r. condition_of t cs = None \<Longrightarrow> G t \<noteq> Some (r, True)"
  shows "gauges_agree val accepts cs (gauge_conditions Record cs pmm)"
  unfolding gauges_agree_def
  by (rule exI, rule conjI, rule gauge_conditions_show [OF assms(1)])
    (use assms(3) in \<open>auto simp: fold_gauges_lookup [OF assms(2)] split: option.split\<close>)

end

subsection \<open>A sequence of results\<close>

definition plugin_process ::
    "(labels \<Rightarrow> int64 \<Rightarrow> 'm \<Rightarrow> 'e option \<times> 'm) \<Rightarrow> gotime \<times> PluginResult
      \<Rightarrow> customPluginMonitor \<times> 'm ProblemMetricsManager \<Rightarrow> customPluginMonitor \<times> 'm ProblemMetricsManager" where
  "plugin_process Record tr cp =
     (case customPluginMonitor_generateStatus Record (fst tr) (snd tr) (fst cp) (snd cp) of
        (status, c, pmm) \<Rightarrow> (c\<lparr>cpm_statusChan := cpm_statusChan c @ [status]\<rparr>, pmm))"

definition plugin_loop_inv ::
    "(labels \<Rightarrow> int64 \<Rightarrow> 'm \<Rightarrow> 'e option \<times> 'm) \<Rightarrow> 'm pluginLoop \<Rightarrow> 'm pluginLoop \<Rightarrow> bool" where
  "plugin_loop_inv Record s0 s \<longleftrightarrow>
     (pl_mon s, pl_pmm s) = fold (plugin_process Record) (pl_received s) (pl_mon s0, pl_pmm s0) \<and>
     pl_done s = pl_pluginStopped s \<and> (pl_done s \<longrightarrow> pl_returned s \<and> pl_stop s) \<and>
     (pl_returned s \<longrightarrow> pl_done s \<or> pl_closed s)"

lemma plugin_step_inv:
  assumes "plugin_step Record s s'" and "plugin_loop_inv Record s0 s"
  shows "plugin_loop_inv Record s0 s'"
  using assms
proof (cases rule: plugin_step.cases)
  case (plugin_recv result rest timestamp status c pmm)
  then have "(pl_mon s', pl_pmm s') = plugin_process Record (timestamp, result) (pl_mon s, pl_pmm s)"
    by (simp add: plugin_process_def)
  with plugin_recv assms(2) show ?thesis by (auto simp: plugin_loop_inv_def)
qed (auto simp: plugin_loop_inv_def)

lemma plugin_steps_inv:
  assumes "(plugin_step Record)\<^sup>*\<^sup>* (plugin_start now c pmm) s"
  shows "plugin_loop_inv Record (plugin_start now c pmm) s"
  using assms
proof (induction rule: rtranclp_induct)
  case base
  show ?case by (simp add: plugin_loop_inv_def plugin_start_def Let_def)
next
  case (step s s')
  from plugin_step_inv [OF step.hyps(2) step.IH] show ?case .
qed

text \<open>
  An invariant of the conditions and the metrics that every status keeps holds after any
  results, and every status sent has it.
\<close>

lemma plugin_process_invariant:
  assumes step: "\<And>ts result cs pmm cs' active inactive. (ts, result) \<in> set trs \<Longrightarrow> I cs pmm \<Longrightarrow>
      plugin_parts config result ts cs = (cs', active, inactive) \<Longrightarrow>
      I cs' (if cp_EnableMetricsReporting config = Some True
             then gauge_conditions Record cs' (count_events Record active pmm) else pmm)"
    and IJ: "\<And>cs pmm. I cs pmm \<Longrightarrow> J cs"
    and init: "cpm_config c = config" "I (cpm_conditions c) pmm" "\<And>st. st \<in> set (cpm_statusChan c) \<Longrightarrow> J (s_Conditions st)"
    and result: "fold (plugin_process Record) trs (c, pmm) = (c', pmm')"
  shows "cpm_config c' = config \<and> I (cpm_conditions c') pmm' \<and> (\<forall>st \<in> set (cpm_statusChan c'). J (s_Conditions st))"
  using step init result
proof (induction trs arbitrary: c pmm)
  case Nil
  then show ?case by simp
next
  case (Cons tr trs)
  obtain ts result where tr: "tr = (ts, result)" by (cases tr)
  obtain cs active inactive where parts: "plugin_parts config result ts (cpm_conditions c) = (cs, active, inactive)"
    by (metis prod_cases3)
  let ?c = "c\<lparr>cpm_conditions := cs, cpm_statusChan := cpm_statusChan c @
      [\<lparr>s_Source = cp_Source config, s_Events = active @ inactive, s_Conditions = cs\<rparr>]\<rparr>"
  let ?pmm = "if cp_EnableMetricsReporting config = Some True
             then gauge_conditions Record cs (count_events Record active pmm) else pmm"
  have p: "plugin_process Record tr (c, pmm) = (?c, ?pmm)"
    using parts Cons.prems(2) tr by (simp add: plugin_process_def customPluginMonitor_generateStatus_def)
  have I: "I cs ?pmm" using Cons.prems(1) [OF _ Cons.prems(3) parts] tr by simp
  show ?case
  proof (rule Cons.IH [of ?c ?pmm])
    show "I cs' (if cp_EnableMetricsReporting config = Some True
        then gauge_conditions Record cs' (count_events Record active pmm) else pmm)"
      if "(ts, result) \<in> set trs" "I cs pmm" "plugin_parts config result ts cs = (cs', active, inactive)"
      for ts result cs pmm cs' active inactive
      using Cons.prems(1) [OF _ that(2,3)] that(1) by simp
    show "cpm_config ?c = config" using Cons.prems(2) by simp
    show "I (cpm_conditions ?c) ?pmm" using I by simp
    show "J (s_Conditions st)" if "st \<in> set (cpm_statusChan ?c)" for st
      using that Cons.prems(4) IJ [OF I] by auto
    show "fold (plugin_process Record) trs (?c, ?pmm) = (c', pmm')"
      using Cons.prems(5) p by simp
  qed
qed

lemma NewCustomPluginMonitorOrDie_parts:
  assumes "NewCustomPluginMonitorOrDie ReadFile Unmarshal IsNotExist Record path pmm = Ok (c, pmm')"
  shows "plugin_config_ok (cpm_config c)" and "cpm_statusChan c = []"
    and "if cp_EnableMetricsReporting (cpm_config c) = Some True
         then plugin_initializeProblemMetricsOrDie Record (cp_Rules (cpm_config c)) pmm = Ok pmm'
         else pmm' = pmm"
proof -
  obtain f where f: "ReadFile path = Ok f"
    using assms by (cases "ReadFile path") (simp_all add: NewCustomPluginMonitorOrDie_def)
  obtain config where c: "Unmarshal f = Ok config"
    using assms f by (cases "Unmarshal f") (simp_all add: NewCustomPluginMonitorOrDie_def)
  obtain config' where c': "CustomPluginConfig_ApplyConfiguration config = Ok config'"
    using assms f c by (cases "CustomPluginConfig_ApplyConfiguration config")
      (simp_all add: NewCustomPluginMonitorOrDie_def)
  have v: "CustomPluginConfig_Validate IsNotExist config' = None"
    using assms f c c' by (cases "CustomPluginConfig_Validate IsNotExist config'")
      (simp_all add: NewCustomPluginMonitorOrDie_def)
  obtain plugin where p: "NewPlugin config' = Some plugin"
    using assms f c c' v by (cases "NewPlugin config'") (simp_all add: NewCustomPluginMonitorOrDie_def)
  have "c = \<lparr>cpm_configPath = path, cpm_config = config', cpm_conditions = [], cpm_statusChan = []\<rparr> \<and>
      (if cp_EnableMetricsReporting config' = Some True
       then plugin_initializeProblemMetricsOrDie Record (cp_Rules config') pmm = Ok pmm' else pmm' = pmm)"
    using assms f c c' v p
    by (cases "plugin_initializeProblemMetricsOrDie Record (cp_Rules config') pmm")
      (simp_all add: NewCustomPluginMonitorOrDie_def Let_def split: if_split_asm)
  with valid_plugin_config [OF c' v] show "plugin_config_ok (cpm_config c)" and "cpm_statusChan c = []"
    and "if cp_EnableMetricsReporting (cpm_config c) = Some True
         then plugin_initializeProblemMetricsOrDie Record (cp_Rules (cpm_config c)) pmm = Ok pmm'
         else pmm' = pmm"
    by simp_all
qed

lemma plugin_start_fields:
  "cpm_config (pl_mon (plugin_start now c pmm)) = cpm_config c"
  "cpm_conditions (pl_mon (plugin_start now c pmm)) =
     plugin_initialConditions now (cp_DefaultConditions (cpm_config c))"
  "pl_pmm (plugin_start now c pmm) = pmm"
  "st \<in> set (cpm_statusChan (pl_mon (plugin_start now c pmm))) \<Longrightarrow> cpm_statusChan c = [] \<Longrightarrow>
   s_Conditions st = plugin_initialConditions now (cp_DefaultConditions (cpm_config c))"
  by (simp_all add: plugin_start_def customPluginMonitor_initializeConditions_def
      customPluginMonitor_sendInitialStatus_def Let_def split: if_splits)

subsection \<open>Properties of the custom plugin monitor\<close>

text \<open>A monitor over the sample configuration, and a run of two results.\<close>

definition sample_plugin_new ::
    "(unit, unit, fake_error) plugin_fatal + customPluginMonitor \<times> FakeInt64Metric ProblemMetricsManager" where
  "sample_plugin_new =
     NewCustomPluginMonitorOrDie (\<lambda>_. Ok []) (\<lambda>_. Ok sample_plugin_config) (\<lambda>_. False)
       FakeInt64Metric_Record ''ntp.json'' sample_manager"

definition sample_plugin_monitor :: customPluginMonitor where
  "sample_plugin_monitor = \<lparr>cpm_configPath = ''ntp.json'', cpm_config = sample_applied,
     cpm_conditions = [], cpm_statusChan = []\<rparr>"

definition sample_plugin_pmm :: "FakeInt64Metric ProblemMetricsManager" where
  "sample_plugin_pmm =
     (case plugin_initializeProblemMetricsOrDie FakeInt64Metric_Record (cp_Rules sample_applied) sample_manager of
        Inr pmm \<Rightarrow> pmm)"

lemma sample_plugin_new_ok:
  "NewCustomPluginMonitorOrDie (\<lambda>_. Ok [] :: unit + string) (\<lambda>_. Ok sample_plugin_config :: unit + CustomPluginConfig)
     (\<lambda>_. False) FakeInt64Metric_Record ''ntp.json'' sample_manager = Ok (sample_plugin_monitor, sample_plugin_pmm)"
proof -
  let ?r = "plugin_initializeProblemMetricsOrDie FakeInt64Metric_Record (cp_Rules sample_applied) sample_manager"
  have "\<not> isl ?r" by code_simp
  then obtain pmm where r: "?r = Ok pmm" by (cases ?r) auto
  then have "sample_plugin_pmm = pmm" unfolding sample_plugin_pmm_def r by simp
  moreover have "cp_EnableMetricsReporting sample_applied = Some True" by code_simp
  ultimately show ?thesis
    using sample_applied_ok sample_applied_valid r
    by (simp add: NewCustomPluginMonitorOrDie_def sample_plugin_monitor_def NewPlugin_def sample_globals)
qed

definition sample_result :: "PluginStatus \<Rightarrow> PluginResult" where
  "sample_result st = \<lparr>res_Rule = hd (cp_Rules sample_applied), res_ExitStatus = st, res_Message = ''ntp down''\<rparr>"

lemma sample_plugin_reach:
  obtains s where
    "(plugin_step FakeInt64Metric_Record)\<^sup>*\<^sup>* (plugin_start (\<lambda>_. 1) sample_plugin_monitor sample_plugin_pmm) s"
    and "pl_received s = [(9, sample_result NonOK)]"
    and "(pl_mon s, pl_pmm s) = plugin_process FakeInt64Metric_Record (9, sample_result NonOK)
           (pl_mon (plugin_start (\<lambda>_. 1) sample_plugin_monitor sample_plugin_pmm), sample_plugin_pmm)"
proof -
  let ?s = "plugin_start (\<lambda>_. 1) sample_plugin_monitor sample_plugin_pmm"
  let ?s1 = "?s\<lparr>pl_results := pl_results ?s @ [sample_result NonOK]\<rparr>"
  have f: "\<not> pl_closed ?s" "\<not> pl_returned ?s" "pl_results ?s = []" "pl_received ?s = []" "pl_pmm ?s = sample_plugin_pmm"
    by (simp_all add: plugin_start_def Let_def)
  obtain st c pmm where g:
    "customPluginMonitor_generateStatus FakeInt64Metric_Record 9 (sample_result NonOK) (pl_mon ?s1) (pl_pmm ?s1) = (st, c, pmm)"
    by (metis prod_cases3)
  let ?s2 = "?s1\<lparr>pl_mon := c\<lparr>cpm_statusChan := cpm_statusChan c @ [st]\<rparr>, pl_pmm := pmm, pl_results := [],
          pl_received := pl_received ?s1 @ [(9, sample_result NonOK)]\<rparr>"
  have "plugin_step FakeInt64Metric_Record ?s ?s1" by (rule plugin_env_result) (rule f)
  moreover have "plugin_step FakeInt64Metric_Record ?s1 ?s2"
    by (rule plugin_recv [OF _ _ g]) (simp_all add: f)
  ultimately have "(plugin_step FakeInt64Metric_Record)\<^sup>*\<^sup>* ?s ?s2"
    by (meson converse_rtranclp_into_rtranclp r_into_rtranclp)
  then show ?thesis using g f by (intro that [of ?s2]) (simp_all add: plugin_process_def)
qed

text \<open>
  C15: every status the monitor has sent carries one condition for each default condition, in
  order and of the same type: false with the default reason and message, unknown with the
  default reason, or true for the reason of a rule for this condition that is not temporary.
  The results are results of the monitor's own rules.
\<close>

theorem plugin_statuses_well_formed:
  assumes "NewCustomPluginMonitorOrDie ReadFile Unmarshal IsNotExist Record path pmm0 = Ok (c, pmm)"
    and "(plugin_step Record)\<^sup>*\<^sup>* (plugin_start now c pmm) s"
    and "\<forall>(ts, result) \<in> set (pl_received s). res_Rule result \<in> set (cp_Rules (cpm_config c))"
    and "st \<in> set (cpm_statusChan (pl_mon s))"
  shows "list_all2 (plugin_condition_ok (cp_Rules (cpm_config c))) (cp_DefaultConditions (cpm_config c)) (s_Conditions st)"
proof -
  let ?c = "pl_mon (plugin_start now c pmm)" and ?config = "cpm_config c"
  let ?I = "list_all2 (plugin_condition_ok (cp_Rules ?config)) (cp_DefaultConditions ?config)"
  have run: "fold (plugin_process Record) (pl_received s) (?c, pl_pmm (plugin_start now c pmm)) = (pl_mon s, pl_pmm s)"
    using plugin_steps_inv [OF assms(2)] by (simp add: plugin_loop_inv_def)
  have step: "?I cs'" if "(ts, result) \<in> set (pl_received s)" "?I cs"
    "plugin_parts ?config result ts cs = (cs', active, inactive)" for ts result cs cs' active inactive
    using plugin_parts_ok [OF that(2) _ that(3)] assms(3) that(1) by blast
  have init1: "?I (cpm_conditions ?c)"
    by (simp add: plugin_start_fields plugin_initialConditions_ok)
  have init2: "?I (s_Conditions st)" if "st \<in> set (cpm_statusChan ?c)" for st
    using plugin_start_fields(4) [OF that NewCustomPluginMonitorOrDie_parts(2) [OF assms(1)]]
    by (simp add: plugin_initialConditions_ok)
  have "\<forall>st \<in> set (cpm_statusChan (pl_mon s)). ?I (s_Conditions st)"
    by (rule plugin_process_invariant [where I = "\<lambda>cs pmm. ?I cs" and J = ?I, OF _ _ _ init1 init2 run,
          THEN conjunct2, THEN conjunct2])
      (auto simp: plugin_start_fields(1) intro: step)
  with assms(4) show ?thesis by blast
qed

theorem plugin_statuses_well_formed_witness:
  "\<exists>st :: Status. s_Events st \<noteq> [] \<and>
     list_all2 (plugin_condition_ok (cp_Rules sample_applied)) [sample_ntp_default] (s_Conditions st)"
proof (rule sample_plugin_reach)
  fix s
  let ?c0 = "pl_mon (plugin_start (\<lambda>_. 1) sample_plugin_monitor sample_plugin_pmm)"
  assume reach: "(plugin_step FakeInt64Metric_Record)\<^sup>*\<^sup>* (plugin_start (\<lambda>_. 1) sample_plugin_monitor sample_plugin_pmm) s"
    and rec: "pl_received s = [(9, sample_result NonOK)]"
    and mon: "(pl_mon s, pl_pmm s) = plugin_process FakeInt64Metric_Record (9, sample_result NonOK) (?c0, sample_plugin_pmm)"
  have cfg: "cpm_config sample_plugin_monitor = sample_applied" "cp_DefaultConditions sample_applied = [sample_ntp_default]"
    by (simp_all add: sample_plugin_monitor_def sample_applied_def sample_plugin_config_def)
  have "list_all (\<lambda>x. res_Rule (snd x) = hd (cp_Rules sample_applied)) [(9::int, sample_result NonOK)]"
    "cp_Rules sample_applied \<noteq> []" by code_simp+
  then have own: "\<forall>(ts, result) \<in> set (pl_received s). res_Rule result \<in> set (cp_Rules (cpm_config sample_plugin_monitor))"
    unfolding rec cfg by simp
  have "(\<lambda>out. out \<noteq> [] \<and> s_Events (last out) \<noteq> []) (cpm_statusChan (fst (plugin_process FakeInt64Metric_Record
      (9, sample_result NonOK) (?c0, sample_plugin_pmm))))" by code_simp
  then have out: "last (cpm_statusChan (pl_mon s)) \<in> set (cpm_statusChan (pl_mon s))"
    "s_Events (last (cpm_statusChan (pl_mon s))) \<noteq> []"
    unfolding mon [symmetric] by (simp_all add: last_in_set)
  show ?thesis
    using plugin_statuses_well_formed [OF sample_plugin_new_ok reach own out(1)] out(2) unfolding cfg by blast
qed

text \<open>
  C17: the status for a result of a permanent rule. When the exit status maps to another condition
  status, or the condition stays true with another reason (or another message, if message
  changes count), the first condition of the rule's type becomes what the result says, with the
  default reason when it is not true and the default message when it is false, and exactly one
  event tells so; otherwise the condition stays and there is no event. No other condition changes.
\<close>

theorem plugin_permanent_status:
  assumes "customPluginMonitor_generateStatus Record ts result m pmm = (st, m', pmm')"
    and "cr_Type (res_Rule result) \<noteq> Temp"
    and "condition_of (cr_Condition (res_Rule result)) (cpm_conditions m) = Some c"
    and "condition_of (cr_Condition (res_Rule result)) (cp_DefaultConditions (cpm_config m)) = Some d"
    and "changed \<longleftrightarrow> plugin_changes
           (pg_EnableMessageChangeBasedConditionUpdate (cp_PluginGlobalConfig (cpm_config m)) = Some True) result c"
    and "c' = (if changed then plugin_condition_after ts d result c else c)"
  shows "s_Conditions st = cpm_conditions m' \<and>
    c_Status c' = toConditionStatus (res_ExitStatus result) \<and>
    s_Events st = (if changed then [GenerateConditionChangeEvent (cr_Condition (res_Rule result)) (c_Status c')
                                      (c_Reason c') (c_Message c') ts] else []) \<and>
    (\<forall>t. condition_of t (cpm_conditions m') =
           (if t = cr_Condition (res_Rule result) then Some c' else condition_of t (cpm_conditions m)))"
proof -
  obtain cs active inactive where parts:
    "plugin_change (cpm_config m) result ts (cpm_conditions m) = (cs, active, inactive)" by (metis prod_cases3)
  have st: "s_Conditions st = cs" "s_Events st = active @ inactive" "cpm_conditions m' = cs"
    using assms(1,2) parts by (auto simp: customPluginMonitor_generateStatus_def plugin_parts_def)
  show ?thesis
    using parts assms(3,4) refl
  proof (cases rule: plugin_change_cases)
    case same
    have "\<not> changed" using same(1) assms(5) by simp
    moreover have "c_Status c = toConditionStatus (res_ExitStatus result)"
      using same(1) by (simp add: plugin_changes_def)
    ultimately show ?thesis using same(2-4) st assms(3,6) by simp
  next
    case changed
    let ?c = "plugin_condition_after ts d result c"
    have ty: "c_Type ?c = cr_Condition (res_Rule result)" and s: "c_Status ?c = toConditionStatus (res_ExitStatus result)"
      using condition_of_Some [OF assms(3)] by (simp_all add: plugin_condition_after_def Let_def)
    from changed st assms(5,6) s condition_of_update_first [OF assms(3) ty] show ?thesis by simp
  qed
qed

definition sample_plugin_started :: customPluginMonitor where
  "sample_plugin_started = customPluginMonitor_initializeConditions (\<lambda>_. 1) sample_plugin_monitor"

theorem plugin_permanent_status_witness:
  "\<exists>st :: Status. condition_of ''NTPProblem'' (s_Conditions st) =
     Some \<lparr>c_Type = ''NTPProblem'', c_Status = CondUnknown, c_Transition = 9, c_Reason = ''NTPIsUp'',
           c_Message = ''ntp down''\<rparr> \<and> length (s_Events st) = 1"
proof -
  let ?m = sample_plugin_started and ?r = "sample_result UnknownStatus"
  let ?c = "sample_ntp_default\<lparr>c_Status := CondFalse, c_Transition := 1\<rparr>"
  obtain st m' pmm' where g: "customPluginMonitor_generateStatus FakeInt64Metric_Record 9 ?r ?m sample_plugin_pmm = (st, m', pmm')"
    by (metis prod_cases3)
  have p: "cr_Type (res_Rule ?r) \<noteq> Temp" by code_simp
  have c: "condition_of (cr_Condition (res_Rule ?r)) (cpm_conditions ?m) = Some ?c" by code_simp
  have d: "condition_of (cr_Condition (res_Rule ?r)) (cp_DefaultConditions (cpm_config ?m)) = Some sample_ntp_default" by code_simp
  have ch: "True \<longleftrightarrow> plugin_changes
      (pg_EnableMessageChangeBasedConditionUpdate (cp_PluginGlobalConfig (cpm_config ?m)) = Some True) ?r ?c" by code_simp
  have "cr_Condition (res_Rule ?r) = ''NTPProblem''" by code_simp
  moreover have "plugin_condition_after 9 sample_ntp_default ?r ?c = \<lparr>c_Type = ''NTPProblem'', c_Status = CondUnknown,
      c_Transition = 9, c_Reason = ''NTPIsUp'', c_Message = ''ntp down''\<rparr>" by code_simp
  ultimately show ?thesis using plugin_permanent_status [OF g p c d ch refl] by (intro exI [of _ st]) simp
qed

text \<open>
  A result that is reported again, with the same exit status and message, changes no
  condition and reports no event.
\<close>

theorem plugin_repeat_quiet:
  assumes "customPluginMonitor_generateStatus Record ts result m pmm = (st, m', pmm')"
    and "customPluginMonitor_generateStatus Record ts' result m' pmm'' = (st', m'', pmm3)"
    and "cr_Type (res_Rule result) \<noteq> Temp"
    and "condition_of (cr_Condition (res_Rule result)) (cp_DefaultConditions (cpm_config m)) = Some d"
  shows "s_Events st' = [] \<and> cpm_conditions m'' = cpm_conditions m'"
proof -
  let ?t = "cr_Condition (res_Rule result)"
  let ?mu = "pg_EnableMessageChangeBasedConditionUpdate (cp_PluginGlobalConfig (cpm_config m)) = Some True"
  obtain cs active inactive where parts: "plugin_change (cpm_config m) result ts (cpm_conditions m) = (cs, active, inactive)"
    by (metis prod_cases3)
  obtain cs' active' inactive' where parts': "plugin_change (cpm_config m) result ts' cs = (cs', active', inactive')"
    by (metis prod_cases3)
  have m': "cpm_conditions m' = cs" "cpm_config m' = cpm_config m"
    using assms(1,3) parts by (auto simp: customPluginMonitor_generateStatus_def plugin_parts_def)
  have m'': "s_Events st' = active' @ inactive'" "cpm_conditions m'' = cs'"
    using assms(2,3) parts' m' by (auto simp: customPluginMonitor_generateStatus_def plugin_parts_def)
  show ?thesis
  proof (cases "condition_of ?t (cpm_conditions m)")
    case None
    with parts have "cs = cpm_conditions m" by (simp add: plugin_change_def)
    with parts' None m' m'' show ?thesis by (simp add: plugin_change_def)
  next
    case (Some c)
    have quiet: "\<exists>c1. condition_of ?t cs = Some c1 \<and> \<not> plugin_changes ?mu result c1"
      using parts Some assms(4) refl
    proof (cases rule: plugin_change_cases)
      case same
      with Some show ?thesis by auto
    next
      case changed
      let ?c = "plugin_condition_after ts d result c"
      have "c_Type ?c = ?t" using condition_of_Some [OF Some] by (simp add: plugin_condition_after_def Let_def)
      moreover have "\<not> plugin_changes ?mu result ?c"
        by (auto simp: plugin_changes_def plugin_condition_after_def Let_def)
      ultimately show ?thesis using changed(2) condition_of_update_first [OF Some] by auto
    qed
    then obtain c1 where "condition_of ?t cs = Some c1" "\<not> plugin_changes ?mu result c1" by blast
    with parts' assms(4) m' m'' show ?thesis by (cases rule: plugin_change_cases [OF parts' _ assms(4) refl]) auto
  qed
qed

theorem plugin_repeat_quiet_witness:
  "s_Events (fst (customPluginMonitor_generateStatus FakeInt64Metric_Record 12 (sample_result NonOK)
     (fst (snd (customPluginMonitor_generateStatus FakeInt64Metric_Record 9 (sample_result NonOK) sample_plugin_started sample_plugin_pmm)))
     sample_plugin_pmm)) = []"
proof -
  let ?r = "sample_result NonOK"
  obtain st m' pmm' where g: "customPluginMonitor_generateStatus FakeInt64Metric_Record 9 ?r sample_plugin_started sample_plugin_pmm = (st, m', pmm')"
    by (metis prod_cases3)
  obtain st' m'' pmm'' where g': "customPluginMonitor_generateStatus FakeInt64Metric_Record 12 ?r m' sample_plugin_pmm = (st', m'', pmm'')"
    by (metis prod_cases3)
  have p: "cr_Type (res_Rule ?r) \<noteq> Temp" by code_simp
  have d: "condition_of (cr_Condition (res_Rule ?r)) (cp_DefaultConditions (cpm_config sample_plugin_started)) = Some sample_ntp_default"
    by code_simp
  from plugin_repeat_quiet [OF g g' p d] g g' show ?thesis by simp
qed



end
