(* ===== verification/Problem_Client.thy ===== *)
theory Problem_Client
  imports NPD_Types
begin

text \<open>
  The clients of the Kubernetes API (\<^verbatim>\<open>pkg/exporters/k8sexporter/problemclient\<close>): the problem
  client with its patching, its cache of the node reference and its event recorders, the retry
  helper it uses (vendored \<^verbatim>\<open>k8s.io/client-go/util/retry\<close>), the in-memory client, and the
  configuration of the connection.

  The API server is an argument: functions on its state that answer a \<^verbatim>\<open>Get\<close> or a
  \<^verbatim>\<open>PatchStatus\<close> with an error or the node. So are the JSON encoder, the clock and the
  construction of an event recorder. What the condition manager relies on is the locale
  \<open>condition_client\<close>; it is interpreted for the in-memory client, and the problem client meets
  it on every API server that applies the patches it accepts.
\<close>

subsection \<open>Retrying\<close>

datatype 'e wait_error = ErrWaitTimeout | CondErr 'e

text \<open>\<^verbatim>\<open>wait.ExponentialBackoff\<close> with \<open>steps\<close> steps, without the sleeping.\<close>

fun ExponentialBackoff ::
    "nat \<Rightarrow> ('s \<Rightarrow> (bool \<times> 'e option) \<times> 's) \<Rightarrow> 's \<Rightarrow> 'e wait_error option \<times> 's" where
  "ExponentialBackoff 0 condition s = (Some ErrWaitTimeout, s)"
| "ExponentialBackoff (Suc steps) condition s =
     (case condition s of
        ((ok, err), s') \<Rightarrow>
          if err \<noteq> None \<or> ok then (map_option CondErr err, s')
          else if steps = 0 then (Some ErrWaitTimeout, s')
          else ExponentialBackoff steps condition s')"

text \<open>\<^verbatim>\<open>retry.OnError\<close>; the state of the loop carries \<open>lastErr\<close>.\<close>

definition retry_OnError ::
    "nat \<Rightarrow> ('e \<Rightarrow> bool) \<Rightarrow> ('s \<Rightarrow> 'e option \<times> 's) \<Rightarrow> 's \<Rightarrow> 'e option \<times> 's" where
  "retry_OnError steps retriable fn s =
     (case ExponentialBackoff steps
             (\<lambda>(lastErr, s). case fn s of
                (None, s') \<Rightarrow> ((True, None), (lastErr, s'))
              | (Some err, s') \<Rightarrow>
                  if retriable err then ((False, None), (Some err, s'))
                  else ((False, Some err), (lastErr, s')))
             (None, s) of
        (None, (lastErr, s')) \<Rightarrow> (None, s')
      | (Some ErrWaitTimeout, (lastErr, s')) \<Rightarrow> (lastErr, s')
      | (Some (CondErr err), (lastErr, s')) \<Rightarrow> (Some err, s'))"

definition DefaultRetry_Steps :: nat where "DefaultRetry_Steps = 5"

subsection \<open>The problem client\<close>

record Node =
  n_UID :: string
  n_Conditions :: "NodeCondition list"

record ObjectReference =
  or_APIVersion :: string
  or_Kind :: string
  or_Name :: string
  or_Namespace :: string
  or_UID :: string

record 'r nodeProblemClient =
  npc_nodeName :: string
  npc_recorders :: "string \<rightharpoonup> 'r"
  npc_nodeRef :: ObjectReference
  npc_cachedNodeRef :: "ObjectReference option"
  npc_eventNamespace :: string

definition getNodeRef :: "string \<Rightarrow> string \<Rightarrow> ObjectReference" where
  "getNodeRef namespace nodeName =
     \<lparr>or_APIVersion = ''v1'', or_Kind = ''Node'', or_Name = nodeName, or_Namespace = namespace, or_UID = []\<rparr>"

text \<open>The part of \<^verbatim>\<open>NewClientOrDie\<close> after the configuration of the connection.\<close>

definition new_client :: "string \<Rightarrow> string \<Rightarrow> 'r nodeProblemClient" where
  "new_client nodeName eventNamespace =
     \<lparr>npc_nodeName = nodeName, npc_recorders = Map.empty, npc_nodeRef = getNodeRef eventNamespace nodeName,
      npc_cachedNodeRef = None, npc_eventNamespace = eventNamespace\<rparr>"

definition cacheNodeRef :: "string \<Rightarrow> 'r nodeProblemClient \<Rightarrow> 'r nodeProblemClient" where
  "cacheNodeRef uid c =
     (if uid = [] \<or> npc_cachedNodeRef c \<noteq> None then c
      else c\<lparr>npc_cachedNodeRef := Some ((npc_nodeRef c)\<lparr>or_UID := uid\<rparr>)\<rparr>)"

definition nodeRefWithUID :: "'r nodeProblemClient \<Rightarrow> ObjectReference" where
  "nodeRefWithUID c = (case npc_cachedNodeRef c of Some ref \<Rightarrow> ref | None \<Rightarrow> npc_nodeRef c)"

definition nodeProblemClient_GetNode ::
    "(string \<Rightarrow> 'srv \<Rightarrow> ('e + Node) \<times> 'srv) \<Rightarrow> 'r nodeProblemClient \<times> 'srv
      \<Rightarrow> ('e + Node) \<times> 'r nodeProblemClient \<times> 'srv" where
  "nodeProblemClient_GetNode Get s =
     (case s of (c, srv) \<Rightarrow>
        case Get (npc_nodeName c) srv of
          (Inr node, srv') \<Rightarrow> (Ok node, cacheNodeRef (n_UID node) c, srv')
        | (Inl err, srv') \<Rightarrow> (Err err, c, srv'))"

definition nodeProblemClient_GetConditions ::
    "(string \<Rightarrow> 'srv \<Rightarrow> ('e + Node) \<times> 'srv) \<Rightarrow> string list \<Rightarrow> 'r nodeProblemClient \<times> 'srv
      \<Rightarrow> ('e + NodeCondition list) \<times> 'r nodeProblemClient \<times> 'srv" where
  "nodeProblemClient_GetConditions Get conditionTypes s =
     (case nodeProblemClient_GetNode Get s of
        (Inl err, s') \<Rightarrow> (Err err, s')
      | (Inr node, s') \<Rightarrow>
          (Ok (concat (map (\<lambda>conditionType. filter (\<lambda>condition. nc_Type condition = conditionType)
                              (n_Conditions node)) conditionTypes)), s'))"

text \<open>The patch is the text of the encoded conditions inside a fixed frame.\<close>

definition generatePatch ::
    "(NodeCondition list \<Rightarrow> 'e + string) \<Rightarrow> NodeCondition list \<Rightarrow> 'e + string" where
  "generatePatch Marshal conditions =
     (case Marshal conditions of
        Inl err \<Rightarrow> Err err
      | Inr raw \<Rightarrow> Ok (''{\"status\":{\"conditions\":'' @ raw @ ''}}''))"

definition patch_attempt ::
    "(string \<Rightarrow> string \<Rightarrow> 'srv \<Rightarrow> ('e + Node) \<times> 'srv) \<Rightarrow> string \<Rightarrow> 'r nodeProblemClient \<times> 'srv
      \<Rightarrow> 'e option \<times> 'r nodeProblemClient \<times> 'srv" where
  "patch_attempt PatchStatus patch s =
     (case s of (c, srv) \<Rightarrow>
        case PatchStatus (npc_nodeName c) patch srv of
          (Inr node, srv') \<Rightarrow> (None, cacheNodeRef (n_UID node) c, srv')
        | (Inl err, srv') \<Rightarrow> (Some err, c, srv'))"

text \<open>\<open>now i\<close> is the clock when the heartbeat of the \<open>i\<close>-th condition is set.\<close>

definition nodeProblemClient_SetConditions ::
    "(nat \<Rightarrow> gotime) \<Rightarrow> (NodeCondition list \<Rightarrow> 'e + string) \<Rightarrow>
     (string \<Rightarrow> string \<Rightarrow> 'srv \<Rightarrow> ('e + Node) \<times> 'srv) \<Rightarrow> NodeCondition list \<Rightarrow>
     'r nodeProblemClient \<times> 'srv \<Rightarrow> 'e option \<times> 'r nodeProblemClient \<times> 'srv" where
  "nodeProblemClient_SetConditions now Marshal PatchStatus newConditions s =
     (let newConditions = map (\<lambda>(i, c). c\<lparr>nc_LastHeartbeatTime := now i\<rparr>) (enumerate 0 newConditions) in
      case generatePatch Marshal newConditions of
        Inl err \<Rightarrow> (Some err, s)
      | Inr patch \<Rightarrow> retry_OnError DefaultRetry_Steps (\<lambda>_. True) (patch_attempt PatchStatus patch) s)"

text \<open>What \<^verbatim>\<open>Eventf\<close> hands to the recorder of the source, which is made on first use.\<close>

record 'r recorded_event =
  rec_recorder :: 'r
  rec_ref :: ObjectReference
  rec_eventType :: string
  rec_reason :: string
  rec_messageFmt :: string

definition nodeProblemClient_Eventf ::
    "(string \<Rightarrow> string \<Rightarrow> string \<Rightarrow> 'r) \<Rightarrow> string \<Rightarrow> string \<Rightarrow> string \<Rightarrow> string \<Rightarrow> 'r nodeProblemClient
      \<Rightarrow> 'r recorded_event \<times> 'r nodeProblemClient" where
  "nodeProblemClient_Eventf getEventRecorder eventType source reason messageFmt c =
     (let (recorder, c) =
            (case npc_recorders c source of
               Some recorder \<Rightarrow> (recorder, c)
             | None \<Rightarrow>
                 let recorder = getEventRecorder (npc_eventNamespace c) (npc_nodeName c) source
                 in (recorder, c\<lparr>npc_recorders := (npc_recorders c)(source \<mapsto> recorder)\<rparr>))
      in (\<lparr>rec_recorder = recorder, rec_ref = nodeRefWithUID c, rec_eventType = eventType,
           rec_reason = reason, rec_messageFmt = messageFmt\<rparr>, c))"

subsection \<open>The in-memory client\<close>

record 'e FakeProblemClient =
  fpc_conditions :: "string \<rightharpoonup> NodeCondition"
  fpc_errors :: "string \<rightharpoonup> 'e"

definition NewFakeProblemClient :: "'e FakeProblemClient" where
  "NewFakeProblemClient = \<lparr>fpc_conditions = Map.empty, fpc_errors = Map.empty\<rparr>"

definition FakeProblemClient_InjectError :: "string \<Rightarrow> 'e \<Rightarrow> 'e FakeProblemClient \<Rightarrow> 'e FakeProblemClient" where
  "FakeProblemClient_InjectError fn err f = f\<lparr>fpc_errors := (fpc_errors f)(fn \<mapsto> err)\<rparr>"

definition FakeProblemClient_AssertConditions :: "NodeCondition list \<Rightarrow> 'e FakeProblemClient \<Rightarrow> bool" where
  "FakeProblemClient_AssertConditions expected f \<longleftrightarrow>
     fold (\<lambda>condition conditions. conditions(nc_Type condition \<mapsto> condition)) expected Map.empty = fpc_conditions f"

definition FakeProblemClient_SetConditions ::
    "NodeCondition list \<Rightarrow> 'e FakeProblemClient \<Rightarrow> 'e option \<times> 'e FakeProblemClient" where
  "FakeProblemClient_SetConditions conditions f =
     (case fpc_errors f ''SetConditions'' of
        Some err \<Rightarrow> (Some err, f)
      | None \<Rightarrow> (None, f\<lparr>fpc_conditions :=
          fold (\<lambda>condition conditions. conditions(nc_Type condition \<mapsto> condition)) conditions (fpc_conditions f)\<rparr>))"

definition FakeProblemClient_GetConditions ::
    "string list \<Rightarrow> 'e FakeProblemClient \<Rightarrow> 'e + NodeCondition list" where
  "FakeProblemClient_GetConditions types f =
     (case fpc_errors f ''GetConditions'' of
        Some err \<Rightarrow> Err err
      | None \<Rightarrow> Ok (List.map_filter (fpc_conditions f) types))"

subsection \<open>The configuration of the connection\<close>

record URL =
  u_Scheme :: string
  u_Host :: string
  u_Query :: "string \<Rightarrow> string list"

record rest_Config =
  rc_Host :: string
  rc_GroupVersion :: "string option"
  rc_Insecure :: bool
  rc_CAFile :: string
  rc_BearerToken :: string
  rc_ContentType :: string

datatype 'e config_error =
    ParseBoolError string
  | InClusterConfigError 'e
  | LoadConfigError 'e
  | InvalidMasterURL

definition strconv_ParseBool :: "string \<Rightarrow> 'e config_error + bool" where
  "strconv_ParseBool str =
     (if str \<in> set [''1'', ''t'', ''T'', ''true'', ''TRUE'', ''True''] then Ok True
      else if str \<in> set [''0'', ''f'', ''F'', ''false'', ''FALSE'', ''False''] then Ok False
      else Err (ParseBoolError str))"

text \<open>An option of the query that is a boolean, read from its first value.\<close>

definition bool_option :: "URL \<Rightarrow> string \<Rightarrow> bool \<Rightarrow> 'e config_error + bool" where
  "bool_option uri name dflt =
     (case u_Query uri name of [] \<Rightarrow> Ok dflt | v # _ \<Rightarrow> strconv_ParseBool v)"

definition defaultServiceAccountFile :: string where
  "defaultServiceAccountFile = ''/var/run/secrets/kubernetes.io/serviceaccount/token''"

definition defaultUseServiceAccount :: bool where "defaultUseServiceAccount = False"
definition defaultInClusterConfig :: bool where "defaultInClusterConfig = True"

text \<open>The server and whether to skip the verification of its certificate.\<close>

definition getConfigOverrides :: "URL \<Rightarrow> 'e config_error + string \<times> bool" where
  "getConfigOverrides uri =
     (let server = (if u_Scheme uri \<noteq> [] \<and> u_Host uri \<noteq> [] then u_Scheme uri @ ''://'' @ u_Host uri else []) in
      and_then (bool_option uri ''insecure'' False) (\<lambda>insecure. Ok (server, insecure)))"

definition getKubeClientConfig ::
    "('e + rest_Config) \<Rightarrow> (string \<Rightarrow> 'e + rest_Config) \<Rightarrow> (string \<Rightarrow> string option) \<Rightarrow> URL
      \<Rightarrow> 'e config_error + rest_Config" where
  "getKubeClientConfig InClusterConfig LoadConfig ReadFile uri =
     and_then (getConfigOverrides uri) (\<lambda>(server, insecure).
     and_then (bool_option uri ''inClusterConfig'' defaultInClusterConfig) (\<lambda>inClusterConfig.
     and_then
       (if inClusterConfig
        then (case InClusterConfig of
                Inl err \<Rightarrow> Err (InClusterConfigError err)
              | Inr kubeConfig \<Rightarrow>
                  Ok (kubeConfig\<lparr>rc_Host := (if server \<noteq> [] then server else rc_Host kubeConfig),
                        rc_GroupVersion := Some ''v1'', rc_Insecure := insecure,
                        rc_CAFile := (if insecure then [] else rc_CAFile kubeConfig)\<rparr>))
        else
          let authFile = (case u_Query uri ''auth'' of [] \<Rightarrow> [] | v # _ \<Rightarrow> v) in
          if authFile \<noteq> []
          then (case LoadConfig authFile of Inl err \<Rightarrow> Err (LoadConfigError err) | Inr kubeConfig \<Rightarrow> Ok kubeConfig)
          else Ok \<lparr>rc_Host = server, rc_GroupVersion = Some ''v1'', rc_Insecure = insecure, rc_CAFile = [],
                   rc_BearerToken = [], rc_ContentType = []\<rparr>)
       (\<lambda>kubeConfig.
     if rc_Host kubeConfig = [] then Err InvalidMasterURL
     else and_then (bool_option uri ''useServiceAccount'' defaultUseServiceAccount) (\<lambda>useServiceAccount.
       let kubeConfig =
             (if useServiceAccount
              then (case ReadFile defaultServiceAccountFile of
                      Some contents \<Rightarrow> kubeConfig\<lparr>rc_BearerToken := contents\<rparr>
                    | None \<Rightarrow> kubeConfig)
              else kubeConfig)
       in Ok (kubeConfig\<lparr>rc_ContentType := ''application/vnd.kubernetes.protobuf''\<rparr>)))))"

text \<open>\<^verbatim>\<open>NewClientOrDie\<close>: the error is a panic. The client set itself is the argument of the operations.\<close>

definition NewClientOrDie ::
    "('e + rest_Config) \<Rightarrow> (string \<Rightarrow> 'e + rest_Config) \<Rightarrow> (string \<Rightarrow> string option) \<Rightarrow> URL \<Rightarrow> string \<Rightarrow> string
      \<Rightarrow> 'e config_error + 'r nodeProblemClient" where
  "NewClientOrDie InClusterConfig LoadConfig ReadFile uri nodeName eventNamespace =
     (case getKubeClientConfig InClusterConfig LoadConfig ReadFile uri of
        Inl err \<Rightarrow> Err err
      | Inr cfg \<Rightarrow> Ok (new_client nodeName eventNamespace))"

subsection \<open>Retrying: lemmas\<close>

text \<open>The specification: the first successful attempt of at most \<open>n\<close>, or the error of the last one.\<close>

fun attempts :: "nat \<Rightarrow> ('s \<Rightarrow> 'e option \<times> 's) \<Rightarrow> 's \<Rightarrow> 'e list \<times> 's" where
  "attempts 0 fn s = ([], s)"
| "attempts (Suc n) fn s =
     (case fn s of
        (None, s') \<Rightarrow> ([], s')
      | (Some err, s') \<Rightarrow> (case attempts n fn s' of (errs, s'') \<Rightarrow> (err # errs, s'')))"

lemma attempts_length: "length (fst (attempts n fn s)) \<le> n"
  by (induction n arbitrary: s) (auto split: prod.splits option.splits, metis fst_conv)

lemma ExponentialBackoff_attempts:
  "ExponentialBackoff (Suc n)
     (\<lambda>(lastErr, s). case fn s of
        (None, s') \<Rightarrow> ((True, None), (lastErr, s'))
      | (Some err, s') \<Rightarrow>
          if True then ((False, None), (Some err, s')) else ((False, Some err), (lastErr, s')))
     (le, s) =
   (case attempts (Suc n) fn s of (errs, s') \<Rightarrow>
      (if length errs = Suc n then Some ErrWaitTimeout else None,
       (if errs = [] then le else Some (last errs)), s'))"
proof (induction n arbitrary: le s)
  case 0
  show ?case by (cases "fn s"; cases "fst (fn s)") auto
next
  case (Suc n)
  obtain r s' where fn: "fn s = (r, s')" by fastforce
  show ?case
  proof (cases r)
    case None
    with fn show ?thesis by simp
  next
    case (Some err)
    note eq = Suc.IH [of "Some err" s']
    obtain errs s'' where a: "attempts (Suc n) fn s' = (errs, s'')" by fastforce
    show ?thesis
      using fn Some eq unfolding ExponentialBackoff.simps(2) [of "Suc n"] attempts.simps(2) [of "Suc n"]
      by (simp add: a del: ExponentialBackoff.simps attempts.simps)
  qed
qed

lemma retry_OnError_attempts:
  assumes "0 < n"
  shows "retry_OnError n (\<lambda>_. True) fn s =
     (case attempts n fn s of (errs, s') \<Rightarrow> (if length errs = n then Some (last errs) else None, s'))"
proof -
  obtain k where k: "n = Suc k" using assms gr0_implies_Suc by blast
  show ?thesis unfolding retry_OnError_def k ExponentialBackoff_attempts by (auto split: prod.split)
qed

lemma attempts_invariant:
  assumes "I s" and "\<And>u r v. I u \<Longrightarrow> fn u = (r, v) \<Longrightarrow> I v"
  shows "I (snd (attempts n fn s))"
  using assms(1)
proof (induction n arbitrary: s)
  case (Suc n)
  obtain r s' where fn: "fn s = (r, s')" by fastforce
  with assms(2) Suc.prems have "I s'" by blast
  with Suc.IH [of s'] fn show ?case by (auto split: prod.splits option.splits)
qed simp

text \<open>The state that led to success satisfies what every attempt keeps.\<close>

lemma attempts_success_invariant:
  assumes "attempts n fn s = (errs, s')" and "length errs < n" and "I s"
    and "\<And>u r v. I u \<Longrightarrow> fn u = (r, v) \<Longrightarrow> I v"
  shows "\<exists>t. I t \<and> fn t = (None, s')"
  using assms(1-3)
proof (induction n arbitrary: s errs)
  case (Suc n)
  obtain r u where fn: "fn s = (r, u)" by fastforce
  show ?case
  proof (cases r)
    case None
    with Suc.prems fn show ?thesis by auto
  next
    case (Some err)
    with Suc.prems fn obtain errs' where "attempts n fn u = (errs', s')" "length errs' < n"
      by (auto split: prod.splits)
    moreover have "I u" using assms(4) [OF Suc.prems(3) fn] .
    ultimately show ?thesis by (rule Suc.IH)
  qed
qed simp

subsection \<open>What a client promises\<close>

text \<open>
  The conditions the node shows, up to their heartbeat: after a successful \<^verbatim>\<open>SetConditions\<close> the
  ones that were set, and no call touches a condition of another type.
\<close>

definition nc_body :: "NodeCondition \<Rightarrow> NodeCondition" where
  "nc_body c = c\<lparr>nc_LastHeartbeatTime := zero_time\<rparr>"

lemma nc_body_simps [simp]:
  "nc_Type (nc_body c) = nc_Type c"
  "nc_body (c\<lparr>nc_LastHeartbeatTime := t\<rparr>) = nc_body c"
  by (simp_all add: nc_body_def)

locale condition_client =
  fixes SetConditions :: "NodeCondition list \<Rightarrow> 's \<Rightarrow> 'e option \<times> 's"
    and shown :: "'s \<Rightarrow> string \<rightharpoonup> NodeCondition"
  assumes set_ok: "SetConditions cs s = (None, s') \<Longrightarrow> distinct (map nc_Type cs) \<Longrightarrow> c \<in> set cs \<Longrightarrow>
      shown s' (nc_Type c) = Some (nc_body c)"
    and set_frame: "SetConditions cs s = (r, s') \<Longrightarrow> distinct (map nc_Type cs) \<Longrightarrow> t \<notin> nc_Type ` set cs \<Longrightarrow>
      shown s' t = shown s t"
begin

lemma set_shows_all:
  assumes "SetConditions cs s = (None, s')" and "distinct (map nc_Type cs)"
  shows "shown s' = shown s ++ map_of (map (\<lambda>c. (nc_Type c, nc_body c)) cs)"
proof
  fix t
  show "shown s' t = (shown s ++ map_of (map (\<lambda>c. (nc_Type c, nc_body c)) cs)) t"
  proof (cases "t \<in> nc_Type ` set cs")
    case True
    then obtain c where c: "c \<in> set cs" "t = nc_Type c" by blast
    have "map_of (map (\<lambda>c. (nc_Type c, nc_body c)) cs) t = Some (nc_body c)"
      using c assms(2) by (intro map_of_is_SomeI) (auto simp: comp_def)
    with set_ok [OF assms c(1)] c(2) show ?thesis by simp
  next
    case False
    then have "map_of (map (\<lambda>c. (nc_Type c, nc_body c)) cs) t = None"
      by (simp add: map_of_eq_None_iff image_image)
    with set_frame [OF assms False] show ?thesis by (simp add: map_add_def)
  qed
qed

end

definition fake_shown :: "'e FakeProblemClient \<Rightarrow> string \<rightharpoonup> NodeCondition" where
  "fake_shown f t = map_option nc_body (fpc_conditions f t)"

lemma fold_condition_upd_notin:
  "t \<notin> nc_Type ` set cs \<Longrightarrow> fold (\<lambda>c m. m(nc_Type c \<mapsto> c)) cs m t = m t"
  by (induction cs arbitrary: m) auto

lemma fold_condition_upd_in:
  "distinct (map nc_Type cs) \<Longrightarrow> c \<in> set cs \<Longrightarrow> fold (\<lambda>c m. m(nc_Type c \<mapsto> c)) cs m (nc_Type c) = Some c"
  by (induction cs arbitrary: m) (auto simp: fold_condition_upd_notin)

interpretation fake_client: condition_client FakeProblemClient_SetConditions fake_shown
  by unfold_locales
    (auto simp: FakeProblemClient_SetConditions_def fake_shown_def fold_condition_upd_in fold_condition_upd_notin
      split: option.splits)

text \<open>
  An API server and an encoder for which a node shows, after a patch with conditions of distinct
  types was accepted, exactly these conditions under their types, and for which a patch, accepted
  or not, leaves the conditions of other types alone: the merging of a strategic patch by type.
\<close>

definition patch_law ::
    "(NodeCondition list \<Rightarrow> 'e + string) \<Rightarrow> (string \<Rightarrow> string \<Rightarrow> 'srv \<Rightarrow> ('e + Node) \<times> 'srv) \<Rightarrow>
     (string \<Rightarrow> 'srv \<Rightarrow> string \<rightharpoonup> NodeCondition) \<Rightarrow> bool" where
  "patch_law Marshal PatchStatus view \<longleftrightarrow>
     (\<forall>cs patch name srv r srv'.
        generatePatch Marshal cs = Ok patch \<longrightarrow> distinct (map nc_Type cs) \<longrightarrow>
        PatchStatus name patch srv = (r, srv') \<longrightarrow>
        (\<forall>t. t \<notin> nc_Type ` set cs \<longrightarrow> view name srv' t = view name srv t) \<and>
        ((\<exists>node. r = Ok node) \<longrightarrow> (\<forall>c \<in> set cs. view name srv' (nc_Type c) = Some c)))"

definition node_shown ::
    "(string \<Rightarrow> 'srv \<Rightarrow> string \<rightharpoonup> NodeCondition) \<Rightarrow> 'r nodeProblemClient \<times> 'srv \<Rightarrow> string \<rightharpoonup> NodeCondition" where
  "node_shown view s t = map_option nc_body (view (npc_nodeName (fst s)) (snd s) t)"

lemma cacheNodeRef_nodeName [simp, npd_frame]:
  "npc_nodeName (cacheNodeRef uid c) = npc_nodeName c"
  "npc_nodeRef (cacheNodeRef uid c) = npc_nodeRef c"
  by (simp_all add: cacheNodeRef_def)

lemma patch_attempt_cases:
  assumes "patch_attempt PatchStatus patch (c, srv) = (r, (c', srv'))"
  obtains (ok) node where "PatchStatus (npc_nodeName c) patch srv = (Ok node, srv')" "r = None"
      "c' = cacheNodeRef (n_UID node) c"
    | (failed) err where "PatchStatus (npc_nodeName c) patch srv = (Err err, srv')" "r = Some err" "c' = c"
  using assms by (auto simp: patch_attempt_def split: prod.splits sum.splits)

lemma heartbeat_map:
  fixes now cs
  defines "cs' \<equiv> map (\<lambda>(i, c). c\<lparr>nc_LastHeartbeatTime := now i\<rparr>) (enumerate 0 cs)"
  shows "map nc_Type cs' = map nc_Type cs" and "map nc_body cs' = map nc_body cs"
  unfolding cs'_def by (auto simp: enumerate_eq_zip zip_map_fst_snd intro!: nth_equalityI)

lemma SetConditions_cases:
  assumes "nodeProblemClient_SetConditions now Marshal PatchStatus cs s = (r, s')"
  obtains (unencoded) err where "r = Some err" "s' = s"
    | (tried) cs' patch errs where "map nc_Type cs' = map nc_Type cs" "map nc_body cs' = map nc_body cs"
        "generatePatch Marshal cs' = Ok patch"
        "attempts DefaultRetry_Steps (patch_attempt PatchStatus patch) s = (errs, s')"
        "r = (if length errs = DefaultRetry_Steps then Some (last errs) else None)"
proof -
  let ?cs = "map (\<lambda>(i, c). c\<lparr>nc_LastHeartbeatTime := now i\<rparr>) (enumerate 0 cs)"
  show thesis
  proof (cases "generatePatch Marshal ?cs")
    case (Inl err)
    with assms unencoded show thesis by (auto simp: nodeProblemClient_SetConditions_def Let_def)
  next
    case (Inr patch)
    obtain errs t where a: "attempts DefaultRetry_Steps (patch_attempt PatchStatus patch) s = (errs, t)"
      by (metis surj_pair)
    have pos: "0 < DefaultRetry_Steps" by (simp add: DefaultRetry_Steps_def)
    have "(r, s') = (if length errs = DefaultRetry_Steps then Some (last errs) else None, t)"
      using assms Inr a by (simp add: nodeProblemClient_SetConditions_def Let_def retry_OnError_attempts [OF pos])
    with tried [OF heartbeat_map Inr, of errs] a show thesis by simp
  qed
qed

lemma patch_attempt_frame:
  assumes "patch_law Marshal PatchStatus view" and "generatePatch Marshal cs = Ok patch"
    and "distinct (map nc_Type cs)" and "t \<notin> nc_Type ` set cs"
    and "patch_attempt PatchStatus patch s = (r, s')"
  shows "npc_nodeName (fst s') = npc_nodeName (fst s)" and "node_shown view s' t = node_shown view s t"
proof -
  obtain c srv c' srv' where s: "s = (c, srv)" "s' = (c', srv')" by fastforce
  from assms(5) have "npc_nodeName c' = npc_nodeName c \<and> (\<exists>r. PatchStatus (npc_nodeName c) patch srv = (r, srv'))"
    unfolding s by (cases rule: patch_attempt_cases) auto
  with assms(1-4) s show "npc_nodeName (fst s') = npc_nodeName (fst s)" and "node_shown view s' t = node_shown view s t"
    unfolding patch_law_def node_shown_def by auto
qed

lemma patch_attempt_name:
  "patch_attempt PatchStatus patch s = (r, s') \<Longrightarrow> npc_nodeName (fst s') = npc_nodeName (fst s)"
  by (cases s; cases s') (auto elim: patch_attempt_cases)

lemma patch_attempt_shows:
  assumes "patch_law Marshal PatchStatus view" and "generatePatch Marshal cs = Ok patch"
    and "distinct (map nc_Type cs)" and "c \<in> set cs"
    and "patch_attempt PatchStatus patch s = (None, s')"
  shows "node_shown view s' (nc_Type c) = Some (nc_body c)"
proof -
  obtain d srv d' srv' where s: "s = (d, srv)" "s' = (d', srv')" by fastforce
  from assms(5) have "npc_nodeName d' = npc_nodeName d \<and> (\<exists>node. PatchStatus (npc_nodeName d) patch srv = (Ok node, srv'))"
    unfolding s by (cases rule: patch_attempt_cases) auto
  with assms(1-4) s show ?thesis unfolding patch_law_def node_shown_def by auto
qed

lemma map_eq_member:
  assumes "map f xs = map f ys" and "map g xs = map g ys" and "y \<in> set ys"
  shows "\<exists>x \<in> set xs. f x = f y \<and> g x = g y"
proof -
  obtain i where i: "i < length ys" "y = ys ! i" using assms(3) by (auto simp: in_set_conv_nth)
  moreover have "length xs = length ys" using assms(1) by (metis length_map)
  ultimately have "xs ! i \<in> set xs" "f (xs ! i) = f y" "g (xs ! i) = g y"
    using assms(1,2) by (auto dest!: arg_cong [where f = "\<lambda>l. l ! i"])
  then show ?thesis by blast
qed

lemma node_client_set_ok:
  assumes law: "patch_law Marshal PatchStatus view"
    and set: "nodeProblemClient_SetConditions now Marshal PatchStatus cs s = (None, s')"
    and dist: "distinct (map nc_Type cs)" and c: "c \<in> set cs"
  shows "node_shown view s' (nc_Type c) = Some (nc_body c)"
  using set
proof (cases rule: SetConditions_cases)
  case (tried cs' patch errs)
  then have "length errs \<noteq> DefaultRetry_Steps" by (auto split: if_splits)
  then have "length errs < DefaultRetry_Steps"
    using attempts_length [of DefaultRetry_Steps "patch_attempt PatchStatus patch" s] tried(4) by simp
  then obtain u where u: "patch_attempt PatchStatus patch u = (None, s')"
    using attempts_success_invariant [OF tried(4), where I = "\<lambda>_. True"] by blast
  obtain c' where c': "c' \<in> set cs'" "nc_Type c' = nc_Type c" "nc_body c' = nc_body c"
    using map_eq_member [OF tried(1,2) c] by blast
  have "distinct (map nc_Type cs')" using dist tried(1) by simp
  from patch_attempt_shows [OF law tried(3) this c'(1) u] c' show ?thesis by simp
qed auto

lemma node_client_set_frame:
  assumes law: "patch_law Marshal PatchStatus view"
    and set: "nodeProblemClient_SetConditions now Marshal PatchStatus cs s = (r, s')"
    and dist: "distinct (map nc_Type cs)" and t: "t \<notin> nc_Type ` set cs"
  shows "node_shown view s' t = node_shown view s t"
  using set
proof (cases rule: SetConditions_cases)
  case (tried cs' patch errs)
  have types: "distinct (map nc_Type cs')" "t \<notin> nc_Type ` set cs'"
    using dist t tried(1) by (metis, metis image_set)
  note frame = patch_attempt_frame(2) [OF law tried(3) types]
  have "node_shown view (snd (attempts DefaultRetry_Steps (patch_attempt PatchStatus patch) s)) t = node_shown view s t"
    by (rule attempts_invariant [where I = "\<lambda>u. node_shown view u t = node_shown view s t"])
      (simp, drule frame, simp)
  with tried(4) show ?thesis by simp
qed auto

subsection \<open>The cache of the node reference\<close>

text \<open>The operations on a client, over some API server, in any order.\<close>

inductive client_step ::
    "(nat \<Rightarrow> gotime) \<Rightarrow> (NodeCondition list \<Rightarrow> 'e + string) \<Rightarrow> (string \<Rightarrow> string \<Rightarrow> 'srv \<Rightarrow> ('e + Node) \<times> 'srv) \<Rightarrow>
     (string \<Rightarrow> 'srv \<Rightarrow> ('e + Node) \<times> 'srv) \<Rightarrow> (string \<Rightarrow> string \<Rightarrow> string \<Rightarrow> 'r) \<Rightarrow>
     'r nodeProblemClient \<times> 'srv \<Rightarrow> 'r nodeProblemClient \<times> 'srv \<Rightarrow> bool"
  for now Marshal PatchStatus Get getEventRecorder where
  step_GetNode: "nodeProblemClient_GetNode Get s = (r, s') \<Longrightarrow>
     client_step now Marshal PatchStatus Get getEventRecorder s s'"
| step_GetConditions: "nodeProblemClient_GetConditions Get types s = (rs, s') \<Longrightarrow>
     client_step now Marshal PatchStatus Get getEventRecorder s s'"
| step_SetConditions: "nodeProblemClient_SetConditions now Marshal PatchStatus cs s = (e, s') \<Longrightarrow>
     client_step now Marshal PatchStatus Get getEventRecorder s s'"
| step_Eventf: "nodeProblemClient_Eventf getEventRecorder ty source reason msg c = (ev, c') \<Longrightarrow>
     client_step now Marshal PatchStatus Get getEventRecorder (c, srv) (c', srv)"

definition client_ok :: "(string \<Rightarrow> string \<Rightarrow> string \<Rightarrow> 'r) \<Rightarrow> string \<Rightarrow> string \<Rightarrow> 'r nodeProblemClient \<Rightarrow> bool" where
  "client_ok getEventRecorder nodeName namespace c \<longleftrightarrow>
     npc_nodeName c = nodeName \<and> npc_eventNamespace c = namespace \<and> npc_nodeRef c = getNodeRef namespace nodeName \<and>
     (\<forall>ref. npc_cachedNodeRef c = Some ref \<longrightarrow>
        (\<exists>uid. uid \<noteq> [] \<and> ref = (getNodeRef namespace nodeName)\<lparr>or_UID := uid\<rparr>)) \<and>
     (\<forall>source r. npc_recorders c source = Some r \<longrightarrow> r = getEventRecorder namespace nodeName source)"

text \<open>What one operation does to the client: it keeps it well formed and never replaces a cached reference.\<close>

definition client_keeps :: "(string \<Rightarrow> string \<Rightarrow> string \<Rightarrow> 'r) \<Rightarrow> 'r nodeProblemClient \<Rightarrow> 'r nodeProblemClient \<Rightarrow> bool" where
  "client_keeps getEventRecorder c c' \<longleftrightarrow>
     (\<forall>name ns. client_ok getEventRecorder name ns c \<longrightarrow> client_ok getEventRecorder name ns c') \<and>
     (\<forall>ref. npc_cachedNodeRef c = Some ref \<longrightarrow> npc_cachedNodeRef c' = Some ref)"

lemma client_keeps_refl [simp]: "client_keeps g c c"
  by (simp add: client_keeps_def)

lemma client_keeps_trans: "client_keeps g c d \<Longrightarrow> client_keeps g d e \<Longrightarrow> client_keeps g c e"
  by (simp add: client_keeps_def)

lemma client_keeps_cache [simp]: "client_keeps g c (cacheNodeRef uid c)"
  by (auto simp: client_keeps_def client_ok_def cacheNodeRef_def)

lemma client_keeps_GetNode:
  "nodeProblemClient_GetNode Get (c, srv) = (r, (c', srv')) \<Longrightarrow> client_keeps g c c'"
  by (auto simp: nodeProblemClient_GetNode_def split: prod.splits sum.splits)

lemma client_keeps_SetConditions:
  assumes "nodeProblemClient_SetConditions now Marshal PatchStatus cs (c, srv) = (r, (c', srv'))"
  shows "client_keeps g c c'"
  using assms
proof (cases rule: SetConditions_cases)
  case (tried cs' patch errs)
  have attempt: "client_keeps g (fst u) (fst v)" if "patch_attempt PatchStatus patch u = (r, v)" for u r v
    using that by (cases u; cases v) (auto elim!: patch_attempt_cases)
  have "client_keeps g c (fst (snd (attempts DefaultRetry_Steps (patch_attempt PatchStatus patch) (c, srv))))"
    by (rule attempts_invariant [where I = "\<lambda>s. client_keeps g c (fst s)"])
      (auto dest: attempt intro: client_keeps_trans)
  with tried(4) show ?thesis by simp
qed auto

lemma client_keeps_Eventf:
  "nodeProblemClient_Eventf g ty source reason msg c = (ev, c') \<Longrightarrow> client_keeps g c c'"
  by (cases "npc_recorders c source")
    (auto simp: nodeProblemClient_Eventf_def client_keeps_def client_ok_def Let_def split: if_splits)

lemma client_step_keeps:
  assumes "client_step now Marshal PatchStatus Get g s s'"
  shows "client_keeps g (fst s) (fst s')"
  using assms
proof (cases rule: client_step.cases)
  case (step_GetNode r)
  then show ?thesis by (cases s; cases s') (auto dest: client_keeps_GetNode)
next
  case (step_GetConditions types rs)
  then show ?thesis
    by (cases s; cases s') (auto simp: nodeProblemClient_GetConditions_def dest!: client_keeps_GetNode
        split: prod.splits sum.splits)
next
  case (step_SetConditions cs e)
  then show ?thesis by (cases s; cases s') (auto dest: client_keeps_SetConditions)
next
  case (step_Eventf ty source reason msg c ev c' srv)
  then show ?thesis by (auto dest: client_keeps_Eventf)
qed

lemma client_steps_keep:
  "(client_step now Marshal PatchStatus Get g)\<^sup>*\<^sup>* s s' \<Longrightarrow> client_keeps g (fst s) (fst s')"
  by (induction rule: rtranclp_induct) (auto intro: client_keeps_trans dest: client_step_keeps)

subsection \<open>Properties\<close>


text \<open>
  \<^verbatim>\<open>SetConditions\<close> asks the server at most five times. It succeeds as soon as one attempt
  does, and when it fails after having encoded the patch it reports the error of the fifth.
\<close>

theorem set_conditions_attempts:
  assumes "generatePatch Marshal (map (\<lambda>(i, c). c\<lparr>nc_LastHeartbeatTime := now i\<rparr>) (enumerate 0 cs)) = Ok patch"
  shows "nodeProblemClient_SetConditions now Marshal PatchStatus cs s =
    (let (errs, s') = attempts 5 (patch_attempt PatchStatus patch) s
     in (if length errs = 5 then Some (last errs) else None, s'))"
proof -
  have "(0 :: nat) < 5" by simp
  from assms retry_OnError_attempts [OF this] show ?thesis
    by (simp add: nodeProblemClient_SetConditions_def DefaultRetry_Steps_def)
qed

text \<open>
  Over any sequence of operations of a new client and whatever the API server answers, events
  refer to the node by the first non-empty UID the server reported, once there is one, and never
  by another; the recorder of a source is made for that source.
\<close>

theorem node_ref_cached_once:
  assumes "(client_step now Marshal PatchStatus Get g)\<^sup>*\<^sup>* (new_client name ns, srv0) (c, srv)"
    and "(client_step now Marshal PatchStatus Get g)\<^sup>*\<^sup>* (c, srv) (c', srv')"
  shows "client_ok g name ns c \<and> or_Name (nodeRefWithUID c) = name \<and>
    (or_UID (nodeRefWithUID c) \<noteq> [] \<longrightarrow> nodeRefWithUID c' = nodeRefWithUID c)"
proof -
  have "client_ok g name ns (new_client name ns)" by (simp add: client_ok_def new_client_def)
  with client_steps_keep [OF assms(1)] have ok: "client_ok g name ns c" by (simp add: client_keeps_def)
  then have "or_Name (nodeRefWithUID c) = name"
    by (cases "npc_cachedNodeRef c") (auto simp: client_ok_def nodeRefWithUID_def getNodeRef_def)
  moreover have "or_UID (nodeRefWithUID c) \<noteq> [] \<longrightarrow> nodeRefWithUID c' = nodeRefWithUID c"
    using client_steps_keep [OF assms(2)] ok
    by (cases "npc_cachedNodeRef c") (auto simp: client_keeps_def client_ok_def nodeRefWithUID_def getNodeRef_def)
  ultimately show ?thesis using ok by simp
qed

subsection \<open>Witnesses\<close>

definition sample_nc :: NodeCondition where
  "sample_nc = \<lparr>nc_Type = ''KernelDeadlock'', nc_Status = ConditionTrue, nc_LastHeartbeatTime = 7,
     nc_LastTransitionTime = 3, nc_Reason = ''TaskHung'', nc_Message = ''task hung''\<rparr>"

text \<open>A server whose first patch fails, for one node and an encoder that knows one condition.\<close>

definition sample_marshal :: "NodeCondition list \<Rightarrow> unit + string" where
  "sample_marshal cs = (if cs = [sample_nc] then Ok ''[K]'' else Err ())"

definition sample_patch_status ::
    "string \<Rightarrow> string \<Rightarrow> nat \<times> (string \<rightharpoonup> NodeCondition) \<Rightarrow> (unit + Node) \<times> nat \<times> (string \<rightharpoonup> NodeCondition)" where
  "sample_patch_status name patch srv =
     (case srv of (n, m) \<Rightarrow>
        if n = 0 then (Err (), 1, m)
        else (Ok \<lparr>n_UID = ''uid-1'', n_Conditions = []\<rparr>, n, m(''KernelDeadlock'' \<mapsto> sample_nc)))"

lemma sample_patch_law: "patch_law sample_marshal sample_patch_status (\<lambda>name srv. snd srv)"
  by (auto simp: patch_law_def generatePatch_def sample_marshal_def sample_patch_status_def sample_nc_def
      split: sum.splits if_splits prod.splits)

text \<open>The client of the API on this server.\<close>

interpretation node_client: condition_client "nodeProblemClient_SetConditions now sample_marshal sample_patch_status"
    "node_shown (\<lambda>name srv. snd srv)" for now
  by unfold_locales (auto intro: node_client_set_ok [OF sample_patch_law] node_client_set_frame [OF sample_patch_law])

definition sample_node_client :: "unit nodeProblemClient" where
  "sample_node_client = new_client ''node-1'' ''default''"

lemma sample_set_conditions:
  "nodeProblemClient_SetConditions (\<lambda>_. 7) sample_marshal sample_patch_status [nc_body sample_nc]
     (sample_node_client, 0, Map.empty) =
   (None, cacheNodeRef ''uid-1'' sample_node_client, 1, [''KernelDeadlock'' \<mapsto> sample_nc])"
  by (simp add: nodeProblemClient_SetConditions_def generatePatch_def sample_marshal_def sample_nc_def nc_body_def
      DefaultRetry_Steps_def retry_OnError_def patch_attempt_def sample_patch_status_def numeral_eq_Suc)


theorem set_conditions_attempts_witness:
  "fst (nodeProblemClient_SetConditions (\<lambda>_. 7) sample_marshal sample_patch_status [nc_body sample_nc]
     (sample_node_client, 0, Map.empty)) = None"
proof -
  have "generatePatch sample_marshal (map (\<lambda>(i, c). c\<lparr>nc_LastHeartbeatTime := 7\<rparr>) (enumerate 0 [nc_body sample_nc]))
      = Ok ''{\"status\":{\"conditions\":[K]}}''"
    by (simp add: generatePatch_def sample_marshal_def sample_nc_def nc_body_def)
  from set_conditions_attempts [OF this, of sample_patch_status "(sample_node_client, 0, Map.empty)"] show ?thesis
    by (simp add: numeral_eq_Suc patch_attempt_def sample_patch_status_def)
qed

theorem node_ref_cached_once_witness:
  "or_UID (nodeRefWithUID (cacheNodeRef ''uid-1'' sample_node_client)) = ''uid-1'' \<and>
   client_ok (\<lambda>_ _ _. ()) ''node-1'' ''default'' (cacheNodeRef ''uid-1'' sample_node_client)"
proof -
  let ?step = "client_step (\<lambda>_. 7) sample_marshal sample_patch_status (\<lambda>_ srv. (Err (), srv)) (\<lambda>_ _ _. ())"
  have "?step (new_client ''node-1'' ''default'', 0, Map.empty)
      (cacheNodeRef ''uid-1'' sample_node_client, 1, [''KernelDeadlock'' \<mapsto> sample_nc])"
    using step_SetConditions [OF sample_set_conditions] by (simp add: sample_node_client_def)
  then have "?step\<^sup>*\<^sup>* (new_client ''node-1'' ''default'', 0, Map.empty)
      (cacheNodeRef ''uid-1'' sample_node_client, 1, [''KernelDeadlock'' \<mapsto> sample_nc])" by (rule r_into_rtranclp)
  from node_ref_cached_once [OF this rtranclp.rtrancl_refl]
  show ?thesis by (simp add: nodeRefWithUID_def cacheNodeRef_def sample_node_client_def new_client_def)
qed

end
