(* ===== verification/Condition_Manager.thy ===== *)
theory Condition_Manager
  imports Problem_Client
begin

text \<open>
  The condition manager (\<^verbatim>\<open>pkg/exporters/k8sexporter/condition/manager.go\<close>): the map of pending
  updates, the map of current conditions, the three reasons to synchronise and the loop that
  does it, as a step relation in which callers of \<^verbatim>\<open>UpdateCondition\<close> interleave with the loop.

  A Go map is a map here; the order in which Go ranges over it is an argument, any list that
  enumerates its keys. The client is an argument too, and what the manager relies on is
  \<open>condition_client\<close>.
\<close>

definition zero_Condition :: Condition where
  "zero_Condition = \<lparr>c_Type = [], c_Status = [], c_Transition = zero_time, c_Reason = [], c_Message = []\<rparr>"

definition updatePeriod :: duration where "updatePeriod = 1 * Second"
definition resyncPeriod :: duration where "resyncPeriod = 10 * Second"

record conditionManager =
  cm_latestTry :: gotime
  cm_resyncNeeded :: bool
  cm_updates :: "string \<rightharpoonup> Condition"
  cm_conditions :: "string \<rightharpoonup> Condition"
  cm_heartbeatPeriod :: duration

definition NewConditionManager :: "duration \<Rightarrow> conditionManager" where
  "NewConditionManager heartbeatPeriod =
     \<lparr>cm_latestTry = zero_time, cm_resyncNeeded = False, cm_updates = Map.empty, cm_conditions = Map.empty,
      cm_heartbeatPeriod = heartbeatPeriod\<rparr>"

definition conditionManager_UpdateCondition :: "Condition \<Rightarrow> conditionManager \<Rightarrow> conditionManager" where
  "conditionManager_UpdateCondition condition c =
     c\<lparr>cm_updates := (cm_updates c)(c_Type condition \<mapsto> condition)\<rparr>"

definition conditionManager_GetConditions :: "string list \<Rightarrow> conditionManager \<Rightarrow> Condition list" where
  "conditionManager_GetConditions order c = List.map_filter (cm_conditions c) order"

text \<open>Reading a missing key of a map of conditions gives the zero condition.\<close>

definition current :: "conditionManager \<Rightarrow> string \<Rightarrow> Condition" where
  "current c t = (case cm_conditions c t of Some condition \<Rightarrow> condition | None \<Rightarrow> zero_Condition)"

definition needUpdates_body :: "string \<Rightarrow> bool \<times> conditionManager \<Rightarrow> bool \<times> conditionManager" where
  "needUpdates_body t st =
     (case st of (needUpdate, c) \<Rightarrow>
        case cm_updates c t of
          None \<Rightarrow> (needUpdate, c)
        | Some update \<Rightarrow>
            let (needUpdate, c) =
                  (if current c t \<noteq> update
                   then (True, c\<lparr>cm_conditions := (cm_conditions c)(t \<mapsto> update)\<rparr>)
                   else (needUpdate, c))
            in (needUpdate, c\<lparr>cm_updates := (cm_updates c)(t := None)\<rparr>))"

definition conditionManager_needUpdates :: "string list \<Rightarrow> conditionManager \<Rightarrow> bool \<times> conditionManager" where
  "conditionManager_needUpdates order c = fold needUpdates_body order (False, c)"

definition conditionManager_needResync :: "gotime \<Rightarrow> conditionManager \<Rightarrow> bool" where
  "conditionManager_needResync now c \<longleftrightarrow> time_Sub now (cm_latestTry c) \<ge> resyncPeriod \<and> cm_resyncNeeded c"

definition conditionManager_needHeartbeat :: "gotime \<Rightarrow> conditionManager \<Rightarrow> bool" where
  "conditionManager_needHeartbeat now c \<longleftrightarrow> time_Sub now (cm_latestTry c) \<ge> cm_heartbeatPeriod c"

text \<open>Converting a condition with an unknown status panics.\<close>

definition conditionManager_sync ::
    "(NodeCondition list \<Rightarrow> 's \<Rightarrow> 'e option \<times> 's) \<Rightarrow> string list \<Rightarrow> gotime \<Rightarrow> conditionManager \<Rightarrow> 's
      \<Rightarrow> convert_panic + conditionManager \<times> 's" where
  "conditionManager_sync SetConditions order now c client =
     (let c = c\<lparr>cm_latestTry := now, cm_resyncNeeded := False\<rparr> in
      case map_res (\<lambda>i. ConvertToAPICondition (the (cm_conditions c i))) order of
        Inl panic \<Rightarrow> Err panic
      | Inr conditions \<Rightarrow>
          (case SetConditions conditions client of
             (None, client') \<Rightarrow> Ok (c, client')
           | (Some err, client') \<Rightarrow> Ok (c\<lparr>cm_resyncNeeded := True\<rparr>, client')))"

subsection \<open>The loop\<close>

text \<open>
  \<^verbatim>\<open>syncLoop\<close> waits for its ticker or its context, or has decided to synchronise, has returned,
  or has panicked. \<open>sl_last\<close> records the last condition passed to \<^verbatim>\<open>UpdateCondition\<close> for each
  type, and \<open>sl_syncs\<close> the times of the attempts to synchronise, newest first. \<open>good\<close> is what the
  callers of \<^verbatim>\<open>UpdateCondition\<close> guarantee of the conditions they pass.
\<close>

datatype sync_pc = SyncWait | SyncDue | SyncReturned | SyncPanicked

record 's syncLoop =
  sl_mgr :: conditionManager
  sl_client :: 's
  sl_pc :: sync_pc
  sl_last :: "string \<rightharpoonup> Condition"
  sl_syncs :: "gotime list"

definition sync_start :: "duration \<Rightarrow> 's \<Rightarrow> 's syncLoop" where
  "sync_start heartbeatPeriod client =
     \<lparr>sl_mgr = NewConditionManager heartbeatPeriod, sl_client = client, sl_pc = SyncWait,
      sl_last = Map.empty, sl_syncs = []\<rparr>"

inductive sync_step ::
    "(Condition \<Rightarrow> bool) \<Rightarrow> (NodeCondition list \<Rightarrow> 's \<Rightarrow> 'e option \<times> 's) \<Rightarrow> 's syncLoop \<Rightarrow> 's syncLoop \<Rightarrow> bool"
  for good SetConditions where
  sync_update: "good condition \<Longrightarrow>
     sync_step good SetConditions s
       (s\<lparr>sl_mgr := conditionManager_UpdateCondition condition (sl_mgr s),
          sl_last := (sl_last s)(c_Type condition \<mapsto> condition)\<rparr>)"
| sync_tick: "sl_pc s = SyncWait \<Longrightarrow> map_order (cm_updates (sl_mgr s)) order \<Longrightarrow>
     conditionManager_needUpdates order (sl_mgr s) = (needUpdate, c) \<Longrightarrow>
     sync_step good SetConditions s
       (s\<lparr>sl_mgr := c,
          sl_pc := if needUpdate \<or> conditionManager_needResync now c \<or> conditionManager_needHeartbeat now' c
                   then SyncDue else SyncWait\<rparr>)"
| sync_sync: "sl_pc s = SyncDue \<Longrightarrow> map_order (cm_conditions (sl_mgr s)) order \<Longrightarrow>
     conditionManager_sync SetConditions order now (sl_mgr s) (sl_client s) = Ok (c, client) \<Longrightarrow>
     sync_step good SetConditions s
       (s\<lparr>sl_mgr := c, sl_client := client, sl_pc := SyncWait, sl_syncs := now # sl_syncs s\<rparr>)"
| sync_panic: "sl_pc s = SyncDue \<Longrightarrow> map_order (cm_conditions (sl_mgr s)) order \<Longrightarrow>
     conditionManager_sync SetConditions order now (sl_mgr s) (sl_client s) = Err panic \<Longrightarrow>
     sync_step good SetConditions s (s\<lparr>sl_pc := SyncPanicked\<rparr>)"
| sync_done: "sl_pc s = SyncWait \<Longrightarrow> sync_step good SetConditions s (s\<lparr>sl_pc := SyncReturned\<rparr>)"

subsection \<open>The pending updates\<close>

text \<open>What \<^verbatim>\<open>needUpdates\<close> does, whatever the order of the keys.\<close>

definition merged :: "conditionManager \<Rightarrow> string \<rightharpoonup> Condition" where
  "merged c t =
     (case cm_updates c t of
        None \<Rightarrow> cm_conditions c t
      | Some update \<Rightarrow> if current c t \<noteq> update then Some update else cm_conditions c t)"

lemma needUpdates_fold:
  assumes "distinct order"
  shows "fold needUpdates_body order (b, c) =
    (b \<or> (\<exists>t \<in> set order. \<exists>u. cm_updates c t = Some u \<and> current c t \<noteq> u),
     c\<lparr>cm_conditions := (\<lambda>t. if t \<in> set order then merged c t else cm_conditions c t),
       cm_updates := (\<lambda>t. if t \<in> set order then None else cm_updates c t)\<rparr>)"
  using assms
proof (induction order arbitrary: b c)
  case Nil
  then show ?case by simp
next
  case (Cons k ks)
  obtain b' c' where body: "needUpdates_body k (b, c) = (b', c')" by fastforce
  have b': "b' = (b \<or> (\<exists>u. cm_updates c k = Some u \<and> current c k \<noteq> u))"
    and c': "c' = c\<lparr>cm_conditions := (cm_conditions c)(k := merged c k), cm_updates := (cm_updates c)(k := None)\<rparr>"
    using body by (auto simp: needUpdates_body_def merged_def Let_def fun_upd_idem split: option.splits if_splits)
  have other: "cm_updates c' t = cm_updates c t" "current c' t = current c t" "merged c' t = merged c t" if "t \<noteq> k" for t
    using that by (cases "cm_updates c t"; simp add: c' current_def merged_def)+
  have nk: "t \<noteq> k" if "t \<in> set ks" for t using Cons.prems that by auto
  have "fold needUpdates_body (k # ks) (b, c) = fold needUpdates_body ks (b', c')" by (simp add: body)
  also have "\<dots> = (b' \<or> (\<exists>t \<in> set ks. \<exists>u. cm_updates c t = Some u \<and> current c t \<noteq> u),
      c'\<lparr>cm_conditions := (\<lambda>t. if t \<in> set ks then merged c t else cm_conditions c' t),
         cm_updates := (\<lambda>t. if t \<in> set ks then None else cm_updates c' t)\<rparr>)"
    using Cons.IH [of b' c'] Cons.prems by (auto simp: other nk cong: if_cong)
  finally show ?case
    by (auto simp: b' c' fun_eq_iff)
qed

lemma needUpdates_spec:
  assumes "map_order (cm_updates c) order"
  shows "conditionManager_needUpdates order c =
    (\<exists>t u. cm_updates c t = Some u \<and> current c t \<noteq> u, c\<lparr>cm_conditions := merged c, cm_updates := Map.empty\<rparr>)"
proof -
  have "t \<in> set order \<longleftrightarrow> cm_updates c t \<noteq> None" for t using assms by (auto simp: map_order_def)
  moreover have "merged c t = cm_conditions c t" if "cm_updates c t = None" for t using that by (simp add: merged_def)
  ultimately show ?thesis
    using needUpdates_fold [of order False c] assms
    by (auto simp: conditionManager_needUpdates_def map_order_def fun_eq_iff)
qed

lemma merged_unchanged:
  assumes "\<not> (\<exists>t u. cm_updates c t = Some u \<and> current c t \<noteq> u)"
  shows "merged c = cm_conditions c"
  using assms by (auto simp: merged_def fun_eq_iff split: option.splits)

lemma sync_cases:
  assumes "conditionManager_sync SetConditions order now c client = Ok (c', client')"
  obtains cs r where "map_res (\<lambda>i. ConvertToAPICondition (the (cm_conditions c i))) order = Ok cs"
    "SetConditions cs client = (r, client')"
    "c' = c\<lparr>cm_latestTry := now, cm_resyncNeeded := (r \<noteq> None)\<rparr>"
  using assms by (auto simp: conditionManager_sync_def Let_def split: sum.splits prod.splits option.splits)

lemma ConvertToAPICondition_body:
  "ConvertToAPICondition c = Ok nc \<Longrightarrow> nc_Type nc = c_Type c \<and> nc_body nc = nc"
  by (auto simp: ConvertToAPICondition_def nc_body_def)

subsection \<open>The loop keeps the node up to date\<close>

text \<open>
  The last update of a type is pending or current (an update equal to the zero condition does
  not create an entry); everything in the maps came from a caller.
\<close>

definition manager_ok :: "(Condition \<Rightarrow> bool) \<Rightarrow> (string \<rightharpoonup> Condition) \<Rightarrow> conditionManager \<Rightarrow> bool" where
  "manager_ok good last_update c \<longleftrightarrow>
     (\<forall>t u. cm_updates c t = Some u \<longrightarrow> last_update t = Some u \<and> c_Type u = t \<and> good u) \<and>
     (\<forall>t u. cm_conditions c t = Some u \<longrightarrow> c_Type u = t \<and> good u) \<and>
     (\<forall>t u. last_update t = Some u \<longrightarrow> cm_updates c t = Some u \<or> cm_updates c t = None \<and> current c t = u)"

lemma manager_ok_update [npd_inv]:
  assumes "manager_ok good last_update c" and "good u"
  shows "manager_ok good (last_update(c_Type u \<mapsto> u)) (conditionManager_UpdateCondition u c)"
  using assms by (auto simp: manager_ok_def conditionManager_UpdateCondition_def current_def)

lemma manager_ok_merged [npd_inv]:
  assumes "manager_ok good last_update c"
  shows "manager_ok good last_update (c\<lparr>cm_conditions := merged c, cm_updates := Map.empty\<rparr>)"
proof -
  have "merged c t = Some u \<longrightarrow> c_Type u = t \<and> good u" for t u
    using assms by (auto simp: manager_ok_def merged_def split: option.splits if_splits)
  moreover have "(case merged c t of Some d \<Rightarrow> d | None \<Rightarrow> zero_Condition) = u" if "last_update t = Some u" for t u
    using assms that by (fastforce simp: manager_ok_def merged_def current_def split: option.splits if_splits)
  ultimately show ?thesis by (simp add: manager_ok_def current_def)
qed

lemma manager_ok_flags [simp]:
  "manager_ok good last_update (c\<lparr>cm_latestTry := now, cm_resyncNeeded := b\<rparr>) = manager_ok good last_update c"
  by (simp add: manager_ok_def current_def)

text \<open>The invariant of the loop that holds for every client.\<close>

definition loop_inv :: "(Condition \<Rightarrow> bool) \<Rightarrow> duration \<Rightarrow> 's syncLoop \<Rightarrow> bool" where
  "loop_inv good heartbeatPeriod s \<longleftrightarrow>
     manager_ok good (sl_last s) (sl_mgr s) \<and> cm_heartbeatPeriod (sl_mgr s) = heartbeatPeriod \<and>
     cm_latestTry (sl_mgr s) = (case sl_syncs s of [] \<Rightarrow> zero_time | now # _ \<Rightarrow> now) \<and>
     (sl_pc s = SyncPanicked \<longrightarrow> (\<exists>u. good u \<and> \<not> known_status u))"

lemma map_res_Err: "map_res f xs = Err e \<Longrightarrow> \<exists>x \<in> set xs. f x = Err e"
  by (induction xs) (auto simp: and_then_def split: sum.splits)

lemma loop_inv_step:
  assumes "sync_step good SetConditions s s'" and "loop_inv good heartbeatPeriod s"
  shows "loop_inv good heartbeatPeriod s'"
  using assms(1)
proof (cases rule: sync_step.cases)
  case (sync_update u)
  with assms(2) show ?thesis
    by (auto simp: loop_inv_def manager_ok_update) (auto simp: conditionManager_UpdateCondition_def)
next
  case (sync_tick order need c now now')
  have c: "c = (sl_mgr s)\<lparr>cm_conditions := merged (sl_mgr s), cm_updates := Map.empty\<rparr>"
    using needUpdates_spec [OF sync_tick(3)] sync_tick(4) by simp
  have "manager_ok good (sl_last s) c"
    unfolding c using assms(2) by (intro manager_ok_merged) (simp add: loop_inv_def)
  with assms(2) show ?thesis unfolding sync_tick(1) by (auto simp: loop_inv_def c)
next
  case (sync_sync order now c client)
  with assms(2) show ?thesis by (auto simp: loop_inv_def elim!: sync_cases)
next
  case (sync_panic order now panic)
  have "map_res (\<lambda>i. ConvertToAPICondition (the (cm_conditions (sl_mgr s) i))) order = Err panic"
    using sync_panic(4) by (auto simp: conditionManager_sync_def Let_def split: sum.splits prod.splits option.splits)
  then obtain i where i: "i \<in> set order" "ConvertToAPICondition (the (cm_conditions (sl_mgr s) i)) = Err panic"
    by (auto dest: map_res_Err)
  then obtain u where u: "cm_conditions (sl_mgr s) i = Some u" using sync_panic(3) by (auto simp: map_order_def)
  moreover have "good u" using u assms(2) by (auto simp: loop_inv_def manager_ok_def)
  moreover have "\<not> known_status u" using i(2) u ConvertToAPICondition_total [of u] by auto
  ultimately show ?thesis using assms(2) unfolding sync_panic(1) by (auto simp: loop_inv_def)
next
  case sync_done
  with assms(2) show ?thesis by (simp add: loop_inv_def)
qed

lemma loop_inv_reachable:
  assumes "(sync_step good SetConditions)\<^sup>*\<^sup>* (sync_start heartbeatPeriod client) s"
  shows "loop_inv good heartbeatPeriod s"
proof -
  have "loop_inv good heartbeatPeriod (sync_start heartbeatPeriod client)"
    by (simp add: loop_inv_def sync_start_def NewConditionManager_def manager_ok_def)
  with assms show ?thesis by (induction rule: rtranclp_induct) (auto intro: loop_inv_step)
qed

context condition_client
begin

definition up_to_date :: "conditionManager \<Rightarrow> 's \<Rightarrow> bool" where
  "up_to_date c client \<longleftrightarrow>
     (\<forall>t u. cm_conditions c t = Some u \<longrightarrow> (\<exists>nc. ConvertToAPICondition u = Ok nc \<and> shown client t = Some nc))"

lemma sync_up_to_date:
  assumes "conditionManager_sync SetConditions order now c client = Ok (c', client')"
    and "map_order (cm_conditions c) order" and "manager_ok good last_update c"
  shows "cm_resyncNeeded c' \<or> up_to_date c' client'"
  using assms(1)
proof (cases rule: sync_cases)
  case (1 cs r)
  have conv: "list_all2 (\<lambda>i nc. ConvertToAPICondition (the (cm_conditions c i)) = Ok nc) order cs"
    using 1(1) by (simp add: map_res_Inr_iff)
  have ty: "c_Type (the (cm_conditions c t)) = t" if "t \<in> set order" for t
    using that assms(2,3) by (auto simp: map_order_def manager_ok_def)
  have pair: "nc_Type (cs ! i) = order ! i" "nc_body (cs ! i) = cs ! i"
      "ConvertToAPICondition (the (cm_conditions c (order ! i))) = Ok (cs ! i)" if "i < length order" for i
    using list_all2_nthD [OF conv that] ty [of "order ! i"] that
    by (auto dest: ConvertToAPICondition_body)
  have len: "length cs = length order" using conv by (simp add: list_all2_lengthD)
  have "map nc_Type cs = order" using pair(1) len by (auto intro: nth_equalityI)
  then have dist: "distinct (map nc_Type cs)" using assms(2) by (simp add: map_order_def)
  have "\<exists>nc. ConvertToAPICondition u = Ok nc \<and> shown client' t = Some nc"
    if r: "r = None" and u: "cm_conditions c t = Some u" for t u
  proof -
    have "t \<in> set order" using u assms(2) by (auto simp: map_order_def)
    then obtain i where i: "i < length order" "order ! i = t" by (auto simp: in_set_conv_nth)
    have "cs ! i \<in> set cs" using i len by simp
    with set_ok [OF 1(2) [unfolded r] dist this] pair [OF i(1)] u i(2) show ?thesis by auto
  qed
  with 1(3) show ?thesis by (cases r) (auto simp: up_to_date_def)
qed

text \<open>Whenever the loop waits, the node shows the current conditions or a resync is needed.\<close>

lemma waiting_step:
  assumes "sync_step good SetConditions s s'" and "loop_inv good heartbeatPeriod s"
    and "sl_pc s = SyncWait \<Longrightarrow> cm_resyncNeeded (sl_mgr s) \<or> up_to_date (sl_mgr s) (sl_client s)"
    and "sl_pc s' = SyncWait"
  shows "cm_resyncNeeded (sl_mgr s') \<or> up_to_date (sl_mgr s') (sl_client s')"
  using assms(1)
proof (cases rule: sync_step.cases)
  case (sync_update u)
  with assms(3,4) show ?thesis by (simp add: up_to_date_def conditionManager_UpdateCondition_def)
next
  case (sync_tick order need c now now')
  have "c = (sl_mgr s)\<lparr>cm_conditions := merged (sl_mgr s), cm_updates := Map.empty\<rparr>"
    and "need = (\<exists>t u. cm_updates (sl_mgr s) t = Some u \<and> current (sl_mgr s) t \<noteq> u)"
    using needUpdates_spec [OF sync_tick(3)] sync_tick(4) by simp_all
  moreover have "\<not> need" using sync_tick(1) assms(4) by (auto split: if_splits)
  ultimately show ?thesis
    using assms(3) [OF sync_tick(2)] merged_unchanged [of "sl_mgr s"] sync_tick(1) by (simp add: up_to_date_def)
next
  case (sync_sync order now c client)
  have "manager_ok good (sl_last s) (sl_mgr s)" using assms(2) by (simp add: loop_inv_def)
  from sync_up_to_date [OF sync_sync(4,3) this] sync_sync(1) show ?thesis by simp
qed (use assms(4) in simp_all)

lemma waiting_reachable:
  assumes "(sync_step good SetConditions)\<^sup>*\<^sup>* (sync_start heartbeatPeriod client) s" and "sl_pc s = SyncWait"
  shows "cm_resyncNeeded (sl_mgr s) \<or> up_to_date (sl_mgr s) (sl_client s)"
  using assms
proof (induction rule: rtranclp_induct)
  case base
  show ?case by (simp add: sync_start_def NewConditionManager_def up_to_date_def)
next
  case (step s s')
  from waiting_step [OF step(2) loop_inv_reachable [OF step(1)] step(3) step(4)] show ?case .
qed

lemma latest_shown:
  assumes "manager_ok good last_update c" and "up_to_date c client"
    and "last_update t = Some u" and "u \<noteq> zero_Condition" and "cm_updates c t = None"
  shows "\<exists>nc. ConvertToAPICondition u = Ok nc \<and> shown client t = Some nc"
proof -
  have "current c t = u" using assms(1,3,5) unfolding manager_ok_def by (metis option.distinct(1))
  then have "cm_conditions c t = Some u" using assms(4) by (auto simp: current_def split: option.splits)
  with assms(2) show ?thesis by (simp add: up_to_date_def)
qed

end

lemma time_Sub_ge: "0 < h \<Longrightarrow> h \<le> time_Sub t u \<Longrightarrow> u + h \<le> t"
  by (simp add: time_Sub_def max_def min_def split: if_splits)

subsection \<open>Properties\<close>

text \<open>
  C2: whatever the interleaving of updates, ticks and synchronisations, and for every client that
  keeps its contract: when the loop waits and no resync is outstanding, the node shows, for every
  type whose update is no longer pending, the last condition that was passed to
  \<^verbatim>\<open>UpdateCondition\<close>.
\<close>

theorem sync_keeps_node_current:
  assumes "condition_client SetConditions shown"
    and "(sync_step good SetConditions)\<^sup>*\<^sup>* (sync_start heartbeatPeriod client) s"
    and "sl_pc s = SyncWait" and "\<not> cm_resyncNeeded (sl_mgr s)"
    and "sl_last s t = Some u" and "u \<noteq> zero_Condition" and "cm_updates (sl_mgr s) t = None"
  shows "\<exists>nc. ConvertToAPICondition u = Ok nc \<and> shown (sl_client s) t = Some nc"
proof -
  have cur: "condition_client.up_to_date shown (sl_mgr s) (sl_client s)"
    using condition_client.waiting_reachable [OF assms(1-3)] assms(4) by simp
  have ok: "manager_ok good (sl_last s) (sl_mgr s)"
    using loop_inv_reachable [OF assms(2)] by (simp add: loop_inv_def)
  show ?thesis by (rule condition_client.latest_shown [OF assms(1) ok cur assms(5-7)])
qed

text \<open>
  C21: a pending update that differs from the current condition makes the next tick synchronise,
  and if the client then accepts the conditions the node shows that update.
\<close>

theorem pending_update_delivered:
  assumes "condition_client SetConditions shown"
    and "(sync_step good SetConditions)\<^sup>*\<^sup>* (sync_start heartbeatPeriod client) s"
    and "cm_updates (sl_mgr s) t = Some u" and "current (sl_mgr s) t \<noteq> u" and "u \<noteq> zero_Condition"
    and "map_order (cm_updates (sl_mgr s)) order"
    and "conditionManager_needUpdates order (sl_mgr s) = (needUpdate, c)"
  shows "needUpdate \<and>
    (\<forall>order' now c' client'. map_order (cm_conditions c) order' \<longrightarrow>
       conditionManager_sync SetConditions order' now c (sl_client s) = Ok (c', client') \<longrightarrow> \<not> cm_resyncNeeded c' \<longrightarrow>
       (\<exists>nc. ConvertToAPICondition u = Ok nc \<and> shown client' t = Some nc))"
proof -
  have c: "c = (sl_mgr s)\<lparr>cm_conditions := merged (sl_mgr s), cm_updates := Map.empty\<rparr>"
    and need: needUpdate
    using needUpdates_spec [OF assms(6)] assms(3,4,7) by auto
  have inv: "manager_ok good (sl_last s) (sl_mgr s)" using loop_inv_reachable [OF assms(2)] by (simp add: loop_inv_def)
  then have ok: "manager_ok good (sl_last s) c" unfolding c by (rule manager_ok_merged)
  have "sl_last s t = Some u" using inv assms(3) by (simp add: manager_ok_def)
  then have "\<exists>nc. ConvertToAPICondition u = Ok nc \<and> shown client' t = Some nc"
    if "map_order (cm_conditions c) order'" "conditionManager_sync SetConditions order' now c (sl_client s) = Ok (c', client')"
      "\<not> cm_resyncNeeded c'" for order' now c' client'
  proof -
    have c': "manager_ok good (sl_last s) c'" "cm_updates c' t = None"
      using that(2) ok by (auto elim!: sync_cases) (simp add: c)
    from condition_client.sync_up_to_date [OF assms(1) that(2,1) ok] that(3)
    have "condition_client.up_to_date shown c' client'" by simp
    from condition_client.latest_shown [OF assms(1) c'(1) this \<open>sl_last s t = Some u\<close> assms(5) c'(2)] show ?thesis .
  qed
  with need show ?thesis by blast
qed



text \<open>
  When every condition passed to the manager has one of the three statuses, converting them
  for the API server never panics.
\<close>

theorem sync_never_panics:
  assumes "(sync_step good SetConditions)\<^sup>*\<^sup>* (sync_start heartbeatPeriod client) s"
    and "\<And>u. good u \<Longrightarrow> known_status u"
  shows "sl_pc s \<noteq> SyncPanicked"
  using loop_inv_reachable [OF assms(1)] assms(2) by (auto simp: loop_inv_def)

subsection \<open>Witnesses\<close>

definition sample_deadlock :: Condition where
  "sample_deadlock = \<lparr>c_Type = ''KernelDeadlock'', c_Status = CondTrue, c_Transition = 5,
     c_Reason = ''TaskHung'', c_Message = ''task hung''\<rparr>"

definition sample_api :: NodeCondition where
  "sample_api = \<lparr>nc_Type = ''KernelDeadlock'', nc_Status = ConditionTrue, nc_LastHeartbeatTime = zero_time,
     nc_LastTransitionTime = 5, nc_Reason = ''TaskHung'', nc_Message = ''task hung''\<rparr>"

definition sample_client :: "unit FakeProblemClient" where "sample_client = NewFakeProblemClient"

text \<open>After one update, and after the tick and the synchronisation that follow it.\<close>

definition sample_pending :: "unit FakeProblemClient syncLoop" where
  "sample_pending = (sync_start (60 * Second) sample_client)
     \<lparr>sl_mgr := (NewConditionManager (60 * Second))\<lparr>cm_updates := [''KernelDeadlock'' \<mapsto> sample_deadlock]\<rparr>,
      sl_last := [''KernelDeadlock'' \<mapsto> sample_deadlock]\<rparr>"

definition sample_merged_mgr :: conditionManager where
  "sample_merged_mgr = (NewConditionManager (60 * Second))\<lparr>cm_conditions := [''KernelDeadlock'' \<mapsto> sample_deadlock]\<rparr>"

definition sample_synced :: "unit FakeProblemClient syncLoop" where
  "sample_synced = sample_pending
     \<lparr>sl_mgr := sample_merged_mgr\<lparr>cm_latestTry := Second\<rparr>,
      sl_client := sample_client\<lparr>fpc_conditions := [''KernelDeadlock'' \<mapsto> sample_api]\<rparr>, sl_syncs := [Second]\<rparr>"

lemma sample_pending_reachable:
  "(sync_step known_status FakeProblemClient_SetConditions)\<^sup>*\<^sup>* (sync_start (60 * Second) sample_client) sample_pending"
proof -
  have "sync_step known_status FakeProblemClient_SetConditions (sync_start (60 * Second) sample_client)
    ((sync_start (60 * Second) sample_client)
       \<lparr>sl_mgr := conditionManager_UpdateCondition sample_deadlock (sl_mgr (sync_start (60 * Second) sample_client)),
        sl_last := (sl_last (sync_start (60 * Second) sample_client))(c_Type sample_deadlock \<mapsto> sample_deadlock)\<rparr>)"
    by (rule sync_update) (simp add: known_status_def sample_deadlock_def)
  then show ?thesis
    by (intro r_into_rtranclp)
      (simp add: sample_pending_def sync_start_def NewConditionManager_def conditionManager_UpdateCondition_def sample_deadlock_def)
qed

lemma sample_convert: "ConvertToAPICondition sample_deadlock = Ok sample_api"
  by (simp add: ConvertToAPICondition_def ConvertToAPIConditionStatus_def sample_deadlock_def sample_api_def
      ConvertToAPITimestamp_def)

lemma sample_needUpdates:
  "conditionManager_needUpdates [''KernelDeadlock''] (sl_mgr sample_pending) = (True, sample_merged_mgr)"
  by (simp add: conditionManager_needUpdates_def needUpdates_body_def sample_pending_def sample_merged_mgr_def
      NewConditionManager_def current_def zero_Condition_def sample_deadlock_def fun_upd_idem)

lemma sample_sync:
  "conditionManager_sync FakeProblemClient_SetConditions [''KernelDeadlock''] Second sample_merged_mgr sample_client =
     Ok (sample_merged_mgr\<lparr>cm_latestTry := Second\<rparr>, sample_client\<lparr>fpc_conditions := [''KernelDeadlock'' \<mapsto> sample_api]\<rparr>)"
  by (simp add: conditionManager_sync_def sample_merged_mgr_def sample_convert FakeProblemClient_SetConditions_def
      sample_client_def NewFakeProblemClient_def NewConditionManager_def sample_api_def)

lemma sample_orders:
  "map_order (cm_updates (sl_mgr sample_pending)) [''KernelDeadlock'']"
  "map_order (cm_conditions sample_merged_mgr) [''KernelDeadlock'']"
  by (simp_all add: map_order_def sample_pending_def sample_merged_mgr_def)

lemma sample_synced_reachable:
  "(sync_step known_status FakeProblemClient_SetConditions)\<^sup>*\<^sup>* (sync_start (60 * Second) sample_client) sample_synced"
proof -
  let ?step = "sync_step known_status FakeProblemClient_SetConditions"
  let ?due = "sample_pending\<lparr>sl_mgr := sample_merged_mgr, sl_pc := SyncDue\<rparr>"
  have "sl_pc sample_pending = SyncWait" by (simp add: sample_pending_def sync_start_def)
  from sync_tick [OF this sample_orders(1) sample_needUpdates] have "?step sample_pending ?due" by simp
  moreover have "?step ?due (?due\<lparr>sl_mgr := sample_merged_mgr\<lparr>cm_latestTry := Second\<rparr>,
      sl_client := sample_client\<lparr>fpc_conditions := [''KernelDeadlock'' \<mapsto> sample_api]\<rparr>, sl_pc := SyncWait,
      sl_syncs := Second # sl_syncs ?due\<rparr>)"
    by (rule sync_sync [where order = "[''KernelDeadlock'']"]) (simp_all add: sample_orders(2) sample_sync sample_pending_def sync_start_def)
  then have "?step ?due sample_synced"
    by (simp add: sample_synced_def sample_pending_def sync_start_def)
  ultimately show ?thesis
    using sample_pending_reachable by (meson rtranclp.rtrancl_into_rtrancl)
qed

lemma sample_synced_fields:
  "sl_pc sample_synced = SyncWait" "\<not> cm_resyncNeeded (sl_mgr sample_synced)"
  "sl_last sample_synced ''KernelDeadlock'' = Some sample_deadlock" "cm_updates (sl_mgr sample_synced) = Map.empty"
  "sl_syncs sample_synced = [Second]"
  by (simp_all add: sample_synced_def sample_pending_def sync_start_def sample_merged_mgr_def NewConditionManager_def)

lemma sample_deadlock_not_zero: "sample_deadlock \<noteq> zero_Condition"
  by (simp add: sample_deadlock_def zero_Condition_def)

theorem sync_keeps_node_current_witness:
  "fake_shown (sl_client sample_synced) ''KernelDeadlock'' = Some sample_api"
proof -
  have none: "cm_updates (sl_mgr sample_synced) ''KernelDeadlock'' = None" by (simp add: sample_synced_fields)
  from sync_keeps_node_current [OF fake_client.condition_client_axioms sample_synced_reachable sample_synced_fields(1-3)
      sample_deadlock_not_zero none] sample_convert show ?thesis by auto
qed

theorem pending_update_delivered_witness:
  "fake_shown (sample_client\<lparr>fpc_conditions := [''KernelDeadlock'' \<mapsto> sample_api]\<rparr>) ''KernelDeadlock'' = Some sample_api"
proof -
  have "cm_updates (sl_mgr sample_pending) ''KernelDeadlock'' = Some sample_deadlock"
    "current (sl_mgr sample_pending) ''KernelDeadlock'' \<noteq> sample_deadlock"
    by (simp_all add: sample_pending_def current_def NewConditionManager_def sample_deadlock_not_zero [symmetric])
  from pending_update_delivered [OF fake_client.condition_client_axioms sample_pending_reachable this
      sample_deadlock_not_zero sample_orders(1) sample_needUpdates]
  have "\<exists>nc. ConvertToAPICondition sample_deadlock = Ok nc \<and>
      fake_shown (sample_client\<lparr>fpc_conditions := [''KernelDeadlock'' \<mapsto> sample_api]\<rparr>) ''KernelDeadlock'' = Some nc"
    using sample_orders(2) sample_sync
    by (auto simp: sample_pending_def sync_start_def sample_merged_mgr_def NewConditionManager_def)
  with sample_convert show ?thesis by simp
qed



theorem sync_never_panics_witness: "sl_pc sample_synced \<noteq> SyncPanicked"
  using sync_never_panics [OF sample_synced_reachable] by simp

end
