(* ===== verification/Registry.thy ===== *)
theory Registry
  imports NPD_Types
begin

text \<open>
  The registries of problem daemons and exporters (\<^verbatim>\<open>pkg/problemdaemon/problem_daemon.go\<close> and
  \<^verbatim>\<open>pkg/exporters/register.go\<close>): global maps from a type's name to its handler, and the creation
  of the configured daemons and exporters.

  A map is a map here and the order in which Go ranges over it an argument. A constructor that
  may die returns a sum, with what it died of on the left; calling the missing function of the
  zero handler panics.
\<close>

datatype 'e registry_panic = NilHandler string | UnknownHandler string | CreateDied 'e

subsection \<open>Problem daemons\<close>

record ('m, 'e) ProblemDaemonHandler =
  pdh_CreateProblemDaemonOrDie :: "string \<Rightarrow> 'e + 'm"
  pdh_CmdOptionDescription :: string

definition problemdaemon_Register ::
    "string \<Rightarrow> ('m, 'e) ProblemDaemonHandler \<Rightarrow> (string \<rightharpoonup> ('m, 'e) ProblemDaemonHandler)
      \<Rightarrow> (string \<rightharpoonup> ('m, 'e) ProblemDaemonHandler)" where
  "problemdaemon_Register problemDaemonType handler handlers = handlers(problemDaemonType \<mapsto> handler)"

definition GetProblemDaemonNames :: "string list \<Rightarrow> (string \<rightharpoonup> ('m, 'e) ProblemDaemonHandler) \<Rightarrow> string list" where
  "GetProblemDaemonNames order handlers = filter (\<lambda>t. handlers t \<noteq> None) order"

definition GetProblemDaemonHandlerOrDie ::
    "string \<Rightarrow> (string \<rightharpoonup> ('m, 'e) ProblemDaemonHandler) \<Rightarrow> 'e registry_panic + ('m, 'e) ProblemDaemonHandler" where
  "GetProblemDaemonHandlerOrDie problemDaemonType handlers =
     (case handlers problemDaemonType of None \<Rightarrow> Err (UnknownHandler problemDaemonType) | Some h \<Rightarrow> Ok h)"

definition create_daemon ::
    "(string \<rightharpoonup> ('m, 'e) ProblemDaemonHandler) \<Rightarrow> string \<Rightarrow> string \<Rightarrow> (string \<rightharpoonup> 'm)
      \<Rightarrow> 'e registry_panic + (string \<rightharpoonup> 'm)" where
  "create_daemon handlers problemDaemonType config problemDaemonMap =
     (if problemDaemonMap config \<noteq> None then Ok problemDaemonMap
      else case handlers problemDaemonType of
             None \<Rightarrow> Err (NilHandler problemDaemonType)
           | Some h \<Rightarrow>
               (case pdh_CreateProblemDaemonOrDie h config of
                  Inl e \<Rightarrow> Err (CreateDied e)
                | Inr m \<Rightarrow> Ok (problemDaemonMap(config \<mapsto> m))))"

text \<open>
  \<open>order\<close> is the order of the types. The daemons come out in the order Go ranges over the map it
  has filled; \<open>order'\<close> gives it for every map.
\<close>

definition daemon_map ::
    "(string \<rightharpoonup> ('m, 'e) ProblemDaemonHandler) \<Rightarrow> string list \<Rightarrow> (string \<rightharpoonup> string list)
      \<Rightarrow> 'e registry_panic + (string \<rightharpoonup> 'm)" where
  "daemon_map handlers order monitorConfigPaths =
     fold_res (\<lambda>t. fold_res (create_daemon handlers t) (the (monitorConfigPaths t))) order Map.empty"

definition NewProblemDaemons ::
    "(string \<rightharpoonup> ('m, 'e) ProblemDaemonHandler) \<Rightarrow> string list \<Rightarrow> ((string \<rightharpoonup> 'm) \<Rightarrow> string list) \<Rightarrow>
     (string \<rightharpoonup> string list) \<Rightarrow> 'e registry_panic + 'm list" where
  "NewProblemDaemons handlers order order' monitorConfigPaths =
     and_then (daemon_map handlers order monitorConfigPaths)
       (\<lambda>problemDaemonMap. Ok (List.map_filter problemDaemonMap (order' problemDaemonMap)))"

subsection \<open>Exporters\<close>

record ('x, 'o, 'e) ExporterHandler =
  eh_CreateExporterOrDie :: "'o \<Rightarrow> 'e + 'x option"
  eh_Options :: 'o

definition exporters_Register ::
    "string \<Rightarrow> ('x, 'o, 'e) ExporterHandler \<Rightarrow> (string \<rightharpoonup> ('x, 'o, 'e) ExporterHandler)
      \<Rightarrow> (string \<rightharpoonup> ('x, 'o, 'e) ExporterHandler)" where
  "exporters_Register exporterType handler handlers = handlers(exporterType \<mapsto> handler)"

definition GetExporterNames :: "string list \<Rightarrow> (string \<rightharpoonup> ('x, 'o, 'e) ExporterHandler) \<Rightarrow> string list" where
  "GetExporterNames order handlers = filter (\<lambda>t. handlers t \<noteq> None) order"

definition GetExporterHandlerOrDie ::
    "string \<Rightarrow> (string \<rightharpoonup> ('x, 'o, 'e) ExporterHandler) \<Rightarrow> 'e registry_panic + ('x, 'o, 'e) ExporterHandler" where
  "GetExporterHandlerOrDie exporterType handlers =
     (case handlers exporterType of None \<Rightarrow> Err (UnknownHandler exporterType) | Some h \<Rightarrow> Ok h)"

definition NewExporters ::
    "string list \<Rightarrow> (string \<rightharpoonup> ('x, 'o, 'e) ExporterHandler) \<Rightarrow> 'e registry_panic + 'x list" where
  "NewExporters order handlers =
     fold_res (\<lambda>t exporters.
       case handlers t of
         None \<Rightarrow> Ok exporters
       | Some h \<Rightarrow>
           (case eh_CreateExporterOrDie h (eh_Options h) of
              Inl e \<Rightarrow> Err (CreateDied e)
            | Inr None \<Rightarrow> Ok exporters
            | Inr (Some x) \<Rightarrow> Ok (exporters @ [x]))) order []"

subsection \<open>The daemons that are created\<close>

text \<open>
  \<open>made handlers t c m\<close>: \<open>m\<close> is what the handler of type \<open>t\<close> makes of the path \<open>c\<close> that \<open>t\<close> lists.
\<close>

definition made :: "(string \<rightharpoonup> ('m, 'e) ProblemDaemonHandler) \<Rightarrow> string \<Rightarrow> string \<Rightarrow> 'm \<Rightarrow> bool" where
  "made handlers t c m \<longleftrightarrow> (\<exists>h. handlers t = Some h \<and> pdh_CreateProblemDaemonOrDie h c = Ok m)"

lemma create_daemons_type:
  assumes "fold_res (create_daemon handlers t) cs m0 = Ok m1"
  shows "dom m1 = dom m0 \<union> set cs \<and>
    (\<forall>c x. m1 c = Some x \<longrightarrow> m0 c = Some x \<or> c \<in> set cs \<and> made handlers t c x)"
  using assms
proof (induction cs arbitrary: m0)
  case (Cons c cs)
  from Cons.prems obtain m where m: "create_daemon handlers t c m0 = Ok m" "fold_res (create_daemon handlers t) cs m = Ok m1"
    by auto
  have step: "m = m0 \<and> c \<in> dom m0 \<or> (\<exists>x. m0 c = None \<and> m = m0(c \<mapsto> x) \<and> made handlers t c x)"
    using m(1) by (auto simp: create_daemon_def made_def split: if_splits option.splits sum.splits)
  note IH = Cons.IH [OF m(2)]
  have "m0 d = Some x \<or> d \<in> set (c # cs) \<and> made handlers t d x" if "m1 d = Some x" for d x
    using IH step that by (cases "d = c") fastforce+
  moreover have "dom m1 = dom m0 \<union> set (c # cs)" using IH step by auto
  ultimately show ?case by blast
qed simp

lemma daemon_map_types:
  assumes "fold_res (\<lambda>t. fold_res (create_daemon handlers t) (the (paths t))) ts m0 = Ok m1"
  shows "dom m1 = dom m0 \<union> (\<Union>t \<in> set ts. set (the (paths t))) \<and>
    (\<forall>c x. m1 c = Some x \<longrightarrow> m0 c = Some x \<or> (\<exists>t \<in> set ts. c \<in> set (the (paths t)) \<and> made handlers t c x))"
  using assms
proof (induction ts arbitrary: m0)
  case (Cons t ts)
  from Cons.prems obtain m where m: "fold_res (create_daemon handlers t) (the (paths t)) m0 = Ok m"
    "fold_res (\<lambda>t. fold_res (create_daemon handlers t) (the (paths t))) ts m = Ok m1" by auto
  note IH = Cons.IH [OF m(2)] and type = create_daemons_type [OF m(1)]
  have "m1 c = Some x \<Longrightarrow> m0 c = Some x \<or> (\<exists>t \<in> set (t # ts). c \<in> set (the (paths t)) \<and> made handlers t c x)" for c x
    using IH type by (metis list.set_intros(1) list.set_intros(2))
  with IH type show ?case by auto
qed simp

subsection \<open>Properties\<close>

text \<open>
  When the problem daemons are created, there is exactly one for every distinct configuration
  path, however often and under however many types it is listed, made from that path by the
  handler of a type that lists it.
\<close>

theorem one_daemon_per_path:
  assumes "NewProblemDaemons handlers order order' paths = Ok daemons"
    and "map_order paths order" and "\<And>m. daemon_map handlers order paths = Ok m \<Longrightarrow> map_order m (order' m)"
  shows "length daemons = card (\<Union>t \<in> dom paths. set (the (paths t))) \<and>
    (\<forall>d \<in> set daemons. \<exists>t c. t \<in> dom paths \<and> c \<in> set (the (paths t)) \<and> made handlers t c d)"
proof -
  obtain m where m: "daemon_map handlers order paths = Ok m" "daemons = List.map_filter m (order' m)"
    using assms(1) by (auto simp: NewProblemDaemons_def)
  have ord: "set order = dom paths" "distinct (order' m)" "set (order' m) = dom m"
    using assms(2,3) m(1) by (simp_all add: map_order_def)
  note types = daemon_map_types [OF m(1) [unfolded daemon_map_def]]
  have daemons: "daemons = map (\<lambda>c. the (m c)) (order' m)"
    unfolding m(2) ord(3) [symmetric] List.map_filter_def by (rule map_cong) (use ord(3) in \<open>auto simp: filter_id_conv\<close>)
  have "length daemons = card (dom m)" using distinct_card [OF ord(2)] ord(3) by (simp add: daemons)
  moreover have "dom m = (\<Union>t \<in> dom paths. set (the (paths t)))" using types ord(1) by simp
  moreover have "\<exists>t c. t \<in> dom paths \<and> c \<in> set (the (paths t)) \<and> made handlers t c d" if "d \<in> set daemons" for d
  proof -
    from that obtain c where "m c = Some d" using ord(3) by (auto simp: daemons)
    with types ord(1) show ?thesis by fastforce
  qed
  ultimately show ?thesis by simp
qed

text \<open>Two types that share a path.\<close>

definition sample_handlers :: "string \<rightharpoonup> (string \<times> string, unit) ProblemDaemonHandler" where
  "sample_handlers =
     problemdaemon_Register ''a'' \<lparr>pdh_CreateProblemDaemonOrDie = \<lambda>c. Ok (''a'', c), pdh_CmdOptionDescription = []\<rparr>
     (problemdaemon_Register ''b'' \<lparr>pdh_CreateProblemDaemonOrDie = \<lambda>c. Ok (''b'', c), pdh_CmdOptionDescription = []\<rparr>
       Map.empty)"

definition sample_paths :: "string \<rightharpoonup> string list" where
  "sample_paths = [''a'' \<mapsto> [''x'', ''y'', ''x''], ''b'' \<mapsto> [''x'']]"

theorem one_daemon_per_path_witness:
  "NewProblemDaemons sample_handlers [''b'', ''a''] (\<lambda>_. [''y'', ''x'']) sample_paths =
     Ok [(''a'', ''y''), (''b'', ''x'')] \<and> card (\<Union>t \<in> dom sample_paths. set (the (sample_paths t))) = 2"
proof -
  have m: "daemon_map sample_handlers [''b'', ''a''] sample_paths = Ok [''x'' \<mapsto> (''b'', ''x''), ''y'' \<mapsto> (''a'', ''y'')]"
    by (simp add: daemon_map_def create_daemon_def sample_handlers_def problemdaemon_Register_def sample_paths_def)
  then have new: "NewProblemDaemons sample_handlers [''b'', ''a''] (\<lambda>_. [''y'', ''x'']) sample_paths =
      Ok [(''a'', ''y''), (''b'', ''x'')]"
    by (simp add: NewProblemDaemons_def List.map_filter_def)
  from one_daemon_per_path [OF new] m new show ?thesis by (auto simp: map_order_def sample_paths_def)
qed

end
