(* ===== verification/NPD_Options.thy ===== *)
theory NPD_Options
  imports Registry
begin

text \<open>
  The command line options (\<^verbatim>\<open>cmd/options/options.go\<close>): the options, the flags with their
  defaults, and the three steps that complete and check them before anything else runs. A
  pointer to a list of paths in the map of configurations is the list here, a missing or nil
  entry \<^term>\<open>None\<close>. Parsing of an URI, the environment and the host name are arguments.
\<close>

text \<open>A \<^verbatim>\<open>float32\<close> is its bit pattern; 500 is \<^term>\<open>0x43FA0000 :: 32 word\<close>.\<close>

type_synonym float32 = "32 word"

record NodeProblemDetectorOptions =
  o_PrintVersion :: bool
  o_HostnameOverride :: string
  o_ServerPort :: int
  o_ServerAddress :: string
  o_QPS :: float32
  o_Burst :: int
  o_EnableK8sExporter :: bool
  o_EventNamespace :: string
  o_ApiServerOverride :: string
  o_APIServerWaitTimeout :: duration
  o_APIServerWaitInterval :: duration
  o_K8sExporterHeartbeatPeriod :: duration
  o_K8sExporterWriteEvents :: bool
  o_K8sExporterUpdateNodeConditions :: bool
  o_PrometheusServerPort :: int
  o_PrometheusServerAddress :: string
  o_SystemLogMonitorConfigPaths :: "string list"
  o_CustomPluginMonitorConfigPaths :: "string list"
  o_MonitorConfigPaths :: "string \<rightharpoonup> string list"
  o_NodeName :: string

text \<open>The zero value with an empty list of paths for every registered problem daemon.\<close>

definition NewNodeProblemDetectorOptions :: "string list \<Rightarrow> NodeProblemDetectorOptions" where
  "NewNodeProblemDetectorOptions problemDaemonNames =
     \<lparr>o_PrintVersion = False, o_HostnameOverride = [], o_ServerPort = 0, o_ServerAddress = [], o_QPS = 0,
      o_Burst = 0, o_EnableK8sExporter = False, o_EventNamespace = [], o_ApiServerOverride = [],
      o_APIServerWaitTimeout = 0, o_APIServerWaitInterval = 0, o_K8sExporterHeartbeatPeriod = 0,
      o_K8sExporterWriteEvents = False, o_K8sExporterUpdateNodeConditions = False, o_PrometheusServerPort = 0,
      o_PrometheusServerAddress = [], o_SystemLogMonitorConfigPaths = [], o_CustomPluginMonitorConfigPaths = [],
      o_MonitorConfigPaths = fold (\<lambda>name m. m(name \<mapsto> [])) problemDaemonNames Map.empty, o_NodeName = []\<rparr>"

text \<open>
  \<^verbatim>\<open>AddFlags\<close>: declaring a flag stores its default in the variable of the option. A flag declared
  twice panics. \<open>exporterFlags\<close> are the flags the registered exporters declare.
\<close>

datatype flag_panic = FlagRedefined string

definition declare_flag ::
    "string \<times> (NodeProblemDetectorOptions \<Rightarrow> NodeProblemDetectorOptions) \<Rightarrow>
     string list \<times> NodeProblemDetectorOptions \<Rightarrow> flag_panic + string list \<times> NodeProblemDetectorOptions" where
  "declare_flag flag st =
     (case flag of (name, set_default) \<Rightarrow> case st of (flags, npdo) \<Rightarrow>
        if name \<in> set flags then Err (FlagRedefined name) else Ok (flags @ [name], set_default npdo))"

definition npd_flags :: "(string \<times> (NodeProblemDetectorOptions \<Rightarrow> NodeProblemDetectorOptions)) list" where
  "npd_flags =
     [(''system-log-monitors'', o_SystemLogMonitorConfigPaths_update (\<lambda>_. [])),
      (''custom-plugin-monitors'', o_CustomPluginMonitorConfigPaths_update (\<lambda>_. [])),
      (''enable-k8s-exporter'', o_EnableK8sExporter_update (\<lambda>_. True)),
      (''event-namespace'', o_EventNamespace_update (\<lambda>_. [])),
      (''apiserver-override'', o_ApiServerOverride_update (\<lambda>_. [])),
      (''apiserver-wait-timeout'', o_APIServerWaitTimeout_update (\<lambda>_. 5 * Minute)),
      (''apiserver-wait-interval'', o_APIServerWaitInterval_update (\<lambda>_. 5 * Second)),
      (''k8s-exporter-heartbeat-period'', o_K8sExporterHeartbeatPeriod_update (\<lambda>_. 5 * Minute)),
      (''k8s-exporter-write-events'', o_K8sExporterWriteEvents_update (\<lambda>_. True)),
      (''k8s-exporter-update-node-conditions'', o_K8sExporterUpdateNodeConditions_update (\<lambda>_. True)),
      (''version'', o_PrintVersion_update (\<lambda>_. False)),
      (''hostname-override'', o_HostnameOverride_update (\<lambda>_. [])),
      (''port'', o_ServerPort_update (\<lambda>_. 20256)),
      (''address'', o_ServerAddress_update (\<lambda>_. ''127.0.0.1'')),
      (''prometheus-port'', o_PrometheusServerPort_update (\<lambda>_. 20257)),
      (''prometheus-address'', o_PrometheusServerAddress_update (\<lambda>_. ''127.0.0.1'')),
      (''kube-api-qps'', o_QPS_update (\<lambda>_. 0x43FA0000)),
      (''kube-api-burst'', o_Burst_update (\<lambda>_. 500))]"

definition NodeProblemDetectorOptions_AddFlags ::
    "string list \<Rightarrow> string list \<Rightarrow> string list \<times> NodeProblemDetectorOptions
      \<Rightarrow> flag_panic + string list \<times> NodeProblemDetectorOptions" where
  "NodeProblemDetectorOptions_AddFlags exporterFlags problemDaemonNames st =
     fold_res declare_flag
       (npd_flags @ map (\<lambda>name. (name, id)) exporterFlags @
        map (\<lambda>name. (''config.'' @ name, o_MonitorConfigPaths_update (\<lambda>m. m(name \<mapsto> [])))) problemDaemonNames) st"

datatype 'e options_panic =
    InvalidApiServerOverride 'e
  | SystemLogPathsNotMoved
  | CustomPluginPathsNotMoved
  | NoConfiguration
  | SystemLogMonitorUnsupported
  | SystemLogMonitorsTwice
  | CustomPluginMonitorUnsupported
  | CustomPluginMonitorsTwice
  | NoHostname 'e

text \<open>\<open>order\<close> is the order in which the map of configurations is ranged over.\<close>

definition NodeProblemDetectorOptions_ValidOrDie ::
    "(string \<Rightarrow> 'e option) \<Rightarrow> string list \<Rightarrow> NodeProblemDetectorOptions \<Rightarrow> 'e options_panic option" where
  "NodeProblemDetectorOptions_ValidOrDie url_Parse order npdo =
     (case (o_EnableK8sExporter npdo, url_Parse (o_ApiServerOverride npdo)) of
        (True, Some err) \<Rightarrow> Some (InvalidApiServerOverride err)
      | _ \<Rightarrow>
          if o_SystemLogMonitorConfigPaths npdo \<noteq> [] then Some SystemLogPathsNotMoved
          else if o_CustomPluginMonitorConfigPaths npdo \<noteq> [] then Some CustomPluginPathsNotMoved
          else
            let configCount = sum_list (map (\<lambda>t. length (the (o_MonitorConfigPaths npdo t))) order)
            in if configCount = 0 then Some NoConfiguration else None)"

definition customPluginMonitorName :: string where "customPluginMonitorName = ''custom-plugin-monitor''"
definition systemLogMonitorName :: string where "systemLogMonitorName = ''system-log-monitor''"

definition move_system_log :: "NodeProblemDetectorOptions \<Rightarrow> 'e options_panic + NodeProblemDetectorOptions" where
  "move_system_log npdo =
     (if o_SystemLogMonitorConfigPaths npdo = [] then Ok npdo
      else case o_MonitorConfigPaths npdo systemLogMonitorName of
             None \<Rightarrow> Err SystemLogMonitorUnsupported
           | Some paths \<Rightarrow>
               if paths \<noteq> [] then Err SystemLogMonitorsTwice
               else Ok (npdo\<lparr>o_MonitorConfigPaths := (o_MonitorConfigPaths npdo)
                                (systemLogMonitorName \<mapsto> paths @ o_SystemLogMonitorConfigPaths npdo),
                            o_SystemLogMonitorConfigPaths := []\<rparr>))"

definition move_custom_plugin :: "NodeProblemDetectorOptions \<Rightarrow> 'e options_panic + NodeProblemDetectorOptions" where
  "move_custom_plugin npdo =
     (if o_CustomPluginMonitorConfigPaths npdo = [] then Ok npdo
      else case o_MonitorConfigPaths npdo customPluginMonitorName of
             None \<Rightarrow> Err CustomPluginMonitorUnsupported
           | Some paths \<Rightarrow>
               if paths \<noteq> [] then Err CustomPluginMonitorsTwice
               else Ok (npdo\<lparr>o_MonitorConfigPaths := (o_MonitorConfigPaths npdo)
                                (customPluginMonitorName \<mapsto> paths @ o_CustomPluginMonitorConfigPaths npdo),
                            o_CustomPluginMonitorConfigPaths := []\<rparr>))"

definition SetConfigFromDeprecatedOptionsOrDie ::
    "NodeProblemDetectorOptions \<Rightarrow> 'e options_panic + NodeProblemDetectorOptions" where
  "SetConfigFromDeprecatedOptionsOrDie npdo = and_then (move_system_log npdo) move_custom_plugin"

definition SetNodeNameOrDie ::
    "(string \<Rightarrow> string) \<Rightarrow> 'e + string \<Rightarrow> NodeProblemDetectorOptions \<Rightarrow> 'e options_panic + NodeProblemDetectorOptions" where
  "SetNodeNameOrDie Getenv Hostname npdo =
     (if o_HostnameOverride npdo \<noteq> [] then Ok (npdo\<lparr>o_NodeName := o_HostnameOverride npdo\<rparr>)
      else
        let npdo = npdo\<lparr>o_NodeName := Getenv ''NODE_NAME''\<rparr> in
        if o_NodeName npdo \<noteq> [] then Ok npdo
        else case Hostname of
               Inl err \<Rightarrow> Err (NoHostname err)
             | Inr nodeName \<Rightarrow> Ok (npdo\<lparr>o_NodeName := nodeName\<rparr>))"

text \<open>The three steps as \<^verbatim>\<open>npdMain\<close> runs them.\<close>

definition complete_options ::
    "(string \<Rightarrow> string) \<Rightarrow> 'e + string \<Rightarrow> (string \<Rightarrow> 'e option) \<Rightarrow> string list \<Rightarrow> NodeProblemDetectorOptions
      \<Rightarrow> 'e options_panic + NodeProblemDetectorOptions" where
  "complete_options Getenv Hostname url_Parse order npdo =
     and_then (SetNodeNameOrDie Getenv Hostname npdo) (\<lambda>npdo.
     and_then (SetConfigFromDeprecatedOptionsOrDie npdo) (\<lambda>npdo.
     case NodeProblemDetectorOptions_ValidOrDie url_Parse order npdo of
       Some panic \<Rightarrow> Err panic
     | None \<Rightarrow> Ok npdo))"

subsection \<open>Lemmas\<close>

definition all_paths :: "(string \<rightharpoonup> string list) \<Rightarrow> string set" where
  "all_paths m = (\<Union>t \<in> dom m. set (the (m t)))"

text \<open>Every path the user gave, by the options and by the deprecated options.\<close>

definition requested_paths :: "NodeProblemDetectorOptions \<Rightarrow> string set" where
  "requested_paths npdo = all_paths (o_MonitorConfigPaths npdo) \<union> set (o_SystemLogMonitorConfigPaths npdo) \<union>
     set (o_CustomPluginMonitorConfigPaths npdo)"

lemma all_paths_iff: "p \<in> all_paths m \<longleftrightarrow> (\<exists>t ps. m t = Some ps \<and> p \<in> set ps)"
  unfolding all_paths_def by (auto simp: dom_def, blast)

lemma all_paths_upd:
  assumes "m t = Some []"
  shows "all_paths (m(t \<mapsto> ps)) = all_paths m \<union> set ps"
proof (rule set_eqI)
  fix p
  show "p \<in> all_paths (m(t \<mapsto> ps)) \<longleftrightarrow> p \<in> all_paths m \<union> set ps"
    unfolding all_paths_iff Un_iff fun_upd_apply using assms by (metis empty_iff list.set(1) option.inject)
qed

lemma names_distinct: "systemLogMonitorName \<noteq> customPluginMonitorName"
  by (simp add: systemLogMonitorName_def customPluginMonitorName_def)

lemma move_system_log_ok:
  assumes "move_system_log npdo = Ok npdo'"
  shows "o_SystemLogMonitorConfigPaths npdo' = []" and "requested_paths npdo' = requested_paths npdo"
    and "dom (o_MonitorConfigPaths npdo') = dom (o_MonitorConfigPaths npdo)"
    and "o_CustomPluginMonitorConfigPaths npdo' = o_CustomPluginMonitorConfigPaths npdo"
    and "o_NodeName npdo' = o_NodeName npdo"
  using assms
  by (auto simp: move_system_log_def requested_paths_def all_paths_upd split: if_splits option.splits)

lemma move_custom_plugin_ok:
  assumes "move_custom_plugin npdo = Ok npdo'"
  shows "o_CustomPluginMonitorConfigPaths npdo' = []" and "requested_paths npdo' = requested_paths npdo"
    and "dom (o_MonitorConfigPaths npdo') = dom (o_MonitorConfigPaths npdo)"
    and "o_SystemLogMonitorConfigPaths npdo' = o_SystemLogMonitorConfigPaths npdo"
    and "o_NodeName npdo' = o_NodeName npdo"
  using assms
  by (auto simp: move_custom_plugin_def requested_paths_def all_paths_upd split: if_splits option.splits)

lemma SetNodeNameOrDie_ok:
  assumes "SetNodeNameOrDie Getenv Hostname npdo = Ok npdo'"
  shows "npdo' = npdo\<lparr>o_NodeName := o_NodeName npdo'\<rparr>"
    and "o_NodeName npdo' = (if o_HostnameOverride npdo \<noteq> [] then o_HostnameOverride npdo
           else if Getenv ''NODE_NAME'' \<noteq> [] then Getenv ''NODE_NAME'' else projr Hostname)"
  using assms by (auto simp: SetNodeNameOrDie_def Let_def split: if_splits sum.splits)

lemma declare_flags:
  "distinct (flags @ map fst fl) \<Longrightarrow>
   fold_res declare_flag fl (flags, npdo) = Ok (flags @ map fst fl, fold snd fl npdo)"
proof (induction fl arbitrary: flags npdo)
  case (Cons f fl)
  obtain name d where f: "f = (name, d)" by fastforce
  have "name \<notin> set flags" using Cons.prems f by simp
  with Cons.IH [of "flags @ [name]" "d npdo"] Cons.prems f show ?case by (simp add: declare_flag_def)
qed simp

lemma npd_flags_distinct: "distinct (map fst npd_flags)"
  by (simp add: npd_flags_def)

lemma npd_flags_no_config: "name \<in> fst ` set npd_flags \<Longrightarrow> take 7 name \<noteq> ''config.''"
  by (auto simp: npd_flags_def)

lemma config_flags_fold:
  "\<exists>m. fold snd (map (\<lambda>name. (''config.'' @ name, o_MonitorConfigPaths_update (\<lambda>m. m(name \<mapsto> [])))) ns) n
      = n\<lparr>o_MonitorConfigPaths := m\<rparr> \<and>
    (\<forall>name. name \<in> set ns \<or> o_MonitorConfigPaths n name = Some [] \<longrightarrow> m name = Some [])"
proof (induction ns arbitrary: n)
  case Nil
  show ?case by (intro exI [of _ "o_MonitorConfigPaths n"]) simp
next
  case (Cons k ns)
  let ?n = "n\<lparr>o_MonitorConfigPaths := (o_MonitorConfigPaths n)(k \<mapsto> [])\<rparr>"
  have eq: "o_MonitorConfigPaths_update (\<lambda>m. m(k \<mapsto> [])) n = ?n" by (cases n) simp
  obtain m where "fold snd (map (\<lambda>name. (''config.'' @ name, o_MonitorConfigPaths_update (\<lambda>m. m(name \<mapsto> [])))) ns) ?n
      = ?n\<lparr>o_MonitorConfigPaths := m\<rparr>"
    "\<forall>name. name \<in> set ns \<or> o_MonitorConfigPaths ?n name = Some [] \<longrightarrow> m name = Some []"
    using Cons.IH [of ?n] by blast
  then show ?case by (intro exI [of _ m]) (simp add: eq del: fun_upd_apply, simp)
qed

subsection \<open>Properties\<close>

text \<open>
  When completing the options does not panic, the deprecated options are empty, every path
  that was asked for by an option or a deprecated option is configured, there is at least one,
  and the node's name is the override if there is one, else the environment's, else the host's.
\<close>

theorem options_complete:
  fixes Hostname :: "'e + string"
  assumes "complete_options Getenv Hostname url_Parse order npdo = Ok npdo'"
    and "map_order (o_MonitorConfigPaths npdo') order"
  shows "o_SystemLogMonitorConfigPaths npdo' = [] \<and> o_CustomPluginMonitorConfigPaths npdo' = [] \<and>
    all_paths (o_MonitorConfigPaths npdo') = requested_paths npdo \<and> requested_paths npdo \<noteq> {} \<and>
    o_NodeName npdo' = (if o_HostnameOverride npdo \<noteq> [] then o_HostnameOverride npdo
      else if Getenv ''NODE_NAME'' \<noteq> [] then Getenv ''NODE_NAME'' else projr Hostname)"
proof -
  obtain a b where a: "SetNodeNameOrDie Getenv Hostname npdo = Ok a" 
    and b: "(move_system_log a :: 'e options_panic + NodeProblemDetectorOptions) = Ok b"
    and c: "(move_custom_plugin b :: 'e options_panic + NodeProblemDetectorOptions) = Ok npdo'"
    and v: "NodeProblemDetectorOptions_ValidOrDie url_Parse order npdo' = None"
    using assms(1) unfolding complete_options_def SetConfigFromDeprecatedOptionsOrDie_def
    by (auto split: option.splits)
  note A = SetNodeNameOrDie_ok [OF a] and B = move_system_log_ok [OF b] and C = move_custom_plugin_ok [OF c]
  have empty: "o_SystemLogMonitorConfigPaths npdo' = []" "o_CustomPluginMonitorConfigPaths npdo' = []"
    using B(1) C(1,4) by simp_all
  have "requested_paths a = requested_paths npdo" by (subst A(1)) (simp add: requested_paths_def)
  with B(2) C(2) have "requested_paths npdo' = requested_paths npdo" by simp
  then have paths: "all_paths (o_MonitorConfigPaths npdo') = requested_paths npdo"
    by (simp add: requested_paths_def empty)
  have "\<exists>t \<in> set order. the (o_MonitorConfigPaths npdo' t) \<noteq> []"
    using v by (auto simp: NodeProblemDetectorOptions_ValidOrDie_def Let_def split: option.splits if_splits bool.splits)
  then have "all_paths (o_MonitorConfigPaths npdo') \<noteq> {}"
    using assms(2) by (force simp: map_order_def all_paths_def)
  with empty paths A(2) B(5) C(5) show ?thesis by simp
qed

text \<open>
  As long as the exporters' flags and the problem daemons' names are distinct and do not
  collide with the detector's own, \<^verbatim>\<open>AddFlags\<close> declares every flag once, and every option has
  its documented default before the command line is read.
\<close>

theorem add_flags_defaults:
  assumes "distinct exporterFlags" and "distinct problemDaemonNames"
    and "\<forall>f \<in> set exporterFlags. f \<notin> fst ` set npd_flags \<and> take 7 f \<noteq> ''config.''"
  shows "\<exists>flags npdo'.
    NodeProblemDetectorOptions_AddFlags exporterFlags problemDaemonNames
      ([], NewNodeProblemDetectorOptions problemDaemonNames) = Ok (flags, npdo') \<and>
    length flags = 18 + length exporterFlags + length problemDaemonNames \<and>
    o_EnableK8sExporter npdo' \<and> o_ServerPort npdo' = 20256 \<and> o_PrometheusServerPort npdo' = 20257 \<and>
    o_K8sExporterHeartbeatPeriod npdo' = 5 * Minute \<and>
    (\<forall>name \<in> set problemDaemonNames. o_MonitorConfigPaths npdo' name = Some [])"
proof -
  let ?fl = "npd_flags @ map (\<lambda>name. (name, id)) exporterFlags @
    map (\<lambda>name. (''config.'' @ name, o_MonitorConfigPaths_update (\<lambda>m. m(name \<mapsto> [])))) problemDaemonNames"
  let ?npdo = "NewNodeProblemDetectorOptions problemDaemonNames"
  have eq: "map fst ?fl = map fst npd_flags @ exporterFlags @ map ((@) ''config.'') problemDaemonNames"
    by (simp add: comp_def)
  have "set exporterFlags \<inter> ((@) ''config.'') ` set problemDaemonNames = {}" using assms(3) by auto
  moreover have "set (map fst npd_flags) \<inter> set exporterFlags = {}" using assms(3) by auto
  moreover have "set (map fst npd_flags) \<inter> ((@) ''config.'') ` set problemDaemonNames = {}"
    using npd_flags_no_config by fastforce
  moreover have "distinct (map ((@) ''config.'') problemDaemonNames)" using assms(2) by (simp add: distinct_map inj_on_def)
  ultimately have "distinct (map fst ?fl)"
    unfolding eq using assms(1) npd_flags_distinct by (simp only: distinct_append set_append set_map Int_Un_distrib) simp
  then have decl: "fold_res declare_flag ?fl ([], ?npdo) = Ok (map fst ?fl, fold snd ?fl ?npdo)"
    using declare_flags [of "[]" ?fl ?npdo] by simp
  have exp: "fold snd (map (\<lambda>name. (name, id)) exporterFlags) n = n" for n :: NodeProblemDetectorOptions
    by (induction exporterFlags) simp_all
  obtain m where "fold snd ?fl ?npdo = (fold snd npd_flags ?npdo)\<lparr>o_MonitorConfigPaths := m\<rparr>"
    "\<forall>name \<in> set problemDaemonNames. m name = Some []"
    using config_flags_fold [of problemDaemonNames "fold snd npd_flags ?npdo"] exp by auto
  with decl show ?thesis
    by (simp add: NodeProblemDetectorOptions_AddFlags_def) (simp add: npd_flags_def)
qed

subsection \<open>Witnesses\<close>

definition sample_daemon_names :: "string list" where
  "sample_daemon_names = [systemLogMonitorName, customPluginMonitorName, ''system-stats-monitor'']"

theorem add_flags_defaults_witness:
  "\<exists>flags npdo'.
    NodeProblemDetectorOptions_AddFlags [''exporter.stackdriver''] sample_daemon_names
      ([], NewNodeProblemDetectorOptions sample_daemon_names) = Ok (flags, npdo') \<and> length flags = 22"
proof -
  have "distinct sample_daemon_names"
    by (simp add: sample_daemon_names_def systemLogMonitorName_def customPluginMonitorName_def)
  from add_flags_defaults [OF _ this, of "[''exporter.stackdriver'']"]
  have "\<exists>flags npdo'. NodeProblemDetectorOptions_AddFlags [''exporter.stackdriver''] sample_daemon_names
      ([], NewNodeProblemDetectorOptions sample_daemon_names) = Ok (flags, npdo') \<and>
      length flags = 18 + length [''exporter.stackdriver''] + length sample_daemon_names"
    by (simp add: npd_flags_def) blast
  then show ?thesis by (simp add: sample_daemon_names_def)
qed

text \<open>A user of a deprecated option.\<close>

definition sample_options :: NodeProblemDetectorOptions where
  "sample_options = (NewNodeProblemDetectorOptions sample_daemon_names)
     \<lparr>o_SystemLogMonitorConfigPaths := [''kernel.json'']\<rparr>"

definition sample_completed :: NodeProblemDetectorOptions where
  "sample_completed = sample_options
     \<lparr>o_SystemLogMonitorConfigPaths := [], o_NodeName := ''node-1'',
      o_MonitorConfigPaths := (o_MonitorConfigPaths sample_options)(systemLogMonitorName \<mapsto> [''kernel.json''])\<rparr>"

theorem options_complete_witness:
  "complete_options (\<lambda>_. ''node-1'') (Err ()) (\<lambda>_. None) sample_daemon_names sample_options = Ok sample_completed \<and>
   all_paths (o_MonitorConfigPaths sample_completed) = {''kernel.json''}"
proof -
  have ok: "complete_options (\<lambda>_. ''node-1'') (Err ()) (\<lambda>_. None) sample_daemon_names sample_options = Ok sample_completed"
    by (simp add: complete_options_def SetNodeNameOrDie_def SetConfigFromDeprecatedOptionsOrDie_def move_system_log_def
        move_custom_plugin_def NodeProblemDetectorOptions_ValidOrDie_def sample_options_def sample_completed_def
        NewNodeProblemDetectorOptions_def sample_daemon_names_def systemLogMonitorName_def customPluginMonitorName_def)
  have "map_order (o_MonitorConfigPaths sample_completed) sample_daemon_names"
    by (auto simp: map_order_def sample_completed_def sample_options_def NewNodeProblemDetectorOptions_def
        sample_daemon_names_def systemLogMonitorName_def customPluginMonitorName_def)
  from options_complete [OF ok this] ok show ?thesis
    by (auto simp: requested_paths_def sample_options_def NewNodeProblemDetectorOptions_def sample_daemon_names_def
        all_paths_def split: if_splits)
qed

end
