(* ===== verification/K8s_Exporter.thy ===== *)
theory K8s_Exporter
  imports Condition_Manager NPD_Options
begin

text \<open>
  The Kubernetes exporter (\<^verbatim>\<open>pkg/exporters/k8sexporter/k8s_exporter.go\<close>), with the HTTP helpers it
  uses (\<^verbatim>\<open>pkg/util/http.go\<close>) and the polling loop behind \<^verbatim>\<open>wait.PollUntilContextTimeout\<close>
  (vendored \<^verbatim>\<open>k8s.io/apimachinery/pkg/util/wait/loop.go\<close>), and the Prometheus exporter.
\<close>

subsection \<open>Waiting for the API server\<close>

datatype 'e poll_error = DeadlineExceeded | PollErr 'e

text \<open>
  The loop of \<^verbatim>\<open>loopConditionUntilContext\<close>; \<open>ticks\<close> is how many times the timer fires before the
  context is done.
\<close>

fun poll_loop :: "nat \<Rightarrow> ('s \<Rightarrow> (bool \<times> 'e option) \<times> 's) \<Rightarrow> 's \<Rightarrow> 'e poll_error option \<times> 's" where
  "poll_loop 0 condition s = (Some DeadlineExceeded, s)"
| "poll_loop (Suc ticks) condition s =
     (case condition s of ((ok, err), s') \<Rightarrow>
        if err \<noteq> None \<or> ok then (map_option PollErr err, s') else poll_loop ticks condition s')"

definition PollUntilContextTimeout ::
    "nat \<Rightarrow> bool \<Rightarrow> ('s \<Rightarrow> (bool \<times> 'e option) \<times> 's) \<Rightarrow> 's \<Rightarrow> 'e poll_error option \<times> 's" where
  "PollUntilContextTimeout ticks immediate condition s =
     (if immediate
      then (case condition s of ((ok, err), s') \<Rightarrow>
              if err \<noteq> None \<or> ok then (map_option PollErr err, s') else poll_loop ticks condition s')
      else poll_loop ticks condition s)"

definition waitForAPIServerReadyWithTimeout ::
    "nat \<Rightarrow> (string \<Rightarrow> 'srv \<Rightarrow> ('e + Node) \<times> 'srv) \<Rightarrow> 'r nodeProblemClient \<times> 'srv
      \<Rightarrow> 'e poll_error option \<times> 'r nodeProblemClient \<times> 'srv" where
  "waitForAPIServerReadyWithTimeout ticks Get s =
     PollUntilContextTimeout ticks True
       (\<lambda>s. case nodeProblemClient_GetNode Get s of
              (Inl err, s') \<Rightarrow> ((False, Some err), s')
            | (Inr node, s') \<Rightarrow> ((True, None), s')) s"

subsection \<open>The exporter\<close>

record 'r k8sExporter =
  ke_client :: "'r nodeProblemClient"
  ke_conditionManager :: conditionManager
  ke_writeEvents :: bool
  ke_updateConditions :: bool

text \<open>
  \<^verbatim>\<open>NewExporterOrDie\<close>: nothing when the exporter is disabled; a failure to wait for the API server
  is only logged.
\<close>

definition k8s_NewExporterOrDie ::
    "('e + rest_Config) \<Rightarrow> (string \<Rightarrow> 'e + rest_Config) \<Rightarrow> (string \<Rightarrow> string option) \<Rightarrow> (string \<Rightarrow> URL) \<Rightarrow> nat \<Rightarrow>
     (string \<Rightarrow> 'srv \<Rightarrow> ('e + Node) \<times> 'srv) \<Rightarrow> NodeProblemDetectorOptions \<Rightarrow> 'srv
      \<Rightarrow> 'e config_error + 'r k8sExporter option \<times> 'srv" where
  "k8s_NewExporterOrDie InClusterConfig LoadConfig ReadFile url_Parse ticks Get npdo srv =
     (if \<not> o_EnableK8sExporter npdo then Ok (None, srv)
      else and_then
        (NewClientOrDie InClusterConfig LoadConfig ReadFile (url_Parse (o_ApiServerOverride npdo))
           (o_NodeName npdo) (o_EventNamespace npdo))
        (\<lambda>c. case waitForAPIServerReadyWithTimeout ticks Get (c, srv) of
           (err, c', srv') \<Rightarrow>
             Ok (Some \<lparr>ke_client = c',
                   ke_conditionManager = NewConditionManager (o_K8sExporterHeartbeatPeriod npdo),
                   ke_writeEvents = o_K8sExporterWriteEvents npdo,
                   ke_updateConditions = o_K8sExporterUpdateNodeConditions npdo\<rparr>, srv')))"

definition export_events ::
    "(string \<Rightarrow> string \<Rightarrow> string \<Rightarrow> 'r) \<Rightarrow> string \<Rightarrow> Event list \<Rightarrow> 'r nodeProblemClient
      \<Rightarrow> 'r recorded_event list \<times> 'r nodeProblemClient" where
  "export_events getEventRecorder source events c =
     fold (\<lambda>event (recorded, c).
             case nodeProblemClient_Eventf getEventRecorder (ConvertToAPIEventType (e_Severity event)) source
                    (e_Reason event) (e_Message event) c of
               (ev, c') \<Rightarrow> (recorded @ [ev], c')) events ([], c)"

definition k8sExporter_ExportProblems ::
    "(string \<Rightarrow> string \<Rightarrow> string \<Rightarrow> 'r) \<Rightarrow> Status \<Rightarrow> 'r k8sExporter \<Rightarrow> 'r recorded_event list \<times> 'r k8sExporter" where
  "k8sExporter_ExportProblems getEventRecorder status ke =
     (let (recorded, client) =
            (if ke_writeEvents ke then export_events getEventRecorder (s_Source status) (s_Events status) (ke_client ke)
             else ([], ke_client ke));
          mgr = (if ke_updateConditions ke
                 then fold conditionManager_UpdateCondition (s_Conditions status) (ke_conditionManager ke)
                 else ke_conditionManager ke)
      in (recorded, ke\<lparr>ke_client := client, ke_conditionManager := mgr\<rparr>))"

subsection \<open>HTTP reporting\<close>

record http_response =
  hr_code :: int
  hr_contentType :: "string option"
  hr_body :: string

definition ReturnHTTPError :: "('e \<Rightarrow> string) \<Rightarrow> 'e \<Rightarrow> http_response" where
  "ReturnHTTPError Error err = \<lparr>hr_code = 500, hr_contentType = None, hr_body = Error err\<rparr>"

definition ReturnHTTPJson :: "('e \<Rightarrow> string) \<Rightarrow> ('a \<Rightarrow> 'e + string) \<Rightarrow> 'a \<Rightarrow> http_response" where
  "ReturnHTTPJson Error Marshal object =
     (case Marshal object of
        Inl err \<Rightarrow> ReturnHTTPError Error err
      | Inr data \<Rightarrow> \<lparr>hr_code = 200, hr_contentType = Some ''application/json'', hr_body = data\<rparr>)"

text \<open>The address and the two handlers of the exporter's own; the profiling handlers are the library's.\<close>

definition reporting_address :: "NodeProblemDetectorOptions \<Rightarrow> string option" where
  "reporting_address npdo =
     (if o_ServerPort npdo \<le> 0 then None
      else Some (net_JoinHostPort (o_ServerAddress npdo) (strconv_Itoa (o_ServerPort npdo))))"

definition startHTTPReporting ::
    "('e \<Rightarrow> string) \<Rightarrow> (Condition list \<Rightarrow> 'e + string) \<Rightarrow> string list \<Rightarrow> NodeProblemDetectorOptions \<Rightarrow> 'r k8sExporter
      \<Rightarrow> (string \<times> (string \<rightharpoonup> http_response)) option" where
  "startHTTPReporting Error Marshal order npdo ke =
     map_option (\<lambda>addr. (addr,
       [''/healthz'' \<mapsto> \<lparr>hr_code = 200, hr_contentType = None, hr_body = ''ok''\<rparr>,
        ''/conditions'' \<mapsto> ReturnHTTPJson Error Marshal (conditionManager_GetConditions order (ke_conditionManager ke))]))
       (reporting_address npdo)"

subsection \<open>The Prometheus exporter\<close>

text \<open>Nothing without a port; a library that cannot create its exporter is fatal. Statuses are ignored.\<close>

definition prometheus_NewExporterOrDie :: "'e option \<Rightarrow> NodeProblemDetectorOptions \<Rightarrow> 'e + string option" where
  "prometheus_NewExporterOrDie NewExporterError npdo =
     (if o_PrometheusServerPort npdo \<le> 0 then Ok None
      else case NewExporterError of
             Some err \<Rightarrow> Err err
           | None \<Rightarrow> Ok (Some (net_JoinHostPort (o_PrometheusServerAddress npdo)
                                 (strconv_Itoa (o_PrometheusServerPort npdo)))))"

definition prometheusExporter_ExportProblems :: "Status \<Rightarrow> 'x \<Rightarrow> 'x" where
  "prometheusExporter_ExportProblems status pe = pe"

subsection \<open>Lemmas\<close>

lemma export_events_append:
  "fold (\<lambda>event (recorded, c).
      case nodeProblemClient_Eventf g (ConvertToAPIEventType (e_Severity event)) source
             (e_Reason event) (e_Message event) c of
        (ev, c') \<Rightarrow> (recorded @ [ev], c')) events (acc, c) =
   (let (recorded, c') = export_events g source events c in (acc @ recorded, c'))"
proof (induction events arbitrary: acc c)
  case (Cons e es)
  obtain ev c' where e: "nodeProblemClient_Eventf g (ConvertToAPIEventType (e_Severity e)) source
      (e_Reason e) (e_Message e) c = (ev, c')" by fastforce
  show ?case
    using Cons [of "acc @ [ev]" c'] Cons [of "[ev]" c'] e by (simp add: export_events_def split: prod.splits)
qed (simp add: export_events_def)

lemma export_events_Cons:
  assumes "nodeProblemClient_Eventf g (ConvertToAPIEventType (e_Severity e)) source (e_Reason e) (e_Message e) c = (ev, c')"
  shows "export_events g source (e # es) c = (let (recorded, c'') = export_events g source es c' in (ev # recorded, c''))"
  using export_events_append [of g source es "[ev]" c'] assms by (simp add: export_events_def)

text \<open>The event a well-formed client records for a source.\<close>

definition recorded_for :: "(string \<Rightarrow> string \<Rightarrow> string \<Rightarrow> 'r) \<Rightarrow> string \<Rightarrow> string \<Rightarrow> ObjectReference \<Rightarrow> string \<Rightarrow> Event \<Rightarrow> 'r recorded_event" where
  "recorded_for g name ns ref source e =
     \<lparr>rec_recorder = g ns name source, rec_ref = ref, rec_eventType = ConvertToAPIEventType (e_Severity e),
      rec_reason = e_Reason e, rec_messageFmt = e_Message e\<rparr>"

lemma Eventf_recorded:
  assumes "client_ok g name ns c"
    and "nodeProblemClient_Eventf g (ConvertToAPIEventType (e_Severity e)) source (e_Reason e) (e_Message e) c = (ev, c')"
  shows "ev = recorded_for g name ns (nodeRefWithUID c) source e \<and> client_ok g name ns c' \<and>
    nodeRefWithUID c' = nodeRefWithUID c"
proof -
  have "client_ok g name ns c'" using client_keeps_Eventf [OF assms(2)] assms(1) by (simp add: client_keeps_def)
  moreover have "npc_nodeName c = name" "npc_eventNamespace c = ns"
    "\<And>r. npc_recorders c source = Some r \<Longrightarrow> r = g ns name source"
    using assms(1) by (simp_all add: client_ok_def)
  then have "ev = recorded_for g name ns (nodeRefWithUID c) source e \<and> nodeRefWithUID c' = nodeRefWithUID c"
    using assms(2) by (cases "npc_recorders c source")
      (auto simp: nodeProblemClient_Eventf_def recorded_for_def nodeRefWithUID_def Let_def split: option.split)
  ultimately show ?thesis by simp
qed

lemma export_events_recorded:
  assumes "client_ok g name ns c"
  shows "fst (export_events g source events c) = map (recorded_for g name ns (nodeRefWithUID c) source) events \<and>
    client_ok g name ns (snd (export_events g source events c))"
  using assms
proof (induction events arbitrary: c)
  case (Cons e es)
  obtain ev c' where e: "nodeProblemClient_Eventf g (ConvertToAPIEventType (e_Severity e)) source
      (e_Reason e) (e_Message e) c = (ev, c')" by fastforce
  note rec = Eventf_recorded [OF Cons.prems e]
  from Cons.IH [of c'] rec show ?case unfolding export_events_Cons [OF e] by (auto split: prod.splits)
qed (simp add: export_events_def)

lemma fold_UpdateCondition:
  "cm_updates (fold conditionManager_UpdateCondition cs c) t =
     (case find (\<lambda>u. c_Type u = t) (rev cs) of Some u \<Rightarrow> Some u | None \<Rightarrow> cm_updates c t)"
proof (induction cs rule: rev_induct)
  case (snoc u cs)
  then show ?case by (auto simp: conditionManager_UpdateCondition_def)
qed simp

subsection \<open>Properties\<close>

text \<open>
  C34: exporting a status records, when events are written, one event per event of the status, in
  order, against the node, through the recorder of the status's source, and hands the manager,
  when conditions are updated, the last condition of the status for each type; nothing else is
  pending afterwards that was not before.
\<close>

theorem export_problems_effect:
  assumes "client_ok g name ns (ke_client ke)" and "k8sExporter_ExportProblems g status ke = (recorded, ke')"
  shows "recorded = (if ke_writeEvents ke
      then map (recorded_for g name ns (nodeRefWithUID (ke_client ke)) (s_Source status)) (s_Events status) else []) \<and>
    client_ok g name ns (ke_client ke') \<and>
    (\<forall>t. cm_updates (ke_conditionManager ke') t =
       (if ke_updateConditions ke
        then (case find (\<lambda>u. c_Type u = t) (rev (s_Conditions status)) of
                Some u \<Rightarrow> Some u | None \<Rightarrow> cm_updates (ke_conditionManager ke) t)
        else cm_updates (ke_conditionManager ke) t))"
  using assms(2) export_events_recorded [OF assms(1), of "s_Source status" "s_Events status"] assms(1)
  by (auto simp: k8sExporter_ExportProblems_def fold_UpdateCondition split: prod.splits if_splits)

text \<open>
  The wait for the API server asks it once and gives up on the first error: it returns what
  the first \<^verbatim>\<open>GetNode\<close> gives, however long the timeout is.
\<close>

theorem api_wait_single_attempt:
  "waitForAPIServerReadyWithTimeout ticks Get s =
     (case nodeProblemClient_GetNode Get s of
        (Inl err, s') \<Rightarrow> (Some (PollErr err), s')
      | (Inr node, s') \<Rightarrow> (None, s'))"
  by (auto simp: waitForAPIServerReadyWithTimeout_def PollUntilContextTimeout_def split: prod.splits sum.splits)

subsection \<open>Witnesses\<close>

definition sample_exporter :: "unit k8sExporter" where
  "sample_exporter = \<lparr>ke_client = new_client ''node-1'' ''default'', ke_conditionManager = NewConditionManager (60 * Second),
     ke_writeEvents = True, ke_updateConditions = True\<rparr>"

definition sample_status :: Status where
  "sample_status = \<lparr>s_Source = ''kernel-monitor'',
     s_Events = [\<lparr>e_Severity = Warn, e_Timestamp = 5, e_Reason = ''TaskHung'', e_Message = ''task hung''\<rparr>],
     s_Conditions = [sample_deadlock]\<rparr>"

theorem export_problems_effect_witness:
  "length (fst (k8sExporter_ExportProblems (\<lambda>_ _ _. ()) sample_status sample_exporter)) = 1 \<and>
   cm_updates (ke_conditionManager (snd (k8sExporter_ExportProblems (\<lambda>_ _ _. ()) sample_status sample_exporter)))
     ''KernelDeadlock'' = Some sample_deadlock"
proof -
  have "client_ok (\<lambda>_ _ _. ()) ''node-1'' ''default'' (ke_client sample_exporter)"
    by (simp add: client_ok_def sample_exporter_def new_client_def)
  moreover obtain recorded ke' where
    eq: "k8sExporter_ExportProblems (\<lambda>_ _ _. ()) sample_status sample_exporter = (recorded, ke')" by fastforce
  ultimately show ?thesis
    using export_problems_effect [of "\<lambda>_ _ _. ()" "''node-1''" "''default''" sample_exporter sample_status recorded ke']
    by (simp add: eq sample_exporter_def sample_status_def sample_deadlock_def)
qed

end
