(* ===== verification/Problem_Detector.thy ===== *)
theory Problem_Detector
  imports NPD_Types
begin

text \<open>
  The problem detector (\<^verbatim>\<open>pkg/problemdetector/problem_detector.go\<close>): starting the monitors, the
  goroutines that group their channels into one, and the loop that hands every status to every
  exporter, as a step relation in which the monitors send at any time.

  A monitor is opaque; \<open>Start\<close> says whether starting it fails, and if not whether it returns a
  channel. An exporter is a state and \<open>ExportProblems\<close> what a status does to it.
\<close>

record ('m, 'x) problemDetector =
  pd_monitors :: "'m list"
  pd_exporters :: "'x list"

definition NewProblemDetector :: "'m list \<Rightarrow> 'x list \<Rightarrow> ('m, 'x) problemDetector" where
  "NewProblemDetector monitors exporters = \<lparr>pd_monitors = monitors, pd_exporters = exporters\<rparr>"

text \<open>The monitors that return a channel, in order, and the number of those that fail.\<close>

definition start_monitors :: "('m \<Rightarrow> 'e + bool) \<Rightarrow> 'm list \<Rightarrow> 'm list \<times> nat" where
  "start_monitors Start monitors =
     fold (\<lambda>m (chans, failureCount).
       case Start m of
         Inl err \<Rightarrow> (chans, Suc failureCount)
       | Inr ch \<Rightarrow> (if ch then (chans @ [m], failureCount) else (chans, failureCount))) monitors ([], 0)"

datatype detector_error = NoProblemDaemon

text \<open>
  The state of \<^verbatim>\<open>Run\<close>: the channels of the monitors with what waits in them, the status each
  goroutine of \<^verbatim>\<open>groupChannel\<close> holds for the common channel, which has no buffer, and the exporters.
  \<open>d_sent\<close> and \<open>d_exported\<close> record what each channel has ever been sent and what has been exported,
  with the channel it came from; \<open>d_stopped\<close> the monitors that were stopped.
\<close>

record ('m, 'x) detector =
  d_queues :: "Status list list"
  d_held :: "Status option list"
  d_exporters :: "'x list"
  d_ctxDone :: bool
  d_returned :: bool
  d_stopped :: "'m list"
  d_sent :: "Status list list"
  d_exported :: "(nat \<times> Status) list"

definition problemDetector_Run ::
    "('m \<Rightarrow> 'e + bool) \<Rightarrow> ('m, 'x) problemDetector \<Rightarrow> detector_error + ('m, 'x) detector" where
  "problemDetector_Run Start p =
     (case start_monitors Start (pd_monitors p) of
        (chans, failureCount) \<Rightarrow>
          if length (pd_monitors p) = failureCount then Err NoProblemDaemon
          else Ok \<lparr>d_queues = replicate (length chans) [], d_held = replicate (length chans) None,
                   d_exporters = pd_exporters p, d_ctxDone = False, d_returned = False, d_stopped = [],
                   d_sent = replicate (length chans) [], d_exported = []\<rparr>)"

text \<open>
  The steps: a monitor sends, a goroutine of \<^verbatim>\<open>groupChannel\<close> takes a status from its channel, the
  loop receives it and exports it, the context is cancelled, and the loop returns, stopping all
  monitors.
\<close>

inductive detector_step ::
    "(Status \<Rightarrow> 'x \<Rightarrow> 'x) \<Rightarrow> ('m, 'x) problemDetector \<Rightarrow> ('m, 'x) detector \<Rightarrow> ('m, 'x) detector \<Rightarrow> bool"
  for ExportProblems p where
  det_send: "i < length (d_queues s) \<Longrightarrow>
     detector_step ExportProblems p s
       (s\<lparr>d_queues := (d_queues s)[i := d_queues s ! i @ [status]], d_sent := (d_sent s)[i := d_sent s ! i @ [status]]\<rparr>)"
| det_take: "i < length (d_queues s) \<Longrightarrow> d_held s ! i = None \<Longrightarrow> d_queues s ! i = status # rest \<Longrightarrow>
     detector_step ExportProblems p s
       (s\<lparr>d_queues := (d_queues s)[i := rest], d_held := (d_held s)[i := Some status]\<rparr>)"
| det_export: "\<not> d_returned s \<Longrightarrow> i < length (d_queues s) \<Longrightarrow> d_held s ! i = Some status \<Longrightarrow>
     detector_step ExportProblems p s
       (s\<lparr>d_held := (d_held s)[i := None], d_exporters := map (ExportProblems status) (d_exporters s),
          d_exported := d_exported s @ [(i, status)]\<rparr>)"
| det_cancel: "detector_step ExportProblems p s (s\<lparr>d_ctxDone := True\<rparr>)"
| det_return: "\<not> d_returned s \<Longrightarrow> d_ctxDone s \<Longrightarrow>
     detector_step ExportProblems p s (s\<lparr>d_returned := True, d_stopped := pd_monitors p\<rparr>)"

subsection \<open>Lemmas\<close>

lemma start_monitors_fold:
  "fold (\<lambda>m (chans, failureCount).
      case Start m of
        Inl err \<Rightarrow> (chans, Suc failureCount)
      | Inr ch \<Rightarrow> (if ch then (chans @ [m], failureCount) else (chans, failureCount))) ms (cs, n) =
   (cs @ filter (\<lambda>m. Start m = Ok True) ms, n + length (filter (\<lambda>m. isl (Start m)) ms))"
proof (induction ms arbitrary: cs n)
  case (Cons m ms)
  then show ?case by (cases "Start m") auto
qed simp

lemma start_monitors_spec:
  "start_monitors Start ms = (filter (\<lambda>m. Start m = Ok True) ms, length (filter (\<lambda>m. isl (Start m)) ms))"
  using start_monitors_fold [of Start ms "[]" 0] by (simp add: start_monitors_def)

definition from_channel :: "nat \<Rightarrow> (nat \<times> Status) list \<Rightarrow> Status list" where
  "from_channel i exported = map snd (filter (\<lambda>(j, _). j = i) exported)"

lemma from_channel_simps [simp]:
  "from_channel i [] = []"
  "from_channel i (xs @ [(j, x)]) = from_channel i xs @ (if j = i then [x] else [])"
  by (simp_all add: from_channel_def)

definition held_list :: "Status option \<Rightarrow> Status list" where
  "held_list h = (case h of None \<Rightarrow> [] | Some x \<Rightarrow> [x])"

definition detector_inv ::
    "(Status \<Rightarrow> 'x \<Rightarrow> 'x) \<Rightarrow> ('m, 'x) problemDetector \<Rightarrow> ('m, 'x) detector \<Rightarrow> bool" where
  "detector_inv ExportProblems p s \<longleftrightarrow>
     length (d_held s) = length (d_queues s) \<and> length (d_sent s) = length (d_queues s) \<and>
     (\<forall>i < length (d_queues s).
        d_sent s ! i = from_channel i (d_exported s) @ held_list (d_held s ! i) @ d_queues s ! i) \<and>
     d_exporters s = map (fold ExportProblems (map snd (d_exported s))) (pd_exporters p) \<and>
     (\<forall>(i, x) \<in> set (d_exported s). i < length (d_queues s)) \<and>
     d_stopped s = (if d_returned s then pd_monitors p else []) \<and> (d_returned s \<longrightarrow> d_ctxDone s)"

lemma detector_inv_step:
  assumes "detector_step ExportProblems p s s'" and "detector_inv ExportProblems p s"
  shows "detector_inv ExportProblems p s'"
  using assms
proof (cases rule: detector_step.cases)
  case (det_send i status)
  with assms(2) show ?thesis by (auto simp: detector_inv_def nth_list_update)
next
  case (det_take i status rest)
  with assms(2) show ?thesis by (auto simp: detector_inv_def nth_list_update held_list_def)
next
  case (det_export i status)
  then have "d_sent s ! j = from_channel j (d_exported s @ [(i, status)]) @
      held_list ((d_held s)[i := None] ! j) @ d_queues s ! j" if "j < length (d_queues s)" for j
    using assms(2) that by (cases "j = i") (auto simp: detector_inv_def held_list_def)
  with det_export assms(2) show ?thesis by (auto simp: detector_inv_def)
next
  case det_cancel
  with assms(2) show ?thesis by (auto simp: detector_inv_def)
next
  case det_return
  with assms(2) show ?thesis by (auto simp: detector_inv_def)
qed

lemma detector_inv_start:
  "problemDetector_Run Start p = Ok s \<Longrightarrow> detector_inv ExportProblems p s"
  by (auto simp: problemDetector_Run_def detector_inv_def held_list_def split: prod.splits if_splits)

lemma detector_inv_reachable:
  assumes "problemDetector_Run Start p = Ok s0" and "(detector_step ExportProblems p)\<^sup>*\<^sup>* s0 s"
  shows "detector_inv ExportProblems p s"
  using assms(2)
  by (induction rule: rtranclp_induct) (auto intro: detector_inv_start [OF assms(1)] detector_inv_step)

subsection \<open>Properties\<close>

text \<open>
  C5: whatever the interleaving, nothing is lost, duplicated or reordered on the way from a
  monitor to the exporters: what a channel was sent is what was exported from it, then what is on
  the way; and every exporter has seen the same statuses in the same order.
\<close>

theorem detector_delivers_in_order:
  assumes "problemDetector_Run Start p = Ok s0" and "(detector_step ExportProblems p)\<^sup>*\<^sup>* s0 s"
  shows "(\<forall>i < length (d_sent s).
      d_sent s ! i = from_channel i (d_exported s) @ held_list (d_held s ! i) @ d_queues s ! i) \<and>
    d_exporters s = map (fold ExportProblems (map snd (d_exported s))) (pd_exporters p)"
  using detector_inv_reachable [OF assms] by (auto simp: detector_inv_def)


text \<open>
  \<^verbatim>\<open>Run\<close> fails exactly when no monitor starts, and otherwise groups the channels of exactly
  the monitors that started with one.
\<close>

theorem detector_start_fails_iff:
  "(problemDetector_Run Start p = Err NoProblemDaemon \<longleftrightarrow> (\<forall>m \<in> set (pd_monitors p). isl (Start m))) \<and>
   (\<forall>s. problemDetector_Run Start p = Ok s \<longrightarrow>
      length (d_queues s) = length (filter (\<lambda>m. Start m = Ok True) (pd_monitors p)))"
proof -
  have "length ms = length (filter P ms) \<longleftrightarrow> (\<forall>m \<in> set ms. P m)" for P and ms :: "'a list"
    by (metis filter_True filter_cong length_filter_less order_less_irrefl)
  then show ?thesis by (auto simp: problemDetector_Run_def start_monitors_spec)
qed

subsection \<open>Witnesses\<close>

text \<open>Two monitors, the second of which fails to start, and an exporter that keeps the statuses.\<close>

definition sample_detector :: "(nat, Status list) problemDetector" where
  "sample_detector = NewProblemDetector [1, 2] [[]]"

definition sample_Start :: "nat \<Rightarrow> unit + bool" where
  "sample_Start m = (if m = 1 then Ok True else Err ())"

definition sample_running :: "(nat, Status list) detector" where
  "sample_running = \<lparr>d_queues = [[]], d_held = [None], d_exporters = [[]], d_ctxDone = False, d_returned = False,
     d_stopped = [], d_sent = [[]], d_exported = []\<rparr>"

definition sample_message :: Status where
  "sample_message = \<lparr>s_Source = ''kernel-monitor'', s_Events = [], s_Conditions = []\<rparr>"

lemma sample_detector_run: "problemDetector_Run sample_Start sample_detector = Ok sample_running"
  by (simp add: problemDetector_Run_def start_monitors_def sample_detector_def NewProblemDetector_def
      sample_Start_def sample_running_def)

lemma sample_detector_sent:
  "detector_step (\<lambda>st xs. xs @ [st]) sample_detector sample_running
     (sample_running\<lparr>d_queues := [[sample_message]], d_sent := [[sample_message]]\<rparr>)"
  using det_send [of 0 sample_running "\<lambda>st xs. xs @ [st]" sample_detector sample_message]
  by (simp add: sample_running_def)

theorem detector_delivers_in_order_witness:
  "d_sent (sample_running\<lparr>d_queues := [[sample_message]], d_sent := [[sample_message]]\<rparr>) ! 0 =
     from_channel 0 [] @ held_list None @ [sample_message]"
  using detector_delivers_in_order [OF sample_detector_run r_into_rtranclp [where r = "detector_step (\<lambda>st xs. xs @ [st]) sample_detector", OF sample_detector_sent]]
  by (simp add: sample_running_def)


theorem detector_start_fails_iff_witness:
  "problemDetector_Run (\<lambda>_. Err ()) sample_detector = Err NoProblemDaemon \<and> length (d_queues sample_running) = 1"
  using detector_start_fails_iff [of "\<lambda>_. Err ()" sample_detector] detector_start_fails_iff [of sample_Start sample_detector]
    sample_detector_run
  by (simp add: sample_running_def)

end
