(* ===== verification/Health_Checker.thy ===== *)
theory Health_Checker
  imports Go_Strings Go_Conv Custom_Plugin_Config "HOL-Library.List_Lexorder" "HOL-Library.Char_ord"
begin

text \<open>
  The health checker (\<^verbatim>\<open>pkg/healthchecker\<close> with its command \<^verbatim>\<open>cmd/healthchecker\<close>), as it is built on
  Linux: the options, the flag of log patterns, the checks, the repair and the exit status.

  What the checker does to the machine is a list of actions, oldest first: commands it runs and
  requests it sends. What a command prints, how a request ends and what the clock says are
  arguments, functions of the actions so far. So are the two time formats.
\<close>

subsection \<open>Types and flags\<close>

definition KubeletComponent :: string where "KubeletComponent = ''kubelet''"
definition CRIComponent :: string where "CRIComponent = ''cri''"
definition DockerComponent :: string where "DockerComponent = ''docker''"
definition ContainerdService :: string where "ContainerdService = ''containerd''"
definition KubeProxyComponent :: string where "KubeProxyComponent = ''kube-proxy''"
definition CmdTimeout :: duration where "CmdTimeout = 10 * Second"

text \<open>The endpoints, from the environment.\<close>

definition env_or :: "(string \<Rightarrow> string) \<Rightarrow> string \<Rightarrow> string \<Rightarrow> string" where
  "env_or Getenv key dflt = (if Getenv key \<noteq> [] then Getenv key else dflt)"

definition setKubeEndpoints :: "(string \<Rightarrow> string) \<Rightarrow> string \<times> string" where
  "setKubeEndpoints Getenv =
     (let hostAddress = env_or Getenv ''HOST_ADDRESS'' ''localhost'';
          kubeletPort = env_or Getenv ''KUBELET_PORT'' ''10248'';
          kubeProxyPort = env_or Getenv ''KUBEPROXY_PORT'' ''10256''
      in (''http://'' @ net_JoinHostPort hostAddress kubeletPort @ ''/healthz'',
          ''http://'' @ net_JoinHostPort hostAddress kubeProxyPort @ ''/livez''))"

definition KubeletHealthCheckEndpoint :: "(string \<Rightarrow> string) \<Rightarrow> string" where
  "KubeletHealthCheckEndpoint Getenv = fst (setKubeEndpoints Getenv)"

definition KubeProxyHealthCheckEndpoint :: "(string \<Rightarrow> string) \<Rightarrow> string" where
  "KubeProxyHealthCheckEndpoint Getenv = snd (setKubeEndpoints Getenv)"

text \<open>The flag of log patterns: a map from pattern to threshold. \<^verbatim>\<open>Set\<close> keeps the items before an error.\<close>

type_synonym LogPatternFlag = "string \<rightharpoonup> int"

datatype pattern_error = NoSeparator string | BadThreshold string | EmptyPattern string

definition set_item :: "string \<Rightarrow> LogPatternFlag \<Rightarrow> pattern_error option \<times> LogPatternFlag" where
  "set_item item lpf =
     (case strings_SplitN2 item CHR '':'' of
        [count, pattern] \<Rightarrow>
          (case strconv_Atoi count of
             Inl err \<Rightarrow> (Some (BadThreshold item), lpf)
           | Inr countThreshold \<Rightarrow>
               if countThreshold = 0 then (Some (BadThreshold item), lpf)
               else if pattern = [] then (Some (EmptyPattern item), lpf)
               else (None, lpf(pattern \<mapsto> countThreshold)))
      | _ \<Rightarrow> (Some (NoSeparator item), lpf))"

fun set_items :: "string list \<Rightarrow> LogPatternFlag \<Rightarrow> pattern_error option \<times> LogPatternFlag" where
  "set_items [] lpf = (None, lpf)"
| "set_items (item # items) lpf =
     (case set_item item lpf of
        (Some err, lpf') \<Rightarrow> (Some err, lpf')
      | (None, lpf') \<Rightarrow> set_items items lpf')"

definition LogPatternFlag_Set :: "string \<Rightarrow> LogPatternFlag \<Rightarrow> pattern_error option \<times> LogPatternFlag" where
  "LogPatternFlag_Set v lpf = set_items (strings_Split v CHR '','') lpf"

definition LogPatternFlag_String :: "string list \<Rightarrow> LogPatternFlag \<Rightarrow> string" where
  "LogPatternFlag_String order lpf =
     strings_Join (map (\<lambda>k. k @ '':'' @ strconv_Itoa (the (lpf k))) (sort order)) '' ''"

subsection \<open>Options\<close>

record HealthCheckerOptions =
  hco_Component :: string
  hco_Service :: string
  hco_EnableRepair :: bool
  hco_CriCtlPath :: string
  hco_CriSocketPath :: string
  hco_CriTimeout :: duration
  hco_CoolDownTime :: duration
  hco_LoopBackTime :: duration
  hco_HealthCheckTimeout :: duration
  hco_LogPatterns :: LogPatternFlag

text \<open>The options after \<^verbatim>\<open>AddFlags\<close>: the defaults.\<close>

definition HealthCheckerOptions_AddFlags :: HealthCheckerOptions where
  "HealthCheckerOptions_AddFlags =
     \<lparr>hco_Component = KubeletComponent, hco_Service = [], hco_EnableRepair = True,
      hco_CriCtlPath = ''/usr/bin/crictl'', hco_CriSocketPath = ''unix:///var/run/containerd/containerd.sock'',
      hco_CriTimeout = 2 * Second, hco_CoolDownTime = 2 * Minute, hco_LoopBackTime = 0 * Minute,
      hco_HealthCheckTimeout = 10 * Second, hco_LogPatterns = Map.empty\<rparr>"

datatype hco_error = UnsupportedComponent | EmptyService | EmptyCriCtlPath | EmptyCriSocketPath

definition HealthCheckerOptions_IsValid :: "HealthCheckerOptions \<Rightarrow> hco_error option" where
  "HealthCheckerOptions_IsValid hco =
     (if hco_Component hco \<noteq> KubeletComponent \<and> hco_Component hco \<noteq> DockerComponent \<and>
         hco_Component hco \<noteq> CRIComponent \<and> hco_Component hco \<noteq> KubeProxyComponent then Some UnsupportedComponent
      else if hco_EnableRepair hco \<and> hco_Service hco = [] then Some EmptyService
      else if hco_Component hco \<noteq> CRIComponent then None
      else if hco_Component hco = CRIComponent \<and> hco_CriCtlPath hco = [] then Some EmptyCriCtlPath
      else if hco_Component hco = CRIComponent \<and> hco_CriSocketPath hco = [] then Some EmptyCriSocketPath
      else None)"

definition HealthCheckerOptions_SetDefaults :: "HealthCheckerOptions \<Rightarrow> HealthCheckerOptions" where
  "HealthCheckerOptions_SetDefaults hco =
     (if hco_Service hco \<noteq> [] then hco
      else if hco_Component hco \<noteq> CRIComponent then hco\<lparr>hco_Service := hco_Component hco\<rparr>
      else hco\<lparr>hco_Service := ContainerdService\<rparr>)"

subsection \<open>Actions\<close>

datatype action = Exec duration string "string list" | HttpGet string duration

datatype 'e http_result = BadRequest 'e | RequestFailed | Response int

record 'e machine =
  mc_exec :: "action list \<Rightarrow> duration \<Rightarrow> string \<Rightarrow> string list \<Rightarrow> 'e + string"
  mc_http :: "action list \<Rightarrow> string \<Rightarrow> duration \<Rightarrow> 'e http_result"
  mc_now :: "action list \<Rightarrow> gotime"
  mc_parse :: "string \<Rightarrow> 'e + gotime"
  mc_format :: "gotime \<Rightarrow> string"
  mc_Getenv :: "string \<Rightarrow> string"

datatype 'e check_error = MachineError 'e | NoUptime | BadCount num_error

definition execCommand ::
    "'e machine \<Rightarrow> duration \<Rightarrow> string \<Rightarrow> string list \<Rightarrow> action list \<Rightarrow> ('e check_error + string) \<times> action list" where
  "execCommand mc timeout command args w =
     (case mc_exec mc w timeout command args of
        Inl err \<Rightarrow> (Err (MachineError err), w @ [Exec timeout command args])
      | Inr out \<Rightarrow> (Ok (strings_TrimSuffix out [nl]), w @ [Exec timeout command args]))"

definition uptimeFunc ::
    "'e machine \<Rightarrow> string \<Rightarrow> action list \<Rightarrow> ('e check_error + duration) \<times> action list" where
  "uptimeFunc mc service w =
     (case execCommand mc CmdTimeout ''systemctl'' [''show'', service, ''--property=InactiveExitTimestamp''] w of
        (Inl err, w) \<Rightarrow> (Err err, w)
      | (Inr out, w) \<Rightarrow>
          (case strings_Split out CHR ''='' of
             _ # v # _ \<Rightarrow>
               (case mc_parse mc v of
                  Inl err \<Rightarrow> (Err (MachineError err), w)
                | Inr t \<Rightarrow> (Ok (time_Sub (mc_now mc w) t), w))
           | _ \<Rightarrow> (Err NoUptime, w)))"

text \<open>The repair ignores what its commands return.\<close>

definition kill_service :: "string \<Rightarrow> action" where
  "kill_service service = Exec CmdTimeout ''systemctl'' [''kill'', ''--kill-who=main'', service]"

definition repairFunc :: "HealthCheckerOptions \<Rightarrow> action list \<Rightarrow> action list" where
  "repairFunc hco w =
     (if hco_Component hco = DockerComponent
      then w @ [Exec CmdTimeout ''pkill'' [''-SIGUSR1'', ''dockerd''], kill_service (hco_Service hco)]
      else w @ [kill_service (hco_Service hco)])"

definition pattern_command :: "string \<Rightarrow> string \<Rightarrow> string \<Rightarrow> string" where
  "pattern_command service logStartTime logPattern =
     ''journalctl --unit \"'' @ service @ ''\" --since \"'' @ logStartTime @ ''\" | grep -i \"'' @ logPattern @ ''\" | wc -l''"

definition checkForPattern ::
    "'e machine \<Rightarrow> string \<Rightarrow> string \<Rightarrow> string \<Rightarrow> int \<Rightarrow> action list \<Rightarrow> (bool \<times> 'e check_error option) \<times> action list" where
  "checkForPattern mc service logStartTime logPattern logCountThreshold w =
     (case execCommand mc CmdTimeout ''/bin/sh'' [''-c'', pattern_command service logStartTime logPattern] w of
        (Inl err, w) \<Rightarrow> ((True, Some err), w)
      | (Inr out, w) \<Rightarrow>
          (case strconv_Atoi out of
             Inl err \<Rightarrow> ((True, Some (BadCount err)), w)
           | Inr occurrences \<Rightarrow> ((occurrences < logCountThreshold, None), w)))"

fun check_patterns ::
    "'e machine \<Rightarrow> string \<Rightarrow> string \<Rightarrow> (string \<times> int) list \<Rightarrow> action list \<Rightarrow> (bool \<times> 'e check_error option) \<times> action list" where
  "check_patterns mc service logStartTime [] w = ((True, None), w)"
| "check_patterns mc service logStartTime ((pattern, count) # ps) w =
     (case checkForPattern mc service logStartTime pattern count w of
        ((healthy, err), w) \<Rightarrow>
          if err \<noteq> None \<or> \<not> healthy then ((healthy, err), w)
          else check_patterns mc service logStartTime ps w)"

text \<open>\<open>order\<close> is the order in which the map of patterns is ranged over.\<close>

definition logPatternHealthCheck ::
    "'e machine \<Rightarrow> string list \<Rightarrow> string \<Rightarrow> duration \<Rightarrow> LogPatternFlag \<Rightarrow> action list
      \<Rightarrow> (bool \<times> 'e check_error option) \<times> action list" where
  "logPatternHealthCheck mc order service loopBackTime logPatternsToCheck w =
     (if order = [] then ((True, None), w)
      else case uptimeFunc mc service w of
        (Inl err, w) \<Rightarrow> ((True, Some err), w)
      | (Inr uptime, w) \<Rightarrow>
          let logStartTime = mc_format mc (mc_now mc w - uptime);
              logStartTime = (if loopBackTime > 0 \<and> uptime > loopBackTime
                              then mc_format mc (mc_now mc w - loopBackTime) else logStartTime)
          in check_patterns mc service logStartTime (map (\<lambda>p. (p, the (logPatternsToCheck p))) order) w)"

definition healthCheckEndpointOKFunc ::
    "'e machine \<Rightarrow> string \<Rightarrow> duration \<Rightarrow> action list \<Rightarrow> (bool \<times> 'e check_error option) \<times> action list" where
  "healthCheckEndpointOKFunc mc endpoint timeout w =
     (case mc_http mc w endpoint timeout of
        BadRequest err \<Rightarrow> ((False, Some (MachineError err)), w)
      | RequestFailed \<Rightarrow> ((False, None), w @ [HttpGet endpoint timeout])
      | Response code \<Rightarrow> ((code = 200, None), w @ [HttpGet endpoint timeout]))"

definition command_ok ::
    "'e machine \<Rightarrow> duration \<Rightarrow> string \<Rightarrow> string list \<Rightarrow> action list \<Rightarrow> (bool \<times> 'e check_error option) \<times> action list" where
  "command_ok mc timeout command args w =
     (case execCommand mc timeout command args w of
        (Inl _, w) \<Rightarrow> ((False, None), w)
      | (Inr _, w) \<Rightarrow> ((True, None), w))"

definition getDockerPath :: string where "getDockerPath = ''docker''"

text \<open>\<^verbatim>\<open>getHealthCheckFunc\<close>: nothing for an unsupported component.\<close>

definition getHealthCheckFunc ::
    "'e machine \<Rightarrow> HealthCheckerOptions \<Rightarrow> (action list \<Rightarrow> (bool \<times> 'e check_error option) \<times> action list) option" where
  "getHealthCheckFunc mc hco =
     (if hco_Component hco = KubeletComponent
      then Some (healthCheckEndpointOKFunc mc (KubeletHealthCheckEndpoint (mc_Getenv mc)) (hco_HealthCheckTimeout hco))
      else if hco_Component hco = KubeProxyComponent
      then Some (healthCheckEndpointOKFunc mc (KubeProxyHealthCheckEndpoint (mc_Getenv mc)) (hco_HealthCheckTimeout hco))
      else if hco_Component hco = DockerComponent
      then Some (command_ok mc (hco_HealthCheckTimeout hco) getDockerPath [''ps''])
      else if hco_Component hco = CRIComponent
      then Some (command_ok mc (hco_HealthCheckTimeout hco) (hco_CriCtlPath hco)
             [''--timeout='' @ time_Duration_String (hco_CriTimeout hco),
              ''--runtime-endpoint='' @ hco_CriSocketPath hco, ''pods'', ''--latest''])
      else None)"

text \<open>\<^verbatim>\<open>CheckHealth\<close>; calling the missing function of an unsupported component panics.\<close>

definition CheckHealth ::
    "'e machine \<Rightarrow> string list \<Rightarrow> HealthCheckerOptions \<Rightarrow> action list
      \<Rightarrow> ((bool \<times> 'e check_error option) \<times> action list) option" where
  "CheckHealth mc order hco w =
     (case getHealthCheckFunc mc hco of
        None \<Rightarrow> None
      | Some healthCheckFunc \<Rightarrow> Some
          (case healthCheckFunc w of
             ((healthy, Some err), w) \<Rightarrow> ((healthy, Some err), w)
           | ((healthy, None), w) \<Rightarrow>
               (case logPatternHealthCheck mc order (hco_Service hco) (hco_LoopBackTime hco) (hco_LogPatterns hco) w of
                  ((logPatternHealthy, Some err), w) \<Rightarrow> ((logPatternHealthy, Some err), w)
                | ((logPatternHealthy, None), w) \<Rightarrow>
                    if healthy \<and> logPatternHealthy then ((True, None), w)
                    else if hco_EnableRepair hco
                    then (case uptimeFunc mc (hco_Service hco) w of
                            (Inl err, w) \<Rightarrow> ((False, None), w)
                          | (Inr uptime, w) \<Rightarrow>
                              ((False, None), if uptime > hco_CoolDownTime hco then repairFunc hco w else w))
                    else ((False, None), w))))"

text \<open>The command: the exit status, and the actions. \<^term>\<open>None\<close> is a panic.\<close>

definition health_checker_main ::
    "'e machine \<Rightarrow> string list \<Rightarrow> HealthCheckerOptions \<Rightarrow> (PluginStatus \<times> action list) option" where
  "health_checker_main mc order hco =
     (let hco = HealthCheckerOptions_SetDefaults hco in
      case HealthCheckerOptions_IsValid hco of
        Some err \<Rightarrow> Some (UnknownStatus, [])
      | None \<Rightarrow>
          map_option (\<lambda>((healthy, err), w).
            (if err \<noteq> None then UnknownStatus else if \<not> healthy then NonOK else OK, w)) (CheckHealth mc order hco []))"

subsection \<open>Lemmas\<close>

text \<open>What happens without a repair: the actions are extended by actions that kill nothing.\<close>

definition is_kill :: "action \<Rightarrow> bool" where
  "is_kill a \<longleftrightarrow> (\<exists>s. a = kill_service s)"

definition no_kill_since :: "action list \<Rightarrow> action list \<Rightarrow> bool" where
  "no_kill_since w w' \<longleftrightarrow> (\<exists>as. w' = w @ as \<and> (\<forall>a \<in> set as. \<not> is_kill a))"

lemma no_kill_refl [simp]: "no_kill_since w w"
  by (simp add: no_kill_since_def)

lemma no_kill_trans: "no_kill_since u v \<Longrightarrow> no_kill_since v w \<Longrightarrow> no_kill_since u w"
  by (auto simp: no_kill_since_def)

lemma no_kill_http [simp]: "no_kill_since w (w @ [HttpGet e t])"
  by (simp add: no_kill_since_def is_kill_def kill_service_def)

lemma execCommand_no_kill:
  "execCommand mc t c args w = (r, w') \<Longrightarrow> take 1 args \<noteq> [''kill''] \<Longrightarrow> no_kill_since w w'"
  by (auto simp: execCommand_def no_kill_since_def is_kill_def kill_service_def split: sum.splits)

lemma uptimeFunc_no_kill: "uptimeFunc mc service w = (r, w') \<Longrightarrow> no_kill_since w w'"
  by (auto simp: uptimeFunc_def dest!: execCommand_no_kill split: prod.splits sum.splits list.splits)

lemma checkForPattern_no_kill:
  "checkForPattern mc service start p n w = (r, w') \<Longrightarrow> no_kill_since w w'"
  by (auto simp: checkForPattern_def dest!: execCommand_no_kill split: prod.splits sum.splits)

lemma check_patterns_no_kill:
  "check_patterns mc service start ps w = (r, w') \<Longrightarrow> no_kill_since w w'"
proof (induction mc service start ps w rule: check_patterns.induct)
  case (2 mc service start p n ps w)
  obtain h e u where u: "checkForPattern mc service start p n w = ((h, e), u)" by (metis surj_pair)
  note k = checkForPattern_no_kill [OF u]
  show ?case
  proof (cases "e \<noteq> None \<or> \<not> h")
    case True
    with 2(2) u k show ?thesis by auto
  next
    case False
    with 2(2) u have "check_patterns mc service start ps u = (r, w')" by simp
    from no_kill_trans [OF k 2(1) [OF u [symmetric] refl False this]] show ?thesis .
  qed
qed simp

lemma logPattern_no_kill:
  "logPatternHealthCheck mc order service loopBack ps w = (r, w') \<Longrightarrow> no_kill_since w w'"
  by (auto simp: logPatternHealthCheck_def Let_def
      dest!: check_patterns_no_kill uptimeFunc_no_kill intro: no_kill_trans split: if_splits prod.splits sum.splits)

lemma healthCheckFunc_no_kill:
  assumes "getHealthCheckFunc mc hco = Some f" and "f w = (r, w')"
  shows "no_kill_since w w'"
proof -
  have endpoint: "healthCheckEndpointOKFunc mc e t w = (r, w') \<Longrightarrow> no_kill_since w w'" for e t
    by (auto simp: healthCheckEndpointOKFunc_def split: http_result.splits)
  have command: "command_ok mc t c args w = (r, w') \<Longrightarrow> take 1 args \<noteq> [''kill''] \<Longrightarrow> no_kill_since w w'" for t c args
    by (auto simp: command_ok_def dest!: execCommand_no_kill split: prod.splits sum.splits)
  from assms show ?thesis
    by (auto simp: getHealthCheckFunc_def intro: endpoint command split: if_splits)
qed

lemma CheckHealth_cases:
  assumes "CheckHealth mc order hco w0 = Some ((healthy, err), w)"
  obtains (plain) "no_kill_since w0 w"
    | (repair) w1 uptime w2 where "\<not> healthy" "err = None" "no_kill_since w0 w1" "hco_EnableRepair hco"
        "uptimeFunc mc (hco_Service hco) w1 = (Ok uptime, w2)" "uptime > hco_CoolDownTime hco" "w = repairFunc hco w2"
proof -
  obtain f where f: "getHealthCheckFunc mc hco = Some f"
    using assms by (cases "getHealthCheckFunc mc hco") (simp_all add: CheckHealth_def)
  obtain h e u where u: "f w0 = ((h, e), u)" by (metis surj_pair)
  note ku = healthCheckFunc_no_kill [OF f u]
  show thesis
  proof (cases e)
    case (Some err')
    with assms f u ku plain show thesis by (simp add: CheckHealth_def)
  next
    case None
    obtain lh le v where v: "logPatternHealthCheck mc order (hco_Service hco) (hco_LoopBackTime hco) (hco_LogPatterns hco) u
        = ((lh, le), v)" by (metis surj_pair)
    note kv = no_kill_trans [OF ku logPattern_no_kill [OF v]]
    show thesis
    proof (cases "le \<noteq> None \<or> h \<and> lh \<or> \<not> hco_EnableRepair hco")
      case True
      with assms f u None v kv plain show thesis
        by (cases le) (auto simp: CheckHealth_def split: if_splits)
    next
      case False
      obtain up x where x: "uptimeFunc mc (hco_Service hco) v = (up, x)" by (metis surj_pair)
      from assms f u None v x False have res: "\<not> healthy \<and> err = None \<and>
          w = (case up of Inl _ \<Rightarrow> x | Inr uptime \<Rightarrow> if uptime > hco_CoolDownTime hco then repairFunc hco x else x)"
        by (auto simp: CheckHealth_def split: sum.splits if_splits)
      show thesis
      proof (cases "\<exists>uptime. up = Ok uptime \<and> uptime > hco_CoolDownTime hco")
        case True
        then obtain uptime where "up = Ok uptime" "uptime > hco_CoolDownTime hco" by blast
        with res x kv False repair [of v uptime x] show thesis by simp
      next
        case False
        then have "w = x" using res by (auto split: sum.splits)
        with no_kill_trans [OF kv uptimeFunc_no_kill [OF x]] plain show thesis by simp
      qed
    qed
  qed
qed

lemma valid_component_has_check:
  "HealthCheckerOptions_IsValid hco = None \<Longrightarrow> getHealthCheckFunc mc hco \<noteq> None"
  by (auto simp: HealthCheckerOptions_IsValid_def getHealthCheckFunc_def split: if_splits)

lemma CheckHealth_total:
  assumes "HealthCheckerOptions_IsValid hco = None"
  shows "\<exists>healthy err w. CheckHealth mc order hco w0 = Some ((healthy, err), w)"
proof -
  obtain f where "getHealthCheckFunc mc hco = Some f" using valid_component_has_check [OF assms] by blast
  then have "CheckHealth mc order hco w0 \<noteq> None" by (simp add: CheckHealth_def)
  then show ?thesis by (metis option.exhaust surj_pair)
qed

lemma kill_in_repair:
  "a \<in> set (repairFunc hco w) \<Longrightarrow> is_kill a \<Longrightarrow> a \<in> set w \<or> a = kill_service (hco_Service hco)"
  by (auto simp: repairFunc_def is_kill_def kill_service_def split: if_splits)

lemma no_kill_empty: "no_kill_since [] w \<Longrightarrow> a \<in> set w \<Longrightarrow> \<not> is_kill a"
  by (auto simp: no_kill_since_def)

definition pattern_item :: "int \<times> string \<Rightarrow> string" where
  "pattern_item np = (case np of (n, p) \<Rightarrow> strconv_Itoa n @ CHR '':'' # p)"

definition good_item :: "int \<times> string \<Rightarrow> bool" where
  "good_item np \<longleftrightarrow> (case np of (n, p) \<Rightarrow> n \<noteq> 0 \<and> - (2 ^ 63) \<le> n \<and> n < 2 ^ 63 \<and> p \<noteq> [] \<and> CHR '','' \<notin> set p)"

lemma strconv_Itoa_chars: "c \<in> set (strconv_Itoa n) \<Longrightarrow> is_digit c \<or> c = CHR ''-''"
  by (auto simp: strconv_Itoa_def dest: dec_nat_digits split: if_splits)

lemma strconv_Itoa_no_sep: "CHR '':'' \<notin> set (strconv_Itoa n)" "CHR '','' \<notin> set (strconv_Itoa n)"
  by (auto dest!: strconv_Itoa_chars simp: is_digit_def)

lemma set_item_good: "good_item (n, p) \<Longrightarrow> set_item (pattern_item (n, p)) lpf = (None, lpf(p \<mapsto> n))"
  by (simp add: set_item_def pattern_item_def good_item_def strings_SplitN2_found strconv_Itoa_no_sep strconv_Atoi_Itoa)

lemma set_items_good:
  "\<forall>np \<in> set items. good_item np \<Longrightarrow>
   set_items (map pattern_item items) lpf = (None, fold (\<lambda>(n, p) m. m(p \<mapsto> n)) items lpf)"
proof (induction items arbitrary: lpf)
  case (Cons np items)
  obtain n p where "np = (n, p)" by fastforce
  with Cons show ?case by (simp add: set_item_good del: fun_upd_apply)
qed simp

subsection \<open>Properties\<close>


text \<open>
  C30: a flag value that lists thresholds and patterns, the thresholds printed as integers and the
  patterns free of commas, is read back as the map from each pattern to its last threshold.
\<close>

theorem log_pattern_flag_roundtrip:
  assumes "items \<noteq> []" and "\<forall>np \<in> set items. good_item np"
  shows "LogPatternFlag_Set (strings_Join (map pattern_item items) '','') lpf =
    (None, fold (\<lambda>(n, p) m. m(p \<mapsto> n)) items lpf)"
proof -
  have "CHR '','' \<notin> set x" if "x \<in> set (map pattern_item items)" for x
    using that assms(2) strconv_Itoa_no_sep by (auto simp: pattern_item_def good_item_def)
  then have "strings_Split (strings_Join (map pattern_item items) '','') CHR '','' = map pattern_item items"
    using assms(1) by (intro strings_Split_Join) auto
  with set_items_good [OF assms(2)] show ?thesis by (simp add: LogPatternFlag_Set_def del: fun_upd_apply)
qed

theorem log_pattern_flag_roundtrip_witness:
  "LogPatternFlag_Set (strings_Join (map pattern_item [(3, ''hung''), (- 1, ''panic'')]) '','') Map.empty =
     (None, [''hung'' \<mapsto> 3, ''panic'' \<mapsto> - 1])"
  using log_pattern_flag_roundtrip [of "[(3, ''hung''), (- 1, ''panic'')]" Map.empty] by (simp add: good_item_def del: fun_upd_apply)

text \<open>
  A negative threshold, which the flag accepts, makes the check of its pattern fail whatever the
  log contains.
\<close>


lemma negative_threshold_unhealthy:
  assumes "execCommand mc CmdTimeout ''/bin/sh'' [''-c'', pattern_command service start p] w = (Ok out, w')"
    and "strconv_Atoi out = Ok n" and "0 \<le> n" and "threshold < 0"
  shows "checkForPattern mc service start p threshold w = ((False, None), w')"
  using assms by (simp add: checkForPattern_def)

subsection \<open>Witnesses\<close>

text \<open>A kubelet that has been up for an hour and does not answer.\<close>

definition sample_machine :: "unit machine" where
  "sample_machine = \<lparr>mc_exec = \<lambda>w t c args. Ok ''InactiveExitTimestamp=then'', mc_http = \<lambda>w e t. RequestFailed,
     mc_now = \<lambda>w. Hour, mc_parse = \<lambda>s. Ok 0, mc_format = \<lambda>t. [], mc_Getenv = \<lambda>k. []\<rparr>"

lemma sample_machine_run:
  "health_checker_main sample_machine [] HealthCheckerOptions_AddFlags =
     Some (NonOK, [HttpGet ''http://localhost:10248/healthz'' (10 * Second),
       Exec CmdTimeout ''systemctl'' [''show'', ''kubelet'', ''--property=InactiveExitTimestamp''], kill_service ''kubelet''])"
  by code_simp


end
