(* ===== verification/Tomb_Contract.thy ===== *)
theory Tomb_Contract
  imports NPD_Prelude
begin

text \<open>
  The tomb (\<^verbatim>\<open>pkg/util/tomb\<close>) that stops the goroutines of the monitors and watchers, and the contract of
  a loop that is stopped by one, which the watchers and the system stats monitor are shown to keep.
\<close>

subsection \<open>The tomb\<close>

text \<open>
  The two channels of a tomb carry nothing; what matters is whether each is closed. Closing a closed
  channel panics, which is \<^term>\<open>None\<close>. \<^verbatim>\<open>Stop\<close> closes the first and returns once the second is closed.
\<close>

record Tomb =
  tomb_stop :: bool
  tomb_done :: bool

definition NewTomb :: Tomb where
  "NewTomb = \<lparr>tomb_stop = False, tomb_done = False\<rparr>"

definition Tomb_Stop_request :: "Tomb \<Rightarrow> Tomb option" where
  "Tomb_Stop_request t = (if tomb_stop t then None else Some (t\<lparr>tomb_stop := True\<rparr>))"

definition Tomb_Stop_returns :: "Tomb \<Rightarrow> bool" where
  "Tomb_Stop_returns t \<longleftrightarrow> tomb_stop t \<and> tomb_done t"

definition Tomb_Stopping :: "Tomb \<Rightarrow> bool" where
  "Tomb_Stopping t = tomb_stop t"

definition Tomb_Done :: "Tomb \<Rightarrow> Tomb option" where
  "Tomb_Done t = (if tomb_done t then None else Some (t\<lparr>tomb_done := True\<rparr>))"

lemmas tomb_defs = NewTomb_def Tomb_Stop_request_def Tomb_Stop_returns_def Tomb_Stopping_def Tomb_Done_def

subsection \<open>The contract of a loop with a tomb\<close>

text \<open>
  A goroutine that runs a loop until its tomb tells it to stop, as the log watchers and the system
  stats monitor do: its own steps, the steps of its surroundings (the source it reads, the reader of
  its channel, a ticker, a call of \<^verbatim>\<open>Stop\<close>), its tomb and what it has sent. Only the surroundings ask it
  to stop, only the loop itself is done, and it takes no step after that. What the users rely on is
  that nothing is sent after \<^verbatim>\<open>Stop\<close> returned.
\<close>

locale tomb_loop =
  fixes inv :: "'s \<Rightarrow> bool" and loop env :: "'s \<Rightarrow> 's \<Rightarrow> bool" and tomb :: "'s \<Rightarrow> Tomb" and sent :: "'s \<Rightarrow> 'm list"
  assumes loop_inv: "loop s s' \<Longrightarrow> inv s \<Longrightarrow> inv s'"
    and env_inv: "env s s' \<Longrightarrow> inv s \<Longrightarrow> inv s'"
    and loop_stop: "loop s s' \<Longrightarrow> tomb_stop (tomb s') = tomb_stop (tomb s)"
    and loop_active: "loop s s' \<Longrightarrow> inv s \<Longrightarrow> \<not> tomb_done (tomb s)"
    and loop_sent: "loop s s' \<Longrightarrow> \<exists>more. sent s' = sent s @ more"
    and env_done: "env s s' \<Longrightarrow> tomb_done (tomb s') = tomb_done (tomb s)"
    and env_stop: "env s s' \<Longrightarrow> tomb_stop (tomb s) \<Longrightarrow> tomb_stop (tomb s')"
    and env_sent: "env s s' \<Longrightarrow> sent s' = sent s"
begin

lemma reach_inv: "(\<lambda>s s'. loop s s' \<or> env s s')\<^sup>*\<^sup>* s s' \<Longrightarrow> inv s \<Longrightarrow> inv s'"
  by (induction rule: rtranclp_induct) (auto intro: loop_inv env_inv)

lemma sent_grows: "(\<lambda>s s'. loop s s' \<or> env s s')\<^sup>*\<^sup>* s s' \<Longrightarrow> \<exists>more. sent s' = sent s @ more"
  by (induction rule: rtranclp_induct) (force dest: loop_sent env_sent)+

lemma stop_stays: "(\<lambda>s s'. loop s s' \<or> env s s')\<^sup>*\<^sup>* s s' \<Longrightarrow> tomb_stop (tomb s) \<Longrightarrow> tomb_stop (tomb s')"
  by (induction rule: rtranclp_induct) (auto simp: loop_stop intro: env_stop)

lemma quiet_after_done:
  "(\<lambda>s s'. loop s s' \<or> env s s')\<^sup>*\<^sup>* s s' \<Longrightarrow> inv s \<Longrightarrow> tomb_done (tomb s) \<Longrightarrow>
     tomb_done (tomb s') \<and> sent s' = sent s"
proof (induction rule: rtranclp_induct)
  case (step t u)
  then have "inv t" using reach_inv by blast
  with step show ?case using loop_active env_done env_sent by auto
qed simp

text \<open>Nothing is sent after \<^verbatim>\<open>Stop\<close> returned.\<close>

lemma quiet_after_Stop:
  "(\<lambda>s s'. loop s s' \<or> env s s')\<^sup>*\<^sup>* s s' \<Longrightarrow> inv s \<Longrightarrow> Tomb_Stop_returns (tomb s) \<Longrightarrow>
     Tomb_Stop_returns (tomb s') \<and> sent s' = sent s"
  using quiet_after_done stop_stays unfolding Tomb_Stop_returns_def by blast

end

end
