(* ===== verification/Log_Watcher.thy ===== *)
theory Log_Watcher
  imports Log_Monitor Tomb_Contract
begin

text \<open>
  What the log watchers share: the table of watchers (\<^verbatim>\<open>pkg/systemlogmonitor/logwatchers\<close>) and the
  start time every watcher computes when it is made.
\<close>

subsection \<open>Making a watcher\<close>

definition registerLogWatcher ::
    "string \<Rightarrow> (WatcherConfig \<Rightarrow> 'w) \<Rightarrow> (string \<rightharpoonup> (WatcherConfig \<Rightarrow> 'w)) \<Rightarrow> string \<rightharpoonup> (WatcherConfig \<Rightarrow> 'w)" where
  "registerLogWatcher name create createFuncs = createFuncs(name \<mapsto> create)"

text \<open>The table after the packages are initialised, for a build with all three watchers.\<close>

definition filelogPluginName :: string where "filelogPluginName = ''filelog''"
definition journaldPluginName :: string where "journaldPluginName = ''journald''"

definition registered_watchers ::
    "(WatcherConfig \<Rightarrow> 'w) \<Rightarrow> (WatcherConfig \<Rightarrow> 'w) \<Rightarrow> (WatcherConfig \<Rightarrow> 'w) \<Rightarrow> string \<rightharpoonup> (WatcherConfig \<Rightarrow> 'w)" where
  "registered_watchers newFilelog newJournald newKmsg =
     registerLogWatcher ''kmsg'' newKmsg
       (registerLogWatcher journaldPluginName newJournald
         (registerLogWatcher filelogPluginName newFilelog Map.empty))"

text \<open>The uptime is whole seconds in 64 bits; \<open>sysinfo\<close> is the answer of the system call.\<close>

definition GetUptimeDuration :: "'e + int64 \<Rightarrow> 'e + duration" where
  "GetUptimeDuration sysinfo = map_sum (\<lambda>e. e) (\<lambda>uptime. sint (uptime * word_of_int Second)) sysinfo"

datatype 'e watcher_fatal = NoSysinfo 'e | NoStartTime start_error

definition watcher_startTime :: "'e + int64 \<Rightarrow> gotime \<Rightarrow> WatcherConfig \<Rightarrow> 'e watcher_fatal + gotime" where
  "watcher_startTime sysinfo now cfg =
     (case GetUptimeDuration sysinfo of
        Inl err \<Rightarrow> Err (NoSysinfo err)
      | Inr uptime \<Rightarrow> map_sum NoStartTime (\<lambda>t. t) (GetStartTime now uptime (wc_Lookback cfg) (wc_Delay cfg)))"

end
