(* ===== verification/Journald_Watcher.thy ===== *)
theory Journald_Watcher
  imports Log_Watcher
begin

text \<open>
  The watcher of the systemd journal (\<^verbatim>\<open>pkg/systemlogmonitor/logwatchers/journald\<close>). The journal client
  is a library over a C interface and not part of the model: whether opening, seeking, filtering and
  reading succeed are arguments or steps that may go either way. Timestamps of the journal are
  microseconds in 64 bits, and their conversions are kept at that width.
\<close>

subsection \<open>Timestamps\<close>

text \<open>
  \<^verbatim>\<open>UnixNano\<close> is the instant in a signed 64-bit integer; the division truncates and the result is
  reinterpreted as unsigned.
\<close>

definition timeToJournalTimestamp :: "gotime \<Rightarrow> uint64" where
  "timeToJournalTimestamp t =
     (let nanos = sint (word_of_int t :: int64)
      in word_of_int (if 0 \<le> nanos then nanos div 1000 else - (- nanos div 1000)))"

text \<open>An entry: its realtime timestamp and its fields.\<close>

record JournalEntry =
  je_RealtimeTimestamp :: uint64
  je_Fields :: "string \<rightharpoonup> string"

definition journald_translate :: "JournalEntry \<Rightarrow> Log" where
  "journald_translate entry =
     \<lparr>log_Timestamp = sint (je_RealtimeTimestamp entry * 1000),
      log_Message = strings_TrimSpace (map_get [] (je_Fields entry) ''MESSAGE'')\<rparr>"

subsection \<open>Opening the journal\<close>

record journaldWatcher =
  jw_cfg :: WatcherConfig
  jw_startTime :: gotime

definition NewJournaldWatcher :: "'e + int64 \<Rightarrow> gotime \<Rightarrow> WatcherConfig \<Rightarrow> 'e watcher_fatal + journaldWatcher" where
  "NewJournaldWatcher sysinfo now cfg =
     map_sum (\<lambda>e. e) (\<lambda>startTime. \<lparr>jw_cfg = cfg, jw_startTime = startTime\<rparr>) (watcher_startTime sysinfo now cfg)"

definition configSourceKey :: string where "configSourceKey = ''source''"

text \<open>
  What the client library answers, and what is asked of it: a journal opened at the default or a
  given path, a position to seek, a filter.
\<close>

record 'e journal_lib =
  jo_NewJournal :: "'e option"
  jo_Stat :: "string \<Rightarrow> 'e option"
  jo_NewJournalFromDir :: "string \<Rightarrow> 'e option"
  jo_Seek :: "uint64 \<Rightarrow> 'e option"
  jo_AddMatch :: "string \<Rightarrow> 'e option"

datatype journal_call = OpenDefault | OpenDir string | SeekUsec uint64 | AddMatch string

datatype 'e journal_error = OpenFailed 'e | PathMissing string 'e | SeekFailed 'e | EmptySource | MatchFailed string 'e

definition getJournal ::
    "'e journal_lib \<Rightarrow> WatcherConfig \<Rightarrow> gotime \<Rightarrow> gotime \<Rightarrow> 'e journal_error option \<times> journal_call list" where
  "getJournal lib cfg startTime now =
     (let path = wc_LogPath cfg;
          opened = (if path = [] then (map_option OpenFailed (jo_NewJournal lib), OpenDefault)
                    else case jo_Stat lib path of
                      Some err \<Rightarrow> (Some (PathMissing path err), OpenDir path)
                    | None \<Rightarrow> (map_option OpenFailed (jo_NewJournalFromDir lib path), OpenDir path))
      in case opened of
           (Some err, _) \<Rightarrow> (Some err, [])
         | (None, call) \<Rightarrow>
             let seekTime = timeToJournalTimestamp (if now < startTime then now else startTime);
                 source = map_get [] (wc_PluginConfig cfg) configSourceKey;
                 match = ''SYSLOG_IDENTIFIER='' @ source
             in case jo_Seek lib seekTime of
                  Some err \<Rightarrow> (Some (SeekFailed err), [call])
                | None \<Rightarrow>
                    if source = [] then (Some EmptySource, [call, SeekUsec seekTime])
                    else case jo_AddMatch lib match of
                      Some err \<Rightarrow> (Some (MatchFailed match err), [call, SeekUsec seekTime])
                    | None \<Rightarrow> (None, [call, SeekUsec seekTime, AddMatch match]))"

subsection \<open>The loop\<close>

text \<open>
  \<^verbatim>\<open>watchLoop\<close>: at its check of the tomb, at the next entry, or at the send of a log. \<open>jl_entries\<close> are
  the entries after the position of the client. A failing \<^verbatim>\<open>Next\<close> stays where it is; a failing
  \<^verbatim>\<open>GetEntry\<close> has passed the entry. \<open>jl_appended\<close>, \<open>jl_read\<close> and \<open>jl_sent\<close> record the entries that ever
  matched the filter, those read and the logs sent. The loop does not close the channel.
\<close>

datatype journal_pc = JCheck | JNext | JSend Log | JReturned

record journalLoop =
  jl_pc :: journal_pc
  jl_entries :: "JournalEntry list"
  jl_logCh :: "Log list"
  jl_stop :: bool
  jl_done :: bool
  jl_appended :: "JournalEntry list"
  jl_read :: "JournalEntry list"
  jl_sent :: "Log list"

definition journal_start :: "JournalEntry list \<Rightarrow> journalLoop" where
  "journal_start entries = \<lparr>jl_pc = JCheck, jl_entries = entries, jl_logCh = [], jl_stop = False, jl_done = False,
     jl_appended = entries, jl_read = [], jl_sent = []\<rparr>"

definition journaldWatcher_Watch ::
    "'e journal_lib \<Rightarrow> journaldWatcher \<Rightarrow> gotime \<Rightarrow> JournalEntry list \<Rightarrow> 'e journal_error + journalLoop" where
  "journaldWatcher_Watch lib j now entries =
     (case getJournal lib (jw_cfg j) (jw_startTime j) now of
        (Some err, _) \<Rightarrow> Err err
      | (None, _) \<Rightarrow> Ok (journal_start entries))"

definition journal_chan_size :: nat where "journal_chan_size = 1000"

definition handle_entry :: "journaldWatcher \<Rightarrow> JournalEntry \<Rightarrow> Log option" where
  "handle_entry j entry =
     (if je_RealtimeTimestamp entry < timeToJournalTimestamp (jw_startTime j) then None
      else Some (journald_translate entry))"

inductive journal_loop_step :: "journaldWatcher \<Rightarrow> journalLoop \<Rightarrow> journalLoop \<Rightarrow> bool" for j where
  journal_stopping: "jl_pc s = JCheck \<Longrightarrow> jl_stop s \<Longrightarrow> journal_loop_step j s (s\<lparr>jl_pc := JReturned, jl_done := True\<rparr>)"
| journal_check: "jl_pc s = JCheck \<Longrightarrow> \<not> jl_stop s \<Longrightarrow> journal_loop_step j s (s\<lparr>jl_pc := JNext\<rparr>)"
| journal_next_fails: "jl_pc s = JNext \<Longrightarrow> journal_loop_step j s (s\<lparr>jl_pc := JCheck\<rparr>)"
| journal_end: "jl_pc s = JNext \<Longrightarrow> jl_entries s = [] \<Longrightarrow> journal_loop_step j s (s\<lparr>jl_pc := JCheck\<rparr>)"
| journal_entry_fails: "jl_pc s = JNext \<Longrightarrow> jl_entries s = entry # rest \<Longrightarrow>
     journal_loop_step j s (s\<lparr>jl_entries := rest, jl_pc := JCheck\<rparr>)"
| journal_entry: "jl_pc s = JNext \<Longrightarrow> jl_entries s = entry # rest \<Longrightarrow>
     journal_loop_step j s
       (s\<lparr>jl_entries := rest, jl_read := jl_read s @ [entry],
          jl_pc := (case handle_entry j entry of None \<Rightarrow> JCheck | Some log \<Rightarrow> JSend log)\<rparr>)"
| journal_send: "jl_pc s = JSend log \<Longrightarrow> length (jl_logCh s) < journal_chan_size \<Longrightarrow>
     journal_loop_step j s (s\<lparr>jl_logCh := jl_logCh s @ [log], jl_sent := jl_sent s @ [log], jl_pc := JCheck\<rparr>)"

inductive journal_env_step :: "journalLoop \<Rightarrow> journalLoop \<Rightarrow> bool" where
  journal_append: "journal_env_step s (s\<lparr>jl_entries := jl_entries s @ [entry], jl_appended := jl_appended s @ [entry]\<rparr>)"
| journal_take: "jl_logCh s = log # rest \<Longrightarrow> journal_env_step s (s\<lparr>jl_logCh := rest\<rparr>)"
| journal_stop: "\<not> jl_stop s \<Longrightarrow> journal_env_step s (s\<lparr>jl_stop := True\<rparr>)"

definition journal_step :: "journaldWatcher \<Rightarrow> journalLoop \<Rightarrow> journalLoop \<Rightarrow> bool" where
  "journal_step j s s' \<longleftrightarrow> journal_loop_step j s s' \<or> journal_env_step s s'"

inductive_cases journal_loop_stepE: "journal_loop_step j s s'"

subsection \<open>Lemmas\<close>

lemma sint_word_of_int_range:
  fixes i :: int
  assumes "- (2 ^ 63) \<le> i" "i < 2 ^ 63"
  shows "sint (word_of_int i :: int64) = i"
  using assms by (simp add: signed_of_int signed_take_bit_int_eq_self)

lemma timeToJournalTimestamp_range: "0 \<le> t \<Longrightarrow> t < 2 ^ 63 \<Longrightarrow> timeToJournalTimestamp t = word_of_int (t div 1000)"
  by (simp add: timeToJournalTimestamp_def sint_word_of_int_range)

lemma journal_timestamp_inverse:
  assumes "0 \<le> t" "t < 2 ^ 63"
  shows "sint (timeToJournalTimestamp t * 1000) = t - t mod 1000"
proof -
  have "timeToJournalTimestamp t * 1000 = (word_of_int (t div 1000 * 1000) :: int64)"
    by (simp add: timeToJournalTimestamp_range [OF assms])
  moreover have "t div 1000 * 1000 = t - t mod 1000" by (simp add: minus_mod_eq_div_mult)
  moreover have "0 \<le> t mod 1000" "t mod 1000 \<le> t" using assms by (simp_all add: zmod_le_nonneg_dividend)
  ultimately show ?thesis using assms sint_word_of_int_range [of "t - t mod 1000"] by simp
qed

text \<open>An entry that is not older than the start has a log whose instant is not before that of the start, to the microsecond.\<close>

lemma handle_entry_not_before:
  assumes "0 \<le> jw_startTime j" "jw_startTime j < 2 ^ 63" "uint (je_RealtimeTimestamp entry) * 1000 < 2 ^ 63"
    and "handle_entry j entry = Some log"
  shows "log_Timestamp log = uint (je_RealtimeTimestamp entry) * 1000 \<and> jw_startTime j - jw_startTime j mod 1000 \<le> log_Timestamp log"
proof -
  let ?ts = "je_RealtimeTimestamp entry"
  have "?ts * 1000 = (word_of_int (uint ?ts * 1000) :: int64)" by simp
  moreover have "- (2 ^ 63) \<le> uint ?ts * 1000" by (rule order_trans [of _ 0]) simp_all
  ultimately have ts: "sint (?ts * 1000) = uint ?ts * 1000"
    using assms(3) by (simp only: sint_word_of_int_range)
  from assms(4) have "word_of_int (jw_startTime j div 1000) \<le> ?ts" and log: "log = journald_translate entry"
    by (auto simp: handle_entry_def timeToJournalTimestamp_range [OF assms(1,2)] split: if_splits)
  then have "uint (word_of_int (jw_startTime j div 1000) :: uint64) \<le> uint ?ts" by (simp add: word_le_def)
  moreover have "uint (word_of_int (jw_startTime j div 1000) :: uint64) = jw_startTime j div 1000"
    using assms(1,2) by (intro uint_word_of_int_eq [THEN trans] take_bit_int_eq_self) auto
  ultimately have "jw_startTime j div 1000 * 1000 \<le> uint ?ts * 1000" by simp
  with ts log show ?thesis by (simp add: journald_translate_def minus_mod_eq_div_mult)
qed

definition entry_pending :: "journal_pc \<Rightarrow> Log list" where
  "entry_pending pc = (case pc of JSend log \<Rightarrow> [log] | _ \<Rightarrow> [])"

definition entry_logs :: "journaldWatcher \<Rightarrow> JournalEntry list \<Rightarrow> Log list" where
  "entry_logs j = List.map_filter (handle_entry j)"

lemma entry_logs_snoc: "entry_logs j (es @ [e]) = entry_logs j es @ (case handle_entry j e of None \<Rightarrow> [] | Some log \<Rightarrow> [log])"
  by (simp add: entry_logs_def map_filter_def split: option.split)

definition journal_inv :: "journaldWatcher \<Rightarrow> journalLoop \<Rightarrow> bool" where
  "journal_inv j s \<longleftrightarrow>
     (\<exists>passed. jl_appended s = passed @ jl_entries s \<and> subseq (jl_read s) passed) \<and>
     jl_sent s @ entry_pending (jl_pc s) = entry_logs j (jl_read s) \<and>
     jl_done s = (jl_pc s = JReturned) \<and> (\<exists>taken. taken @ jl_logCh s = jl_sent s) \<and>
     length (jl_logCh s) \<le> journal_chan_size"

lemma journal_inv_start: "journal_inv j (journal_start entries)"
  by (simp add: journal_inv_def journal_start_def entry_pending_def entry_logs_def map_filter_def)

lemma subseq_snoc: "subseq xs ys \<Longrightarrow> subseq xs (ys @ [y])"
  by (rule list_emb_prefix)

lemma journal_inv_loop: "journal_loop_step j s s' \<Longrightarrow> journal_inv j s \<Longrightarrow> journal_inv j s'"
proof (induction rule: journal_loop_step.induct)
  case (journal_entry s entry rest)
  then obtain passed where "jl_appended s = (passed @ [entry]) @ rest" "subseq (jl_read s @ [entry]) (passed @ [entry])"
    by (auto simp: journal_inv_def)
  with journal_entry show ?case
    by (cases "handle_entry j entry") (auto simp: journal_inv_def entry_pending_def entry_logs_snoc)
next
  case (journal_entry_fails s entry rest)
  then obtain passed where "jl_appended s = (passed @ [entry]) @ rest" "subseq (jl_read s) (passed @ [entry])"
    by (auto simp: journal_inv_def intro: subseq_snoc)
  with journal_entry_fails show ?case by (auto simp: journal_inv_def entry_pending_def)
next
  case (journal_send s log)
  then obtain taken where "taken @ jl_logCh s = jl_sent s" by (auto simp: journal_inv_def)
  then have "taken @ jl_logCh s @ [log] = jl_sent s @ [log]" by simp
  with journal_send show ?case by (auto simp: journal_inv_def entry_pending_def)
qed (auto simp: journal_inv_def entry_pending_def)

lemma journal_inv_env: "journal_env_step s s' \<Longrightarrow> journal_inv j s \<Longrightarrow> journal_inv j s'"
proof (induction rule: journal_env_step.induct)
  case (journal_take s log rest)
  then obtain taken where "(taken @ [log]) @ rest = jl_sent s" by (auto simp: journal_inv_def)
  then have "\<exists>taken. taken @ rest = jl_sent s" by blast
  with journal_take show ?case by (simp add: journal_inv_def)
qed (auto simp: journal_inv_def)

definition journal_tomb :: "journalLoop \<Rightarrow> Tomb" where
  "journal_tomb s = \<lparr>tomb_stop = jl_stop s, tomb_done = jl_done s\<rparr>"

interpretation journald_watcher: tomb_loop "journal_inv j" "journal_loop_step j" journal_env_step journal_tomb jl_sent for j
proof unfold_locales
  fix s s' assume step: "journal_loop_step j s s'"
  show "tomb_stop (journal_tomb s') = tomb_stop (journal_tomb s)" "\<exists>more. jl_sent s' = jl_sent s @ more"
    using step by (auto simp: journal_tomb_def elim: journal_loop_stepE)
  show "\<not> tomb_done (journal_tomb s)" if "journal_inv j s"
    using step that by (auto simp: journal_tomb_def journal_inv_def elim: journal_loop_stepE)
next
  fix s s' assume step: "journal_env_step s s'"
  show "tomb_done (journal_tomb s') = tomb_done (journal_tomb s)" "jl_sent s' = jl_sent s"
    "tomb_stop (journal_tomb s) \<Longrightarrow> tomb_stop (journal_tomb s')"
    using step by (induction rule: journal_env_step.induct) (simp_all add: journal_tomb_def)
qed (auto intro: journal_inv_loop journal_inv_env)

lemma journal_inv_reachable: "(journal_step j)\<^sup>*\<^sup>* (journal_start entries) s \<Longrightarrow> journal_inv j s"
  using journald_watcher.reach_inv [of j "journal_start entries" s] journal_inv_start
  by (simp add: journal_step_def [abs_def])

subsection \<open>Properties\<close>

text \<open>
  C38: turning an instant into a timestamp of the journal and back gives the instant rounded down to
  the microsecond, for every instant from 1970 to the end of the 64-bit nanoseconds.
\<close>

theorem journal_timestamp_roundtrip:
  assumes "0 \<le> t" "t < 2 ^ 63" "je_RealtimeTimestamp entry = timeToJournalTimestamp t"
  shows "log_Timestamp (journald_translate entry) = t - t mod 1000"
  using journal_timestamp_inverse [OF assms(1,2)] assms(3) by (simp add: journald_translate_def)

text \<open>
  C28: whatever fails on the way, the entries read are among those appended, in order and none
  twice, and the logs sent, with the one about to be sent, are the translations of those that are
  not older than the start time. No log is before the start time by a microsecond or more.
\<close>

theorem journald_sends_entries:
  assumes "(journal_step j)\<^sup>*\<^sup>* (journal_start entries) s"
    and "0 \<le> jw_startTime j" "jw_startTime j < 2 ^ 63"
    and "\<forall>entry \<in> set (jl_appended s). uint (je_RealtimeTimestamp entry) * 1000 < 2 ^ 63"
  shows "subseq (jl_read s) (jl_appended s) \<and>
    jl_sent s @ entry_pending (jl_pc s) = List.map_filter (handle_entry j) (jl_read s) \<and>
    (\<forall>log \<in> set (jl_sent s). jw_startTime j - 1000 < log_Timestamp log)"
proof (intro conjI ballI)
  note inv = journal_inv_reachable [OF assms(1)]
  then obtain passed where "jl_appended s = passed @ jl_entries s" "subseq (jl_read s) passed"
    unfolding journal_inv_def by blast
  then show sub: "subseq (jl_read s) (jl_appended s)" by (simp add: list_emb_prefix)
  from inv show sent: "jl_sent s @ entry_pending (jl_pc s) = List.map_filter (handle_entry j) (jl_read s)"
    unfolding journal_inv_def entry_logs_def by blast
  fix log assume "log \<in> set (jl_sent s)"
  then have "log \<in> set (jl_sent s @ entry_pending (jl_pc s))" by simp
  then have "log \<in> set (List.map_filter (handle_entry j) (jl_read s))" unfolding sent .
  then obtain entry where e: "entry \<in> set (jl_read s)" "handle_entry j entry = Some log"
    by (auto simp: map_filter_def)
  from list_emb_set [OF sub e(1)] have "entry \<in> set (jl_appended s)" by metis
  with assms(4) have "uint (je_RealtimeTimestamp entry) * 1000 < 2 ^ 63" by blast
  from handle_entry_not_before [OF assms(2,3) this e(2)] pos_mod_bound [of 1000 "jw_startTime j"]
  show "jw_startTime j - 1000 < log_Timestamp log" by linarith
qed

text \<open>
  Opening a journal that cannot be used leaves it open: with an empty source the client has been
  opened and positioned, and the caller gets only the error.
\<close>

lemma empty_source_leaves_journal_open:
  assumes "wc_LogPath cfg = []" "jo_NewJournal lib = None" "\<forall>t. jo_Seek lib t = None"
    and "map_get [] (wc_PluginConfig cfg) configSourceKey = []"
  shows "\<exists>t. getJournal lib cfg startTime now = (Some EmptySource, [OpenDefault, SeekUsec t])"
  using assms by (simp add: getJournal_def Let_def)

subsection \<open>Witnesses\<close>

theorem journal_timestamp_roundtrip_witness:
  "log_Timestamp (journald_translate
     \<lparr>je_RealtimeTimestamp = timeToJournalTimestamp 1700000000123456789, je_Fields = [''MESSAGE'' \<mapsto> ''x'']\<rparr>)
   = 1700000000123456000"
  using journal_timestamp_roundtrip [of 1700000000123456789
    "\<lparr>je_RealtimeTimestamp = timeToJournalTimestamp 1700000000123456789, je_Fields = [''MESSAGE'' \<mapsto> ''x'']\<rparr>"] by simp

definition sample_entry :: JournalEntry where
  "sample_entry = \<lparr>je_RealtimeTimestamp = 7, je_Fields = [''MESSAGE'' \<mapsto> '' hung task '']\<rparr>"

definition sample_journald :: journaldWatcher where
  "sample_journald = \<lparr>jw_cfg = \<lparr>wc_Plugin = ''journald'', wc_PluginConfig = [''source'' \<mapsto> ''kernel''], wc_SkipList = [],
     wc_LogPath = [], wc_Lookback = [], wc_Delay = []\<rparr>, jw_startTime = 5000\<rparr>"

lemma sample_entry_log: "handle_entry sample_journald sample_entry = Some \<lparr>log_Timestamp = 7000, log_Message = ''hung task''\<rparr>"
  by code_simp

theorem journald_sends_entries_witness:
  "\<exists>s. (journal_step sample_journald)\<^sup>*\<^sup>* (journal_start [sample_entry]) s \<and>
     jl_sent s = [\<lparr>log_Timestamp = 7000, log_Message = ''hung task''\<rparr>] \<and>
     (\<forall>log \<in> set (jl_sent s). 4000 < log_Timestamp log)"
proof -
  let ?log = "\<lparr>log_Timestamp = 7000, log_Message = ''hung task''\<rparr>"
  let ?a = "journal_start [sample_entry]" let ?b = "?a\<lparr>jl_pc := JNext\<rparr>"
  let ?c = "?b\<lparr>jl_entries := [], jl_read := [sample_entry], jl_pc := JSend ?log\<rparr>"
  let ?d = "?c\<lparr>jl_logCh := [?log], jl_sent := [?log], jl_pc := JCheck\<rparr>"
  have "journal_step sample_journald ?a ?b"
    using journal_check [of ?a sample_journald] by (simp add: journal_step_def journal_start_def)
  moreover have "journal_step sample_journald ?b ?c"
    using journal_entry [of ?b sample_entry "[]" sample_journald] by (simp add: journal_step_def journal_start_def sample_entry_log)
  moreover have "journal_step sample_journald ?c ?d"
    using journal_send [of ?c ?log sample_journald] by (simp add: journal_step_def journal_start_def journal_chan_size_def)
  ultimately have run: "(journal_step sample_journald)\<^sup>*\<^sup>* ?a ?d" by (meson rtranclp.intros)
  have bound: "\<forall>entry \<in> set (jl_appended ?d). uint (je_RealtimeTimestamp entry) * 1000 < 2 ^ 63"
    by (simp add: journal_start_def sample_entry_def)
  from journald_sends_entries [OF run _ _ bound] run show ?thesis
    by (intro exI [of _ ?d]) (simp add: sample_journald_def)
qed
end
