(* ===== verification/Log_Counter.thy ===== *)
theory Log_Counter
  imports Journald_Watcher Custom_Plugin_Config
begin

text \<open>
  The log counter (\<^verbatim>\<open>pkg/logcounter\<close> with its command \<^verbatim>\<open>cmd/logcounter\<close>): counting the matches of a
  pattern in the log up to the time the count starts, less those of a revert pattern, and the
  exit status of the command.

  Every \<^verbatim>\<open>select\<close> of the loop ends with one event: a line from the channel, the closing of the
  channel, or the timeout. The loop runs over the list of these events; it returns nothing while
  the list has not brought it to its end. Parsing of a pattern is an argument, and so are the
  uptime, the clock and the journal library the watcher of the journal needs.
\<close>

definition counter_bufferSize :: int where "counter_bufferSize = 1000"

record LogCounterOptions =
  lco_JournaldSource :: string
  lco_LogPath :: string
  lco_Lookback :: string
  lco_Delay :: string
  lco_Pattern :: string
  lco_RevertPattern :: string
  lco_Count :: int

text \<open>The options after \<^verbatim>\<open>AddFlags\<close>.\<close>

definition LogCounterOptions_AddFlags :: LogCounterOptions where
  "LogCounterOptions_AddFlags =
     \<lparr>lco_JournaldSource = [], lco_LogPath = [], lco_Lookback = [], lco_Delay = [], lco_Pattern = [],
      lco_RevertPattern = [], lco_Count = 1\<rparr>"

record logCounter =
  lc_buffer :: logBuffer
  lc_pattern :: Pattern
  lc_revertPattern :: "Pattern option"

datatype 'e counter_error =
    InvalidPattern string compile_error
  | InvalidRevertPattern string compile_error
  | WatcherFatal "'e watcher_fatal"
  | WatchFailed "'e journal_error"

datatype count_error = ChannelClosedUnexpectedly

text \<open>Making the watcher of the journal and starting it; a failure to make it ends the process.\<close>

record 'e journal_host =
  jh_sysinfo :: "'e + int64"
  jh_now :: gotime
  jh_lib :: "'e journal_lib"

definition counter_watcher_config :: "LogCounterOptions \<Rightarrow> WatcherConfig" where
  "counter_watcher_config options =
     \<lparr>wc_Plugin = ''journald'', wc_PluginConfig = [''source'' \<mapsto> lco_JournaldSource options], wc_SkipList = [],
      wc_LogPath = lco_LogPath options, wc_Lookback = lco_Lookback options, wc_Delay = lco_Delay options\<rparr>"

definition watch_journal :: "'e journal_host \<Rightarrow> LogCounterOptions \<Rightarrow> 'e counter_error option" where
  "watch_journal host options =
     (case NewJournaldWatcher (jh_sysinfo host) (jh_now host) (counter_watcher_config options) of
        Inl err \<Rightarrow> Some (WatcherFatal err)
      | Inr watcher \<Rightarrow>
          (case journaldWatcher_Watch (jh_lib host) watcher (jh_now host) [] of
             Inl err \<Rightarrow> Some (WatchFailed err)
           | Inr _ \<Rightarrow> None))"

definition NewJournaldLogCounter ::
    "(string \<Rightarrow> Regexp option) \<Rightarrow> 'e journal_host \<Rightarrow> LogCounterOptions \<Rightarrow> 'e counter_error + logCounter" where
  "NewJournaldLogCounter parse host options =
     (case CompilePattern parse (lco_Pattern options) of
        Inl err \<Rightarrow> Err (InvalidPattern (lco_Pattern options) err)
      | Inr pattern \<Rightarrow>
      case (if lco_RevertPattern options \<noteq> []
            then (case CompilePattern parse (lco_RevertPattern options) of
                    Inl err \<Rightarrow> Err (InvalidRevertPattern (lco_RevertPattern options) err)
                  | Inr p \<Rightarrow> Ok (Some p))
            else Ok None) of
        Inl err \<Rightarrow> Err err
      | Inr revertPattern \<Rightarrow>
      case watch_journal host options of
        Some err \<Rightarrow> Err err
      | None \<Rightarrow> Ok \<lparr>lc_buffer = the (NewLogBuffer counter_bufferSize), lc_pattern = pattern,
                    lc_revertPattern = revertPattern\<rparr>)"

datatype counter_event = Received Log | ChannelClosed | TimedOut

text \<open>One line: push it, then match the pattern and the revert pattern.\<close>

definition count_line :: "Log \<Rightarrow> int \<Rightarrow> logCounter \<Rightarrow> int \<times> logCounter" where
  "count_line log count e =
     (let buffer = logBuffer_Push log (lc_buffer e);
          (matched, buffer) = logBuffer_Match (lc_pattern e) buffer;
          count = (if length matched \<noteq> 0 then count + 1 else count)
      in case lc_revertPattern e of
           None \<Rightarrow> (count, e\<lparr>lc_buffer := buffer\<rparr>)
         | Some revertPattern \<Rightarrow>
             (case logBuffer_Match revertPattern buffer of
                (reverted, buffer) \<Rightarrow>
                  (if length reverted \<noteq> 0 then count - 1 else count, e\<lparr>lc_buffer := buffer\<rparr>)))"

fun Count_loop ::
    "gotime \<Rightarrow> counter_event list \<Rightarrow> int \<Rightarrow> logCounter \<Rightarrow> (int \<times> count_error option \<times> logCounter) option" where
  "Count_loop start [] count e = None"
| "Count_loop start (ChannelClosed # evs) count e = Some (count, Some ChannelClosedUnexpectedly, e)"
| "Count_loop start (TimedOut # evs) count e = Some (count, None, e)"
| "Count_loop start (Received log # evs) count e =
     (if start < log_Timestamp log then Some (count, None, e)
      else case count_line log count e of (count, e) \<Rightarrow> Count_loop start evs count e)"

definition logCounter_Count ::
    "gotime \<Rightarrow> counter_event list \<Rightarrow> logCounter \<Rightarrow> (int \<times> count_error option \<times> logCounter) option" where
  "logCounter_Count start evs e = Count_loop start evs 0 e"

text \<open>
  The exit of the command, once the count returns: with a status of a plugin, or through the fatal
  log message of the watcher.
\<close>

datatype counter_exit = Exit PluginStatus | FatalExit

definition log_counter_main ::
    "(string \<Rightarrow> Regexp option) \<Rightarrow> 'e journal_host \<Rightarrow> gotime \<Rightarrow> counter_event list \<Rightarrow>
     LogCounterOptions \<Rightarrow> counter_exit option" where
  "log_counter_main parse host start evs fedo =
     (case NewJournaldLogCounter parse host fedo of
        Inl err \<Rightarrow> Some (case err of WatcherFatal _ \<Rightarrow> FatalExit | _ \<Rightarrow> Exit UnknownStatus)
      | Inr counter \<Rightarrow>
          map_option (\<lambda>(actual, err, _).
              Exit (if err \<noteq> None then UnknownStatus
                    else if actual \<ge> lco_Count fedo then NonOK else OK))
            (logCounter_Count start evs counter))"

subsection \<open>Lemmas\<close>

text \<open>The specification: the lines at which a pattern matches the last thousand lines so far.\<close>

definition hits :: "Pattern \<Rightarrow> Log list \<Rightarrow> nat" where
  "hits p logs = length (filter (\<lambda>i. match_spec 1000 (p_regexp p) (last_n 1000 (take i logs)) \<noteq> []) [1..<Suc (length logs)])"

lemma hits_Nil [simp]: "hits p [] = 0"
  by (simp add: hits_def)

lemma hits_snoc:
  "hits p (logs @ [log]) =
     hits p logs + (if match_spec 1000 (p_regexp p) (last_n 1000 (logs @ [log])) \<noteq> [] then 1 else 0)"
proof -
  have "filter (\<lambda>i. match_spec 1000 (p_regexp p) (last_n 1000 (take i (logs @ [log]))) \<noteq> []) [1..<Suc (length logs)] =
      filter (\<lambda>i. match_spec 1000 (p_regexp p) (last_n 1000 (take i logs)) \<noteq> []) [1..<Suc (length logs)]"
    by (rule filter_cong) auto
  moreover have "[1..<Suc (length (logs @ [log]))] = [1..<Suc (length logs)] @ [Suc (length logs)]" by simp
  ultimately show ?thesis
    unfolding hits_def by (simp only: filter_append length_append) simp
qed

definition net_hits :: "logCounter \<Rightarrow> Log list \<Rightarrow> int" where
  "net_hits e logs =
     int (hits (lc_pattern e) logs) - (case lc_revertPattern e of None \<Rightarrow> 0 | Some r \<Rightarrow> int (hits r logs))"

definition counter_ok :: "logCounter \<Rightarrow> bool" where
  "counter_ok e \<longleftrightarrow> logBuffer_inv (lc_buffer e) \<and> lb_max (lc_buffer e) = 1000 \<and> Pattern_sound (lc_pattern e) \<and>
     (\<forall>r. lc_revertPattern e = Some r \<longrightarrow> Pattern_sound r)"

lemma match_parts:
  assumes "logBuffer_Match p b = (m, b')" and "logBuffer_inv b" and "Pattern_sound p"
  shows "m = match_spec (lb_max b) (p_regexp p) (window b)" and "logBuffer_inv b'" and "lb_max b' = lb_max b"
    and "window b' = window b"
  using assms logBuffer_Match_spec [OF assms(2,3)] logBuffer_inv_Match [OF assms(2), of p] logBuffer_Match_frame [of p b]
  by simp_all

lemma count_line_spec:
  assumes "counter_ok e" and "window (lc_buffer e) = last_n 1000 logs"
    and "count_line log (net_hits e logs) e = (count', e')"
  shows "counter_ok e'" and "window (lc_buffer e') = last_n 1000 (logs @ [log])"
    and "lc_pattern e' = lc_pattern e" and "lc_revertPattern e' = lc_revertPattern e"
    and "count' = net_hits e (logs @ [log])"
proof -
  let ?b = "logBuffer_Push log (lc_buffer e)"
  have inv: "logBuffer_inv (lc_buffer e)" "lb_max (lc_buffer e) = 1000" "Pattern_sound (lc_pattern e)"
    using assms(1) by (simp_all add: counter_ok_def)
  have b: "logBuffer_inv ?b" "lb_max ?b = 1000" "window ?b = last_n 1000 (logs @ [log])"
    using inv logBuffer_inv_Push window_Push(1) [OF inv(1)] assms(2) last_n_snoc_last_n by simp_all
  obtain m b1 where m: "logBuffer_Match (lc_pattern e) ?b = (m, b1)" by fastforce
  note M = match_parts [OF m b(1) inv(3), unfolded b]
  have goal: "counter_ok e' \<and> window (lc_buffer e') = last_n 1000 (logs @ [log]) \<and> lc_pattern e' = lc_pattern e \<and>
      lc_revertPattern e' = lc_revertPattern e \<and> count' = net_hits e (logs @ [log])"
  proof (cases "lc_revertPattern e")
    case None
    with assms(1,3) m M b show ?thesis
      by (auto simp: count_line_def net_hits_def hits_snoc counter_ok_def)
  next
    case (Some r)
    then have r: "Pattern_sound r" using assms(1) by (simp add: counter_ok_def)
    obtain m2 b2 where m2: "logBuffer_Match r b1 = (m2, b2)" by fastforce
    note M2 = match_parts [OF m2 M(2) r, unfolded M(3,4)]
    from Some assms(1,3) m m2 M M2 r show ?thesis
      by (auto simp: count_line_def net_hits_def hits_snoc counter_ok_def)
  qed
  from goal show "counter_ok e'" "window (lc_buffer e') = last_n 1000 (logs @ [log])" "lc_pattern e' = lc_pattern e"
    "lc_revertPattern e' = lc_revertPattern e" "count' = net_hits e (logs @ [log])" by blast+
qed

lemma Count_loop_logs:
  assumes "counter_ok e" and "window (lc_buffer e) = last_n 1000 seen" and "\<forall>log \<in> set logs. log_Timestamp log \<le> start"
  shows "\<exists>e'. Count_loop start (map Received logs @ evs) (net_hits e seen) e =
    Count_loop start evs (net_hits e (seen @ logs)) e'"
  using assms
proof (induction logs arbitrary: seen e)
  case Nil
  show ?case by auto
next
  case (Cons log logs)
  obtain count' e' where c: "count_line log (net_hits e seen) e = (count', e')" by fastforce
  note C = count_line_spec [OF Cons.prems(1,2) c]
  have net: "net_hits e' = net_hits e" using C(3,4) by (simp add: net_hits_def fun_eq_iff)
  obtain e'' where "Count_loop start (map Received logs @ evs) (net_hits e' (seen @ [log])) e' =
      Count_loop start evs (net_hits e' ((seen @ [log]) @ logs)) e''"
    using Cons.IH [OF C(1,2)] Cons.prems(3) by auto
  with Cons.prems(3) c C(5) net show ?case by auto
qed

lemma NewJournaldLogCounter_ok:
  assumes "NewJournaldLogCounter parse host options = Ok e" and "parser_groups parse"
  shows "counter_ok e \<and> window (lc_buffer e) = [] \<and> CompilePattern parse (lco_Pattern options) = Ok (lc_pattern e) \<and>
    (case lc_revertPattern e of
       None \<Rightarrow> lco_RevertPattern options = []
     | Some r \<Rightarrow> lco_RevertPattern options \<noteq> [] \<and> CompilePattern parse (lco_RevertPattern options) = Ok r)"
proof -
  obtain b where b: "NewLogBuffer counter_bufferSize = Some b"
    by (auto simp: NewLogBuffer_def counter_bufferSize_def)
  have B: "logBuffer_inv b" "window b = []" "lb_max b = 1000"
    using NewLogBuffer_inv [OF b] by (simp_all add: counter_bufferSize_def)
  from assms(1) have "CompilePattern parse (lco_Pattern options) = Ok (lc_pattern e) \<and> lc_buffer e = b \<and>
      (case lc_revertPattern e of
         None \<Rightarrow> lco_RevertPattern options = []
       | Some r \<Rightarrow> lco_RevertPattern options \<noteq> [] \<and> CompilePattern parse (lco_RevertPattern options) = Ok r)"
    unfolding NewJournaldLogCounter_def b by (auto split: sum.splits if_splits option.splits)
  with B CompilePattern_sound [OF assms(2)] show ?thesis
    by (auto simp: counter_ok_def split: option.splits)
qed

subsection \<open>Properties\<close>

text \<open>
  C26: the log counter counts the lines up to its start at which its pattern matches the last
  thousand lines so far, less those at which the revert pattern does, and its command reports a
  problem exactly when that number reaches the configured count: whatever the lines, once a line
  after the start or the timeout ends the loop.
\<close>

theorem log_counter_counts:
  assumes "NewJournaldLogCounter parse host options = Ok e" and "parser_groups parse"
    and "\<forall>log \<in> set logs. log_Timestamp log \<le> start"
    and "ev = TimedOut \<or> (\<exists>log. ev = Received log \<and> start < log_Timestamp log)"
  shows "log_counter_main parse host start (map Received logs @ ev # evs) options =
    Some (Exit (if net_hits e logs \<ge> lco_Count options then NonOK else OK))"
proof -
  have ok: "counter_ok e" "window (lc_buffer e) = last_n 1000 []"
    using NewJournaldLogCounter_ok [OF assms(1,2)] by simp_all
  obtain e' where "Count_loop start (map Received logs @ ev # evs) (net_hits e []) e =
      Count_loop start (ev # evs) (net_hits e logs) e'"
    using Count_loop_logs [OF ok assms(3), of "ev # evs"] by auto
  moreover have "net_hits e [] = 0" by (simp add: net_hits_def split: option.splits)
  ultimately have "Count_loop start (map Received logs @ ev # evs) 0 e = Some (net_hits e logs, None, e')"
    using assms(4) by auto
  then show ?thesis by (simp add: log_counter_main_def assms(1) logCounter_Count_def)
qed

subsection \<open>Witness\<close>

definition sample_counter_options :: LogCounterOptions where
  "sample_counter_options = LogCounterOptions_AddFlags\<lparr>lco_Pattern := ''b+'', lco_JournaldSource := ''kernel''\<rparr>"

definition sample_counter :: logCounter where
  "sample_counter = \<lparr>lc_buffer = the (NewLogBuffer 1000), lc_pattern = sample_pattern, lc_revertPattern = None\<rparr>"

definition sample_host :: "unit journal_host" where
  "sample_host = \<lparr>jh_sysinfo = Inr 10, jh_now = 0, jh_lib = \<lparr>jo_NewJournal = None, jo_Stat = \<lambda>_. None,
     jo_NewJournalFromDir = \<lambda>_. None, jo_Seek = \<lambda>_. None, jo_AddMatch = \<lambda>_. None\<rparr>\<rparr>"

lemma sample_counter_new: "NewJournaldLogCounter sample_parse sample_host sample_counter_options = Ok sample_counter"
proof -
  have "watch_journal sample_host sample_counter_options = None" by code_simp
  then show ?thesis
    by (simp add: NewJournaldLogCounter_def sample_counter_options_def LogCounterOptions_AddFlags_def sample_compile
        sample_counter_def counter_bufferSize_def)
qed

theorem log_counter_counts_witness:
  "log_counter_main sample_parse sample_host 5
     (map Received [sample_log 1 ''xb'', sample_log 2 ''a''] @ [Received (sample_log 9 ''b'')]) sample_counter_options =
   Some (Exit (if net_hits sample_counter [sample_log 1 ''xb'', sample_log 2 ''a''] \<ge> 1 then NonOK else OK))"
proof -
  have "lco_Count sample_counter_options = 1"
    by (simp add: sample_counter_options_def LogCounterOptions_AddFlags_def)
  with log_counter_counts [OF sample_counter_new sample_parse_groups, of "[sample_log 1 ''xb'', sample_log 2 ''a'']" 5
      "Received (sample_log 9 ''b'')" "[]"] show ?thesis
    by (simp add: sample_log_def)
qed

end
