(* ===== verification/File_Log_Watcher.thy ===== *)
theory File_Log_Watcher
  imports Log_Watcher
begin

text \<open>
  The watcher of a log file (\<^verbatim>\<open>pkg/systemlogmonitor/logwatchers/filelog\<close>): the translation of a line,
  the filter, and the loop that reads the file as it grows, as a step relation in which bytes are
  written to the file, lines are taken from the channel and the watcher is stopped at any time.

  The regular expressions are the functions their \<^verbatim>\<open>FindStringSubmatch\<close> gives; compiling one,
  parsing and adjusting a timestamp, and opening the file are arguments.
\<close>

subsection \<open>The translator\<close>

record translator =
  tr_timestampRegexp :: "string \<Rightarrow> string list"
  tr_messageRegexp :: "string \<Rightarrow> string list"
  tr_timestampFormat :: string

definition timestampKey :: string where "timestampKey = ''timestamp''"
definition messageKey :: string where "messageKey = ''message''"
definition timestampFormatKey :: string where "timestampFormatKey = ''timestampFormat''"

text \<open>Reading a missing key of a map of strings gives the empty string.\<close>

definition lookup_string :: "(string \<rightharpoonup> string) \<Rightarrow> string \<Rightarrow> string" where
  "lookup_string m k = (case m k of Some v \<Rightarrow> v | None \<Rightarrow> [])"

datatype plugin_config_problem = EmptyTimestampRegexp | EmptyMessageRegexp | EmptyTimestampFormat

definition validatePluginConfig :: "(string \<rightharpoonup> string) \<Rightarrow> plugin_config_problem option" where
  "validatePluginConfig cfg =
     (if lookup_string cfg timestampKey = [] then Some EmptyTimestampRegexp
      else if lookup_string cfg messageKey = [] then Some EmptyMessageRegexp
      else if lookup_string cfg timestampFormatKey = [] then Some EmptyTimestampFormat
      else None)"

text \<open>
  A configuration that is not valid is only logged. \<open>compile\<close> is \<^verbatim>\<open>regexp.MustCompile\<close>, which panics
  on an expression it cannot parse.
\<close>

definition newTranslatorOrDie ::
    "(string \<Rightarrow> (string \<Rightarrow> string list) option) \<Rightarrow> (string \<rightharpoonup> string) \<Rightarrow> translator option" where
  "newTranslatorOrDie compile pluginConfig =
     (case compile (lookup_string pluginConfig timestampKey) of
        None \<Rightarrow> None
      | Some ts \<Rightarrow>
          (case compile (lookup_string pluginConfig messageKey) of
             None \<Rightarrow> None
           | Some msg \<Rightarrow> Some \<lparr>tr_timestampRegexp = ts, tr_messageRegexp = msg,
               tr_timestampFormat = lookup_string pluginConfig timestampFormatKey\<rparr>))"

text \<open>The calendar: parsing with a format, the year of an instant, and adding years.\<close>

record 'e calendar =
  cal_ParseInLocation :: "string \<Rightarrow> string \<Rightarrow> 'e + gotime"
  cal_Year :: "gotime \<Rightarrow> int"
  cal_AddYears :: "int \<Rightarrow> gotime \<Rightarrow> gotime"

definition formalizeTimestamp :: "'e calendar \<Rightarrow> gotime \<Rightarrow> gotime \<Rightarrow> gotime" where
  "formalizeTimestamp cal now t = (if cal_Year cal t = 0 then cal_AddYears cal (cal_Year cal now) t else t)"

datatype 'e translate_error = NoTimestamp string | BadTimestamp string 'e | NoMessage string

definition translator_translate :: "'e calendar \<Rightarrow> gotime \<Rightarrow> translator \<Rightarrow> string \<Rightarrow> 'e translate_error + Log" where
  "translator_translate cal now t line =
     (let matches = tr_timestampRegexp t line in
      if matches = [] then Err (NoTimestamp line)
      else case cal_ParseInLocation cal (tr_timestampFormat t) (last matches) of
        Inl err \<Rightarrow> Err (BadTimestamp (last matches) err)
      | Inr timestamp \<Rightarrow>
          let timestamp = formalizeTimestamp cal now timestamp;
              matches = tr_messageRegexp t line
          in if matches = [] then Err (NoMessage line)
             else Ok \<lparr>log_Timestamp = timestamp, log_Message = last matches\<rparr>)"

subsection \<open>The watcher\<close>

record filelogWatcher =
  flw_cfg :: WatcherConfig
  flw_translator :: translator
  flw_startTime :: gotime

datatype 'e syslog_fatal = NotStarted "'e watcher_fatal" | TranslatorPanicked

definition NewSyslogWatcherOrDie ::
    "'e + int64 \<Rightarrow> gotime \<Rightarrow> (string \<Rightarrow> (string \<Rightarrow> string list) option) \<Rightarrow> WatcherConfig
      \<Rightarrow> 'e syslog_fatal + filelogWatcher" where
  "NewSyslogWatcherOrDie sysinfo now compile cfg =
     (case watcher_startTime sysinfo now cfg of Inl err \<Rightarrow> Err (NotStarted err) | Inr startTime \<Rightarrow>
      case newTranslatorOrDie compile (wc_PluginConfig cfg) of None \<Rightarrow> Err TranslatorPanicked | Some t \<Rightarrow>
        Ok \<lparr>flw_cfg = cfg, flw_translator = t, flw_startTime = startTime\<rparr>)"

text \<open>\<^verbatim>\<open>getLogReader\<close> on Linux: \<open>Stat\<close> and \<open>NewTail\<close> say whether they fail.\<close>

datatype 'e reader_error = EmptyLogPath | StatFailed 'e | TailFailed 'e

definition getLogReader :: "(string \<Rightarrow> 'e option) \<Rightarrow> (string \<Rightarrow> 'e option) \<Rightarrow> string \<Rightarrow> 'e reader_error option" where
  "getLogReader Stat NewTail path =
     (if path = [] then Some EmptyLogPath
      else case Stat path of
        Some err \<Rightarrow> Some (StatFailed err)
      | None \<Rightarrow> map_option TailFailed (NewTail path))"

definition filterSkipList :: "filelogWatcher \<Rightarrow> string \<Rightarrow> bool" where
  "filterSkipList s line = list_ex (strings_Contains line) (wc_SkipList (flw_cfg s))"

text \<open>What becomes of a complete line: the log to send, if any.\<close>

definition handle_line :: "'e calendar \<Rightarrow> filelogWatcher \<Rightarrow> gotime \<Rightarrow> string \<Rightarrow> Log option" where
  "handle_line cal s now line =
     (if filterSkipList s line then None
      else case translator_translate cal now (flw_translator s) (strings_TrimSuffix line [nl]) of
        Inl err \<Rightarrow> None
      | Inr log \<Rightarrow> if log_Timestamp log < flw_startTime s then None else Some log)"

text \<open>
  \<^verbatim>\<open>watchLoop\<close>: at its check of the tomb, at its read, or at the send of a log. \<open>fl_input\<close> is what has
  been written to the file and not yet read, \<open>fl_buffer\<close> the partial line read so far. \<open>fl_written\<close>,
  \<open>fl_handled\<close> and \<open>fl_sent\<close> record all bytes ever written, the lines handled with the instant each was,
  and the logs sent. The rules of \<open>file_loop_step\<close> are the loop, those of \<open>file_env_step\<close> the writer of
  the file, the log monitor and a call of \<^verbatim>\<open>Stop\<close>, which returns once \<open>fl_done\<close> holds.
\<close>

datatype file_pc = FCheck | FRead | FSend Log | FReturned

record fileLoop =
  fl_pc :: file_pc
  fl_input :: string
  fl_buffer :: string
  fl_logCh :: "Log list"
  fl_closed :: bool
  fl_stop :: bool
  fl_done :: bool
  fl_written :: string
  fl_handled :: "(gotime \<times> string) list"
  fl_sent :: "Log list"

definition file_start :: fileLoop where
  "file_start = \<lparr>fl_pc = FCheck, fl_input = [], fl_buffer = [], fl_logCh = [], fl_closed = False, fl_stop = False,
     fl_done = False, fl_written = [], fl_handled = [], fl_sent = []\<rparr>"

definition filelogWatcher_Watch ::
    "(string \<Rightarrow> 'e option) \<Rightarrow> (string \<Rightarrow> 'e option) \<Rightarrow> filelogWatcher \<Rightarrow> 'e reader_error + fileLoop" where
  "filelogWatcher_Watch Stat NewTail s =
     (case getLogReader Stat NewTail (wc_LogPath (flw_cfg s)) of Some err \<Rightarrow> Err err | None \<Rightarrow> Ok file_start)"

definition file_chan_size :: nat where "file_chan_size = 1000"

inductive file_loop_step :: "'e calendar \<Rightarrow> filelogWatcher \<Rightarrow> fileLoop \<Rightarrow> fileLoop \<Rightarrow> bool" for cal w where
  file_stopping: "fl_pc s = FCheck \<Longrightarrow> fl_stop s \<Longrightarrow>
     file_loop_step cal w s (s\<lparr>fl_pc := FReturned, fl_closed := True, fl_done := True\<rparr>)"
| file_check: "fl_pc s = FCheck \<Longrightarrow> \<not> fl_stop s \<Longrightarrow> file_loop_step cal w s (s\<lparr>fl_pc := FRead\<rparr>)"
| file_error: "fl_pc s = FRead \<Longrightarrow> file_loop_step cal w s (s\<lparr>fl_pc := FReturned, fl_closed := True, fl_done := True\<rparr>)"
| file_eof: "fl_pc s = FRead \<Longrightarrow> nl \<notin> set (fl_input s) \<Longrightarrow>
     file_loop_step cal w s (s\<lparr>fl_buffer := fl_buffer s @ fl_input s, fl_input := [], fl_pc := FCheck\<rparr>)"
| file_line: "fl_pc s = FRead \<Longrightarrow> fl_input s = line @ nl # rest \<Longrightarrow> nl \<notin> set line \<Longrightarrow>
     file_loop_step cal w s
       (s\<lparr>fl_buffer := [], fl_input := rest, fl_handled := fl_handled s @ [(now, fl_buffer s @ line @ [nl])],
          fl_pc := (case handle_line cal w now (fl_buffer s @ line @ [nl]) of None \<Rightarrow> FCheck | Some log \<Rightarrow> FSend log)\<rparr>)"
| file_send: "fl_pc s = FSend log \<Longrightarrow> length (fl_logCh s) < file_chan_size \<Longrightarrow>
     file_loop_step cal w s (s\<lparr>fl_logCh := fl_logCh s @ [log], fl_sent := fl_sent s @ [log], fl_pc := FCheck\<rparr>)"

inductive file_env_step :: "fileLoop \<Rightarrow> fileLoop \<Rightarrow> bool" where
  file_write: "file_env_step s (s\<lparr>fl_input := fl_input s @ bytes, fl_written := fl_written s @ bytes\<rparr>)"
| file_take: "fl_logCh s = log # rest \<Longrightarrow> file_env_step s (s\<lparr>fl_logCh := rest\<rparr>)"
| file_stop: "\<not> fl_stop s \<Longrightarrow> file_env_step s (s\<lparr>fl_stop := True\<rparr>)"

definition file_step :: "'e calendar \<Rightarrow> filelogWatcher \<Rightarrow> fileLoop \<Rightarrow> fileLoop \<Rightarrow> bool" where
  "file_step cal w s s' \<longleftrightarrow> file_loop_step cal w s s' \<or> file_env_step s s'"

subsection \<open>Lemmas\<close>

text \<open>The complete lines of a text, each with its newline, and what is left.\<close>

fun lines_of :: "string \<Rightarrow> string \<Rightarrow> string list \<times> string" where
  "lines_of acc [] = ([], acc)"
| "lines_of acc (c # cs) =
     (if c = nl then (case lines_of [] cs of (ls, r) \<Rightarrow> ((acc @ [c]) # ls, r)) else lines_of (acc @ [c]) cs)"

definition complete_lines :: "string \<Rightarrow> string list" where
  "complete_lines str = fst (lines_of [] str)"

lemma lines_of_line: "nl \<notin> set line \<Longrightarrow> lines_of acc (line @ nl # rest) =
    (case lines_of [] rest of (ls, r) \<Rightarrow> ((acc @ line @ [nl]) # ls, r))"
  by (induction line arbitrary: acc) auto

lemma lines_of_rest: "nl \<notin> set str \<Longrightarrow> lines_of acc str = ([], acc @ str)"
  by (induction str arbitrary: acc) auto

lemma lines_of_append:
  "lines_of acc (a @ b) = (case lines_of acc a of (ls, r) \<Rightarrow> case lines_of r b of (ls', r') \<Rightarrow> (ls @ ls', r'))"
  by (induction acc a rule: lines_of.induct) (auto split: prod.splits)

lemma lines_of_concat:
  "\<forall>l \<in> set ls. \<exists>x. l = x @ [nl] \<and> nl \<notin> set x \<Longrightarrow> nl \<notin> set r \<Longrightarrow> lines_of [] (concat ls @ r) = (ls, r)"
proof (induction ls)
  case (Cons l ls)
  then obtain x where "l = x @ [nl]" "nl \<notin> set x" by auto
  with Cons show ?case by (simp add: lines_of_line)
qed (simp add: lines_of_rest)

definition pending :: "file_pc \<Rightarrow> Log list" where
  "pending pc = (case pc of FSend log \<Rightarrow> [log] | _ \<Rightarrow> [])"

text \<open>The logs of lines handled at given instants.\<close>

definition logs_of :: "'e calendar \<Rightarrow> filelogWatcher \<Rightarrow> (gotime \<times> string) list \<Rightarrow> Log list" where
  "logs_of cal w = List.map_filter (\<lambda>(now, line). handle_line cal w now line)"

lemma logs_of_snoc: "logs_of cal w (xs @ [(now, line)]) =
    logs_of cal w xs @ (case handle_line cal w now line of None \<Rightarrow> [] | Some log \<Rightarrow> [log])"
  by (simp add: logs_of_def map_filter_def split: option.split)

text \<open>
  What has been read is the lines handled and the buffer; the logs sent, and the one about to be
  sent, are those of the lines handled.
\<close>

definition file_inv :: "'e calendar \<Rightarrow> filelogWatcher \<Rightarrow> fileLoop \<Rightarrow> bool" where
  "file_inv cal w s \<longleftrightarrow>
     fl_written s = concat (map snd (fl_handled s)) @ fl_buffer s @ fl_input s \<and>
     (\<forall>line \<in> set (map snd (fl_handled s)). \<exists>x. line = x @ [nl] \<and> nl \<notin> set x) \<and>
     fl_sent s @ pending (fl_pc s) = logs_of cal w (fl_handled s) \<and>
     nl \<notin> set (fl_buffer s) \<and> length (fl_logCh s) \<le> file_chan_size \<and>
     fl_closed s = (fl_pc s = FReturned) \<and> fl_done s = fl_closed s \<and>
     (\<exists>taken. taken @ fl_logCh s = fl_sent s)"

lemma file_inv_start: "file_inv cal w file_start"
  by (simp add: file_inv_def file_start_def pending_def logs_of_def map_filter_def)

lemma file_inv_loop: "file_loop_step cal w s s' \<Longrightarrow> file_inv cal w s \<Longrightarrow> file_inv cal w s'"
proof (induction rule: file_loop_step.induct)
  case (file_line s line rest now)
  let ?l = "fl_buffer s @ line @ [nl]"
  have "\<exists>x. ?l = x @ [nl] \<and> nl \<notin> set x"
    by (rule exI [of _ "fl_buffer s @ line"]) (use file_line in \<open>simp add: file_inv_def\<close>)
  moreover from file_line have "\<exists>taken. taken @ fl_logCh s = fl_sent s" by (simp add: file_inv_def)
  ultimately show ?case using file_line
    by (cases "handle_line cal w now ?l") (simp_all add: file_inv_def pending_def logs_of_snoc)
qed (auto simp: file_inv_def pending_def, metis append.assoc)

lemma file_inv_env: "file_env_step s s' \<Longrightarrow> file_inv cal w s \<Longrightarrow> file_inv cal w s'"
  by (induction rule: file_env_step.induct) (auto simp: file_inv_def, (metis append.assoc append_Cons append_Nil)+)

lemma file_inv_reachable: "(file_step cal w)\<^sup>*\<^sup>* file_start s \<Longrightarrow> file_inv cal w s"
  by (induction rule: rtranclp_induct) (auto simp: file_step_def file_inv_start intro: file_inv_loop file_inv_env)

lemma complete_lines_handled:
  assumes "file_inv cal w s"
  shows "complete_lines (fl_written s) = map snd (fl_handled s) @ complete_lines (fl_buffer s @ fl_input s)"
proof -
  have "lines_of [] (concat (map snd (fl_handled s))) = (map snd (fl_handled s), [])"
    using lines_of_concat [of "map snd (fl_handled s)" "[]"] assms by (simp add: file_inv_def)
  then show ?thesis
    using assms by (simp add: file_inv_def complete_lines_def lines_of_append [of _ "concat _"] split: prod.split)
qed

inductive_cases file_loop_stepE: "file_loop_step cal w s s'"

text \<open>How many steps of its own the loop may still take once it is to stop.\<close>

definition steps_left :: "file_pc \<Rightarrow> nat" where
  "steps_left pc = (case pc of FReturned \<Rightarrow> 0 | FCheck \<Rightarrow> 1 | FSend log \<Rightarrow> 2 | FRead \<Rightarrow> 3)"

lemma steps_left_decreases:
  "file_loop_step cal w s s' \<Longrightarrow> fl_stop s \<Longrightarrow> fl_stop s' \<and> steps_left (fl_pc s') < steps_left (fl_pc s)"
  by (induction rule: file_loop_step.induct) (auto simp: steps_left_def split: option.split)

lemma file_loop_read: "fl_pc s = FRead \<Longrightarrow> \<exists>s'. file_loop_step cal w s s'"
  by (blast intro: file_error)

lemma file_loop_stuck:
  assumes "file_inv cal w s" "fl_stop s"
  shows "(\<nexists>s'. file_loop_step cal w s s') \<longleftrightarrow>
     fl_done s \<or> (\<exists>log. fl_pc s = FSend log \<and> length (fl_logCh s) = file_chan_size)"
proof (cases "fl_pc s")
  case FCheck
  then have "\<exists>s'. file_loop_step cal w s s'" using assms(2) by (blast intro: file_stopping)
  with FCheck assms show ?thesis by (simp add: file_inv_def)
next
  case FRead
  with file_loop_read [OF FRead, of cal w] assms show ?thesis by (simp add: file_inv_def)
next
  case (FSend log)
  show ?thesis
  proof (cases "length (fl_logCh s) < file_chan_size")
    case True
    then have "\<exists>s'. file_loop_step cal w s s'" using FSend by (blast intro: file_send)
    with True FSend assms show ?thesis by (simp add: file_inv_def)
  next
    case False
    then have "\<nexists>s'. file_loop_step cal w s s'" using FSend by (auto elim: file_loop_stepE)
    with False FSend assms show ?thesis by (auto simp: file_inv_def)
  qed
next
  case FReturned
  then have "\<nexists>s'. file_loop_step cal w s s'" by (auto elim: file_loop_stepE)
  with FReturned assms show ?thesis by (simp add: file_inv_def)
qed

text \<open>
  The blocked state can be reached: a thousand logs that nobody takes and one more. The log monitor
  does not take logs while it waits in the \<^verbatim>\<open>Stop\<close> of its watcher.
\<close>

definition idle :: "Log list \<Rightarrow> fileLoop \<Rightarrow> bool" where
  "idle logs s \<longleftrightarrow> fl_pc s = FCheck \<and> fl_input s = [] \<and> fl_buffer s = [] \<and> fl_logCh s = logs \<and> \<not> fl_stop s"

lemma file_reads_line:
  assumes h: "handle_line cal w now (line @ [nl]) = Some log" and nl: "nl \<notin> set line" and s: "idle logs s"
  shows "\<exists>s'. (file_step cal w)\<^sup>*\<^sup>* s s' \<and> fl_pc s' = FSend log \<and> idle logs (s'\<lparr>fl_pc := FCheck\<rparr>)"
proof -
  let ?a = "s\<lparr>fl_input := line @ [nl], fl_written := fl_written s @ line @ [nl]\<rparr>"
  let ?b = "?a\<lparr>fl_pc := FRead\<rparr>"
  let ?c = "?b\<lparr>fl_buffer := [], fl_input := [], fl_handled := fl_handled s @ [(now, line @ [nl])], fl_pc := FSend log\<rparr>"
  have "file_step cal w s ?a" using file_write [of s "line @ [nl]"] s by (simp add: file_step_def idle_def)
  moreover have "file_step cal w ?a ?b" using file_check [of ?a cal w] s by (simp add: file_step_def idle_def)
  moreover have "file_step cal w ?b ?c"
    using file_line [of ?b line "[]" cal w now] s nl h by (simp add: file_step_def idle_def)
  ultimately have "(file_step cal w)\<^sup>*\<^sup>* s ?c" by (meson rtranclp.intros)
  moreover have "fl_pc ?c = FSend log" "idle logs (?c\<lparr>fl_pc := FCheck\<rparr>)" using s by (simp_all add: idle_def)
  ultimately show ?thesis by blast
qed

lemma file_fill:
  assumes h: "handle_line cal w now (line @ [nl]) = Some log" and nl: "nl \<notin> set line"
  shows "n \<le> file_chan_size \<Longrightarrow> \<exists>s. (file_step cal w)\<^sup>*\<^sup>* file_start s \<and> idle (replicate n log) s"
proof (induction n)
  case 0
  show ?case by (rule exI [of _ file_start]) (simp add: file_start_def idle_def)
next
  case (Suc n)
  then obtain s where s: "(file_step cal w)\<^sup>*\<^sup>* file_start s" "idle (replicate n log) s" by auto
  from file_reads_line [OF h nl s(2)] obtain s' where s': "(file_step cal w)\<^sup>*\<^sup>* s s'" "fl_pc s' = FSend log"
    "idle (replicate n log) (s'\<lparr>fl_pc := FCheck\<rparr>)" by blast
  let ?t = "s'\<lparr>fl_logCh := fl_logCh s' @ [log], fl_sent := fl_sent s' @ [log], fl_pc := FCheck\<rparr>"
  have "file_step cal w s' ?t"
    using file_send [of s' log cal w] s' Suc.prems by (simp add: file_step_def idle_def)
  then have "(file_step cal w)\<^sup>*\<^sup>* file_start ?t" using s(1) s'(1) by (meson rtranclp.rtrancl_into_rtrancl rtranclp_trans)
  moreover have "idle (replicate (Suc n) log) ?t" using s' by (simp add: idle_def replicate_append_same)
  ultimately show ?case by blast
qed

lemma filelog_stop_blocked:
  assumes h: "handle_line cal w now (line @ [nl]) = Some log" and nl: "nl \<notin> set line"
  shows "\<exists>s. (file_step cal w)\<^sup>*\<^sup>* file_start s \<and> fl_stop s \<and> \<not> fl_done s \<and> (\<nexists>s'. file_loop_step cal w s s')"
proof -
  from file_fill [OF assms order_refl] obtain s where
    s: "(file_step cal w)\<^sup>*\<^sup>* file_start s" "idle (replicate file_chan_size log) s" by blast
  from file_reads_line [OF h nl s(2)] obtain s' where s': "(file_step cal w)\<^sup>*\<^sup>* s s'" "fl_pc s' = FSend log"
    "idle (replicate file_chan_size log) (s'\<lparr>fl_pc := FCheck\<rparr>)" by blast
  let ?t = "s'\<lparr>fl_stop := True\<rparr>"
  have "file_step cal w s' ?t" using file_stop [of s'] s' by (simp add: file_step_def idle_def)
  then have reach: "(file_step cal w)\<^sup>*\<^sup>* file_start ?t" using s(1) s'(1) by (meson rtranclp.rtrancl_into_rtrancl rtranclp_trans)
  have "\<not> fl_done ?t" using file_inv_reachable [OF reach] s' by (simp add: file_inv_def)
  moreover have "\<nexists>u. file_loop_step cal w ?t u"
    using file_loop_stuck [OF file_inv_reachable [OF reach]] s' by (simp add: idle_def)
  moreover have "fl_stop ?t" by simp
  ultimately show ?thesis using reach by blast
qed

definition file_tomb :: "fileLoop \<Rightarrow> Tomb" where
  "file_tomb s = \<lparr>tomb_stop = fl_stop s, tomb_done = fl_done s\<rparr>"

interpretation file_watcher: tomb_loop "file_inv cal w" "file_loop_step cal w" file_env_step file_tomb fl_sent
  for cal :: "'e calendar" and w
proof unfold_locales
  fix s s' assume step: "file_loop_step cal w s s'"
  show "tomb_stop (file_tomb s') = tomb_stop (file_tomb s)" "\<exists>more. fl_sent s' = fl_sent s @ more"
    using step by (auto simp: file_tomb_def elim: file_loop_stepE)
  show "\<not> tomb_done (file_tomb s)" if "file_inv cal w s"
    using step that by (auto simp: file_tomb_def file_inv_def elim: file_loop_stepE)
next
  fix s s' assume step: "file_env_step s s'"
  show "tomb_done (file_tomb s') = tomb_done (file_tomb s)" "fl_sent s' = fl_sent s"
    "tomb_stop (file_tomb s) \<Longrightarrow> tomb_stop (file_tomb s')"
    using step by (induction rule: file_env_step.induct) (simp_all add: file_tomb_def)
qed (auto intro: file_inv_loop file_inv_env)

subsection \<open>Properties\<close>

text \<open>
  C10. Whatever the pieces in which lines are written and read, the watcher handles exactly the
  complete lines of the file, once each and in order, and what it has sent, with the log it is about
  to send, is the logs of the lines that are not skipped, can be translated and are not older than
  the start time. The channel holds the last of the logs sent.
\<close>

theorem filelog_sends_lines:
  assumes "(file_step cal w)\<^sup>*\<^sup>* file_start s"
  shows "complete_lines (fl_written s) = map snd (fl_handled s) @ complete_lines (fl_buffer s @ fl_input s) \<and>
    fl_sent s @ pending (fl_pc s) = logs_of cal w (fl_handled s) \<and>
    (\<exists>taken. taken @ fl_logCh s = fl_sent s)"
  using complete_lines_handled file_inv_reachable [OF assms] unfolding file_inv_def by blast

text \<open>
  Once the watcher is told to stop, each step of its loop brings it nearer to its return, of
  which it is at most three steps away, and it is held up only by a send to a full channel.
\<close>

theorem filelog_stop_progress:
  assumes "(file_step cal w)\<^sup>*\<^sup>* file_start s" "fl_stop s"
  shows "steps_left (fl_pc s) \<le> 3 \<and>
    (\<forall>s'. file_loop_step cal w s s' \<longrightarrow> fl_stop s' \<and> steps_left (fl_pc s') < steps_left (fl_pc s)) \<and>
    ((\<nexists>s'. file_loop_step cal w s s') \<longleftrightarrow>
       fl_done s \<or> (\<exists>log. fl_pc s = FSend log \<and> length (fl_logCh s) = file_chan_size))"
proof (intro conjI allI impI)
  show "steps_left (fl_pc s) \<le> 3" by (simp add: steps_left_def split: file_pc.split)
qed (use assms steps_left_decreases file_loop_stuck [OF file_inv_reachable] in blast)+

subsection \<open>Witnesses\<close>

definition example_calendar :: "unit calendar" where
  "example_calendar = \<lparr>cal_ParseInLocation = \<lambda>format str. if str = ''Jan'' then Ok (- 9) else Ok 9,
     cal_Year = \<lambda>t. if t < 0 then 0 else 1970, cal_AddYears = \<lambda>n t. t + n\<rparr>"

definition example_watcher :: filelogWatcher where
  "example_watcher = \<lparr>flw_cfg = \<lparr>wc_Plugin = ''filelog'', wc_PluginConfig = Map.empty, wc_SkipList = [''skip''],
     wc_LogPath = ''/log'', wc_Lookback = [], wc_Delay = []\<rparr>,
     flw_translator = \<lparr>tr_timestampRegexp = \<lambda>line. [line, take 3 line], tr_messageRegexp = \<lambda>line. [drop 3 line],
       tr_timestampFormat = ''Jan''\<rparr>, flw_startTime = 100\<rparr>"

lemma example_line: "handle_line example_calendar example_watcher 50 (''Jan panic'' @ [nl]) =
    Some \<lparr>log_Timestamp = 1961, log_Message = '' panic''\<rparr>" "nl \<notin> set ''Jan panic''"
  by code_simp+

theorem filelog_sends_lines_witness:
  "\<exists>s. (file_step example_calendar example_watcher)\<^sup>*\<^sup>* file_start s \<and>
     fl_logCh s = [\<lparr>log_Timestamp = 1961, log_Message = '' panic''\<rparr>] \<and>
     complete_lines (fl_written s) = map snd (fl_handled s) \<and>
     fl_sent s = logs_of example_calendar example_watcher (fl_handled s)"
proof -
  have "Suc 0 \<le> file_chan_size" by (simp add: file_chan_size_def)
  from file_fill [OF example_line this] obtain s where
    s: "(file_step example_calendar example_watcher)\<^sup>*\<^sup>* file_start s"
    "idle (replicate (Suc 0) \<lparr>log_Timestamp = 1961, log_Message = '' panic''\<rparr>) s" by blast
  with filelog_sends_lines [OF s(1)] show ?thesis
    by (intro exI [of _ s]) (simp add: idle_def pending_def complete_lines_def)
qed

theorem filelog_stop_progress_witness:
  "\<exists>s. (file_step example_calendar example_watcher)\<^sup>*\<^sup>* file_start s \<and> fl_stop s \<and> \<not> fl_done s \<and>
     length (fl_logCh s) = file_chan_size \<and> steps_left (fl_pc s) \<le> 3"
proof -
  from filelog_stop_blocked [OF example_line] obtain s where
    s: "(file_step example_calendar example_watcher)\<^sup>*\<^sup>* file_start s" "fl_stop s" "\<not> fl_done s"
    "\<nexists>s'. file_loop_step example_calendar example_watcher s s'" by blast
  with filelog_stop_progress [OF s(1,2)] show ?thesis by blast
qed

end
