(* ===== verification/Kmsg_Watcher.thy ===== *)
theory Kmsg_Watcher
  imports Log_Watcher
begin

text \<open>
  The watcher of the kernel log (\<^verbatim>\<open>pkg/systemlogmonitor/logwatchers/kmsg\<close>, on Linux): it sends the
  messages of a parser of \<^verbatim>\<open>/dev/kmsg\<close> and replaces the parser when its channel is closed, no more
  often than every five seconds. The parser library is not part of the model: creating a parser and
  seeking it may fail or succeed at any attempt, a parser may send and close its channel at any
  time, and a failing \<^verbatim>\<open>Close\<close> is only logged.
\<close>

definition retryDelay :: duration where "retryDelay = 5 * Second"

definition kmsg_chan_size :: nat where "kmsg_chan_size = 100"

record kernelLogWatcher =
  klw_cfg :: WatcherConfig
  klw_startTime :: gotime

definition NewKmsgWatcher :: "'e + int64 \<Rightarrow> gotime \<Rightarrow> WatcherConfig \<Rightarrow> 'e watcher_fatal + kernelLogWatcher" where
  "NewKmsgWatcher sysinfo now cfg =
     map_sum (\<lambda>e. e) (\<lambda>startTime. \<lparr>klw_cfg = cfg, klw_startTime = startTime\<rparr>) (watcher_startTime sysinfo now cfg)"

text \<open>What the watcher reads of a message.\<close>

record kmsg =
  km_Timestamp :: gotime
  km_Message :: string

definition handle_kmsg :: "kernelLogWatcher \<Rightarrow> kmsg \<Rightarrow> Log option" where
  "handle_kmsg k msg =
     (if km_Message msg = [] then None
      else if km_Timestamp msg < klw_startTime k then None
      else Some \<lparr>log_Timestamp = km_Timestamp msg, log_Message = strings_TrimSpace (km_Message msg)\<rparr>)"

text \<open>
  \<^verbatim>\<open>watchLoop\<close> waits for a message (\<open>KSelect\<close>) or sends a log (\<open>KSend\<close>); in \<^verbatim>\<open>retryCreateParser\<close> it is
  about to look at the last restart (\<open>KRestart\<close>), waits for a timer (\<open>KWait\<close>) or creates a parser
  (\<open>KCreate\<close>). Parsers are numbered as they are created, from 0, which \<^verbatim>\<open>Watch\<close> created. \<open>kl_parser\<close>
  is the field \<^verbatim>\<open>kmsgParser\<close>, \<open>kl_kmsgs\<close> what the channel of that parser holds. The last
  five fields record how many parsers were created, the parsers closed, the instants at which the
  loop tried to create one, the messages received and the logs sent.
\<close>

datatype kmsg_pc = KSelect | KSend Log | KRestart | KWait gotime | KCreate | KReturned

record kmsgLoop =
  kl_pc :: kmsg_pc
  kl_parser :: "nat option"
  kl_lastRestart :: gotime
  kl_kmsgs :: "kmsg list"
  kl_kmsgsClosed :: bool
  kl_now :: gotime
  kl_logCh :: "Log list"
  kl_closed :: bool
  kl_stop :: bool
  kl_done :: bool
  kl_created :: nat
  kl_closedParsers :: "nat list"
  kl_attempts :: "gotime list"
  kl_received :: "kmsg list"
  kl_sent :: "Log list"

text \<open>\<^verbatim>\<open>Watch\<close>, where \<open>created\<close> says whether the parser could be created.\<close>

definition kmsg_start :: "gotime \<Rightarrow> kmsgLoop" where
  "kmsg_start now = \<lparr>kl_pc = KSelect, kl_parser = Some 0, kl_lastRestart = zero_time, kl_kmsgs = [], kl_kmsgsClosed = False,
     kl_now = now, kl_logCh = [], kl_closed = False, kl_stop = False, kl_done = False, kl_created = 1,
     kl_closedParsers = [], kl_attempts = [], kl_received = [], kl_sent = []\<rparr>"

definition kernelLogWatcher_Watch :: "'e option \<Rightarrow> gotime \<Rightarrow> 'e + kmsgLoop" where
  "kernelLogWatcher_Watch newParser now = (case newParser of Some err \<Rightarrow> Err err | None \<Rightarrow> Ok (kmsg_start now))"

text \<open>Closing the current parser, if there is one, and the deferred function of the loop.\<close>

definition close_parser :: "kmsgLoop \<Rightarrow> kmsgLoop" where
  "close_parser s = (case kl_parser s of None \<Rightarrow> s | Some p \<Rightarrow> s\<lparr>kl_closedParsers := kl_closedParsers s @ [p]\<rparr>)"

definition kmsg_return :: "kmsgLoop \<Rightarrow> kmsgLoop" where
  "kmsg_return s = (close_parser s)\<lparr>kl_pc := KReturned, kl_closed := True, kl_done := True\<rparr>"

inductive kmsg_loop_step :: "kernelLogWatcher \<Rightarrow> kmsgLoop \<Rightarrow> kmsgLoop \<Rightarrow> bool" for w where
  kmsg_stopping: "kl_pc s = KSelect \<Longrightarrow> kl_stop s \<Longrightarrow> kmsg_loop_step w s (kmsg_return s)"
| kmsg_receive: "kl_pc s = KSelect \<Longrightarrow> kl_kmsgs s = msg # rest \<Longrightarrow>
     kmsg_loop_step w s
       (s\<lparr>kl_kmsgs := rest, kl_received := kl_received s @ [msg],
          kl_pc := (case handle_kmsg w msg of None \<Rightarrow> KSelect | Some log \<Rightarrow> KSend log)\<rparr>)"
| kmsg_send: "kl_pc s = KSend log \<Longrightarrow> length (kl_logCh s) < kmsg_chan_size \<Longrightarrow>
     kmsg_loop_step w s (s\<lparr>kl_logCh := kl_logCh s @ [log], kl_sent := kl_sent s @ [log], kl_pc := KSelect\<rparr>)"
| kmsg_send_stopping: "kl_pc s = KSend log \<Longrightarrow> kl_stop s \<Longrightarrow> kmsg_loop_step w s (kmsg_return s)"
| kmsg_chan_closed: "kl_pc s = KSelect \<Longrightarrow> kl_kmsgs s = [] \<Longrightarrow> kl_kmsgsClosed s \<Longrightarrow>
     kmsg_loop_step w s ((close_parser s)\<lparr>kl_parser := None, kl_pc := KRestart\<rparr>)"
| kmsg_restart: "kl_pc s = KRestart \<Longrightarrow> since = time_Sub (kl_now s) (kl_lastRestart s) \<Longrightarrow>
     kmsg_loop_step w s (s\<lparr>kl_pc := (if since < retryDelay then KWait (kl_now s + (retryDelay - since)) else KCreate)\<rparr>)"
| kmsg_wait_stopping: "kl_pc s = KWait t \<Longrightarrow> kl_stop s \<Longrightarrow> kmsg_loop_step w s (kmsg_return s)"
| kmsg_wait_over: "kl_pc s = KWait t \<Longrightarrow> t \<le> kl_now s \<Longrightarrow> kmsg_loop_step w s (s\<lparr>kl_pc := KCreate\<rparr>)"
| kmsg_create_fails: "kl_pc s = KCreate \<Longrightarrow>
     kmsg_loop_step w s (s\<lparr>kl_attempts := kl_attempts s @ [kl_now s], kl_pc := KWait (kl_now s + retryDelay)\<rparr>)"
| kmsg_seek_fails: "kl_pc s = KCreate \<Longrightarrow>
     kmsg_loop_step w s
       (s\<lparr>kl_attempts := kl_attempts s @ [kl_now s], kl_created := Suc (kl_created s),
          kl_closedParsers := kl_closedParsers s @ [kl_created s], kl_pc := KWait (kl_now s + retryDelay)\<rparr>)"
| kmsg_created: "kl_pc s = KCreate \<Longrightarrow>
     kmsg_loop_step w s
       (s\<lparr>kl_attempts := kl_attempts s @ [kl_now s], kl_created := Suc (kl_created s), kl_parser := Some (kl_created s),
          kl_lastRestart := kl_now s, kl_kmsgs := [], kl_kmsgsClosed := False, kl_pc := KSelect\<rparr>)"

inductive kmsg_env_step :: "kmsgLoop \<Rightarrow> kmsgLoop \<Rightarrow> bool" where
  kmsg_tick: "kl_now s \<le> t \<Longrightarrow> kmsg_env_step s (s\<lparr>kl_now := t\<rparr>)"
| kmsg_arrives: "\<not> kl_kmsgsClosed s \<Longrightarrow> kmsg_env_step s (s\<lparr>kl_kmsgs := kl_kmsgs s @ [msg]\<rparr>)"
| kmsg_parser_ends: "kmsg_env_step s (s\<lparr>kl_kmsgsClosed := True\<rparr>)"
| kmsg_take: "kl_logCh s = log # rest \<Longrightarrow> kmsg_env_step s (s\<lparr>kl_logCh := rest\<rparr>)"
| kmsg_stop: "\<not> kl_stop s \<Longrightarrow> kmsg_env_step s (s\<lparr>kl_stop := True\<rparr>)"

definition kmsg_step :: "kernelLogWatcher \<Rightarrow> kmsgLoop \<Rightarrow> kmsgLoop \<Rightarrow> bool" where
  "kmsg_step w s s' \<longleftrightarrow> kmsg_loop_step w s s' \<or> kmsg_env_step s s'"

inductive_cases kmsg_loop_stepE: "kmsg_loop_step w s s'"

lemma kmsg_env_frame: "kmsg_env_step s s' \<Longrightarrow>
    kl_pc s' = kl_pc s \<and> kl_parser s' = kl_parser s \<and> kl_lastRestart s' = kl_lastRestart s \<and> kl_closed s' = kl_closed s \<and>
    kl_done s' = kl_done s \<and> kl_created s' = kl_created s \<and> kl_closedParsers s' = kl_closedParsers s \<and>
    kl_attempts s' = kl_attempts s \<and> kl_received s' = kl_received s \<and> kl_sent s' = kl_sent s \<and>
    (kl_stop s \<longrightarrow> kl_stop s') \<and> kl_now s \<le> kl_now s'"
  by (induction rule: kmsg_env_step.induct) simp_all

lemma kmsg_return_fields [simp]:
  "kl_pc (kmsg_return s) = KReturned" "kl_closed (kmsg_return s)" "kl_done (kmsg_return s)" "kl_stop (kmsg_return s) = kl_stop s"
  "kl_attempts (kmsg_return s) = kl_attempts s" "kl_received (kmsg_return s) = kl_received s" "kl_sent (kmsg_return s) = kl_sent s"
  "kl_logCh (kmsg_return s) = kl_logCh s" "kl_now (kmsg_return s) = kl_now s" "kl_lastRestart (kmsg_return s) = kl_lastRestart s"
  by (simp_all add: kmsg_return_def close_parser_def split: option.split)

lemma close_parser_fields [simp]:
  "kl_stop (close_parser s) = kl_stop s" "kl_done (close_parser s) = kl_done s" "kl_closed (close_parser s) = kl_closed s"
  "kl_attempts (close_parser s) = kl_attempts s" "kl_received (close_parser s) = kl_received s" "kl_sent (close_parser s) = kl_sent s"
  "kl_logCh (close_parser s) = kl_logCh s" "kl_now (close_parser s) = kl_now s" "kl_lastRestart (close_parser s) = kl_lastRestart s"
  by (simp_all add: close_parser_def split: option.split)

subsection \<open>Parsers\<close>

text \<open>
  Every parser created is the current one or has been closed, once. There is no current parser
  exactly while one is to be created; when the loop has returned all are closed.
\<close>

definition open_parser :: "kmsgLoop \<Rightarrow> nat list" where
  "open_parser s = (if kl_pc s = KReturned then [] else case kl_parser s of None \<Rightarrow> [] | Some p \<Rightarrow> [p])"

definition parsers_inv :: "kmsgLoop \<Rightarrow> bool" where
  "parsers_inv s \<longleftrightarrow>
     distinct (kl_closedParsers s @ open_parser s) \<and>
     set (kl_closedParsers s @ open_parser s) = {..<kl_created s} \<and>
     (kl_pc s \<in> {KSelect} \<union> range KSend \<longrightarrow> kl_parser s \<noteq> None) \<and>
     (kl_pc s \<in> {KRestart, KCreate} \<union> range KWait \<longrightarrow> kl_parser s = None)"

lemma parsers_inv_start: "parsers_inv (kmsg_start now)"
  by (auto simp: parsers_inv_def kmsg_start_def open_parser_def)

lemma parsers_inv_return: "parsers_inv s \<Longrightarrow> kl_pc s \<noteq> KReturned \<Longrightarrow> parsers_inv (kmsg_return s)"
  by (cases "kl_parser s") (simp_all add: parsers_inv_def kmsg_return_def close_parser_def open_parser_def image_iff)

lemma parsers_inv_loop: "kmsg_loop_step w s s' \<Longrightarrow> parsers_inv s \<Longrightarrow> parsers_inv s'"
proof (induction rule: kmsg_loop_step.induct)
  case (kmsg_receive s msg rest)
  then show ?case
    by (cases "handle_kmsg w msg") (simp_all add: parsers_inv_def open_parser_def image_iff)
next
  case (kmsg_chan_closed s)
  then show ?case
    by (cases "kl_parser s") (simp_all add: parsers_inv_def open_parser_def close_parser_def image_iff)
next
  case (kmsg_seek_fails s)
  then show ?case
    by (cases "kl_parser s") (simp_all add: parsers_inv_def open_parser_def image_iff lessThan_Suc)
next
  case (kmsg_created s)
  then show ?case
    by (cases "kl_parser s") (simp_all add: parsers_inv_def open_parser_def image_iff lessThan_Suc)
qed (simp_all add: parsers_inv_return, auto simp: parsers_inv_def open_parser_def image_iff)

lemma parsers_inv_env: "kmsg_env_step s s' \<Longrightarrow> parsers_inv s \<Longrightarrow> parsers_inv s'"
proof -
  assume step: "kmsg_env_step s s'" and inv: "parsers_inv s"
  from step have "open_parser s' = open_parser s" by (simp add: open_parser_def kmsg_env_frame)
  with kmsg_env_frame [OF step] inv show "parsers_inv s'" by (simp add: parsers_inv_def)
qed

subsection \<open>The rate of restarts\<close>

text \<open>
  The loop is past the last attempt by the delay before it makes another, and a successful attempt
  is the last restart.
\<close>

definition next_after :: "gotime \<Rightarrow> gotime list \<Rightarrow> bool" where
  "next_after t as \<longleftrightarrow> as = [] \<or> last as + retryDelay \<le> t"

definition rate_inv :: "kmsgLoop \<Rightarrow> bool" where
  "rate_inv s \<longleftrightarrow>
     sorted_wrt (\<lambda>a b. a + retryDelay \<le> b) (kl_attempts s) \<and> (\<forall>a \<in> set (kl_attempts s). a \<le> kl_now s) \<and>
     (case kl_pc s of
        KWait t \<Rightarrow> next_after t (kl_attempts s)
      | KCreate \<Rightarrow> next_after (kl_now s) (kl_attempts s)
      | KReturned \<Rightarrow> True
      | _ \<Rightarrow> kl_attempts s = [] \<or> last (kl_attempts s) = kl_lastRestart s)"

lemma retryDelay_pos: "0 < retryDelay"
  by (simp add: retryDelay_def)

lemma next_after_le: "next_after t as \<Longrightarrow> t \<le> u \<Longrightarrow> next_after u as"
  by (auto simp: next_after_def)

lemma sorted_wrt_attempt:
  "sorted_wrt (\<lambda>a b. a + retryDelay \<le> b) as \<Longrightarrow> next_after t as \<Longrightarrow> sorted_wrt (\<lambda>a b. a + retryDelay \<le> b) (as @ [t])"
proof (induction as)
  case (Cons a as)
  then show ?case
    using retryDelay_pos by (cases as) (auto simp: next_after_def split: if_splits dest: bspec [OF _ last_in_set])
qed simp

lemma restart_wait:
  assumes "last as = r" "\<forall>a \<in> set as. a \<le> now" "time_Sub now r < retryDelay"
  shows "next_after (now + (retryDelay - time_Sub now r)) as"
proof (cases "as = []")
  case False
  with assms have "r \<le> now" by auto
  with assms(3) have "time_Sub now r = now - r" by (auto simp: time_Sub_def retryDelay_def)
  with assms(1) show ?thesis by (simp add: next_after_def)
qed (simp add: next_after_def)

lemma restart_at_once:
  assumes "last as = r" "\<forall>a \<in> set as. a \<le> now" "\<not> time_Sub now r < retryDelay"
  shows "next_after now as"
proof (cases "as = []")
  case False
  with assms(3) have "r + retryDelay \<le> now" by (auto simp: time_Sub_def retryDelay_def)
  with assms(1) show ?thesis by (simp add: next_after_def)
qed (simp add: next_after_def)

lemma rate_inv_start: "rate_inv (kmsg_start now)"
  by (simp add: rate_inv_def kmsg_start_def)

lemma rate_inv_return: "rate_inv s \<Longrightarrow> rate_inv (kmsg_return s)"
  by (simp add: rate_inv_def)

lemma rate_inv_loop: "kmsg_loop_step w s s' \<Longrightarrow> rate_inv s \<Longrightarrow> rate_inv s'"
proof (induction rule: kmsg_loop_step.induct)
  case (kmsg_receive s msg rest)
  then show ?case by (cases "handle_kmsg w msg") (simp_all add: rate_inv_def)
next
  case (kmsg_restart s since)
  then show ?case
    using restart_wait [of "kl_attempts s" "kl_lastRestart s" "kl_now s"]
      restart_at_once [of "kl_attempts s" "kl_lastRestart s" "kl_now s"]
    by (cases "kl_attempts s = []") (simp_all add: rate_inv_def next_after_def)
next
  case (kmsg_wait_over s t)
  then show ?case by (auto simp: rate_inv_def intro: next_after_le)
qed (simp_all add: rate_inv_return, auto simp: rate_inv_def sorted_wrt_attempt next_after_def)

lemma rate_inv_env: "kmsg_env_step s s' \<Longrightarrow> rate_inv s \<Longrightarrow> rate_inv s'"
  using kmsg_env_frame [of s s']
  by (auto simp: rate_inv_def split: kmsg_pc.splits intro: order_trans next_after_le)

subsection \<open>What is sent\<close>

text \<open>
  The logs sent are those of the messages received, in order; the log about to be sent is the last,
  and it is lost only when the loop is stopped before it is sent.
\<close>

definition unsent :: "kmsg_pc \<Rightarrow> Log list" where
  "unsent pc = (case pc of KSend log \<Rightarrow> [log] | _ \<Rightarrow> [])"

definition kmsg_logs :: "kernelLogWatcher \<Rightarrow> kmsg list \<Rightarrow> Log list" where
  "kmsg_logs w = List.map_filter (handle_kmsg w)"

definition sent_inv :: "kernelLogWatcher \<Rightarrow> kmsgLoop \<Rightarrow> bool" where
  "sent_inv w s \<longleftrightarrow>
     (if kl_pc s = KReturned
      then kl_sent s = kmsg_logs w (kl_received s) \<or> (\<exists>log. kl_sent s @ [log] = kmsg_logs w (kl_received s))
      else kl_sent s @ unsent (kl_pc s) = kmsg_logs w (kl_received s)) \<and>
     kl_closed s = (kl_pc s = KReturned) \<and> kl_done s = kl_closed s \<and> (kl_done s \<longrightarrow> kl_stop s)"

lemma kmsg_logs_snoc: "kmsg_logs w (ms @ [m]) = kmsg_logs w ms @ (case handle_kmsg w m of None \<Rightarrow> [] | Some log \<Rightarrow> [log])"
  by (simp add: kmsg_logs_def map_filter_def split: option.split)

lemma sent_inv_start: "sent_inv w (kmsg_start now)"
  by (simp add: sent_inv_def kmsg_start_def unsent_def kmsg_logs_def map_filter_def)

lemma sent_inv_return: "sent_inv w s \<Longrightarrow> kl_pc s \<noteq> KReturned \<Longrightarrow> kl_stop s \<Longrightarrow> sent_inv w (kmsg_return s)"
  by (cases "kl_pc s") (auto simp: sent_inv_def unsent_def)

lemma sent_inv_loop: "kmsg_loop_step w s s' \<Longrightarrow> sent_inv w s \<Longrightarrow> sent_inv w s'"
proof (induction rule: kmsg_loop_step.induct)
  case (kmsg_receive s msg rest)
  then show ?case by (cases "handle_kmsg w msg") (simp_all add: sent_inv_def unsent_def kmsg_logs_snoc)
qed (simp_all add: sent_inv_return, simp_all add: sent_inv_def unsent_def)

lemma sent_inv_env: "kmsg_env_step s s' \<Longrightarrow> sent_inv w s \<Longrightarrow> sent_inv w s'"
  using kmsg_env_frame [of s s'] by (simp add: sent_inv_def)

subsection \<open>The contract\<close>

definition kmsg_inv :: "kernelLogWatcher \<Rightarrow> kmsgLoop \<Rightarrow> bool" where
  "kmsg_inv w s \<longleftrightarrow> parsers_inv s \<and> rate_inv s \<and> sent_inv w s"

definition kmsg_tomb :: "kmsgLoop \<Rightarrow> Tomb" where
  "kmsg_tomb s = \<lparr>tomb_stop = kl_stop s, tomb_done = kl_done s\<rparr>"

interpretation kmsg_watcher: tomb_loop "kmsg_inv w" "kmsg_loop_step w" kmsg_env_step kmsg_tomb kl_sent for w
proof unfold_locales
  fix s s' assume step: "kmsg_loop_step w s s'"
  show "tomb_stop (kmsg_tomb s') = tomb_stop (kmsg_tomb s)" "\<exists>more. kl_sent s' = kl_sent s @ more"
    using step by (auto simp: kmsg_tomb_def elim: kmsg_loop_stepE)
  show "\<not> tomb_done (kmsg_tomb s)" if "kmsg_inv w s"
    using step that by (auto simp: kmsg_tomb_def kmsg_inv_def sent_inv_def elim: kmsg_loop_stepE)
  show "kmsg_inv w s'" if "kmsg_inv w s"
    using step that parsers_inv_loop rate_inv_loop sent_inv_loop unfolding kmsg_inv_def by blast
next
  fix s s' assume step: "kmsg_env_step s s'"
  note frame = kmsg_env_frame [OF step]
  from frame show "tomb_done (kmsg_tomb s') = tomb_done (kmsg_tomb s)" "kl_sent s' = kl_sent s"
    "tomb_stop (kmsg_tomb s) \<Longrightarrow> tomb_stop (kmsg_tomb s')"
    by (simp_all add: kmsg_tomb_def)
  show "kmsg_inv w s'" if "kmsg_inv w s"
    using step that parsers_inv_env rate_inv_env sent_inv_env unfolding kmsg_inv_def by blast
qed

lemma kmsg_inv_reachable: "(kmsg_step w)\<^sup>*\<^sup>* (kmsg_start now) s \<Longrightarrow> kmsg_inv w s"
  using kmsg_watcher.reach_inv [of w "kmsg_start now" s] parsers_inv_start rate_inv_start sent_inv_start
  by (simp add: kmsg_inv_def kmsg_step_def [abs_def])

subsection \<open>Stopping\<close>

definition can_return :: "kernelLogWatcher \<Rightarrow> nat \<Rightarrow> kmsgLoop \<Rightarrow> bool" where
  "can_return w n s \<longleftrightarrow>
     (\<exists>k s'. k \<le> n \<and> (kmsg_loop_step w ^^ k) s s' \<and> kl_done s' \<and> kl_closed s' \<and> kl_logCh s' = kl_logCh s)"

lemma can_return_done: "kl_done s \<Longrightarrow> kl_closed s \<Longrightarrow> can_return w n s"
  unfolding can_return_def by (rule exI [of _ 0]) simp

lemma can_return_step:
  "kmsg_loop_step w s t \<Longrightarrow> kl_logCh t = kl_logCh s \<Longrightarrow> can_return w n t \<Longrightarrow> can_return w (Suc n) s"
  unfolding can_return_def by (metis Suc_le_mono relpowp_Suc_I2)

lemma can_return_mono: "can_return w n s \<Longrightarrow> n \<le> m \<Longrightarrow> can_return w m s"
  unfolding can_return_def by (meson order_trans)

lemma can_return_at_once: "kmsg_loop_step w s (kmsg_return s) \<Longrightarrow> can_return w 1 s"
  unfolding One_nat_def by (erule can_return_step) (simp_all add: can_return_done)

lemma can_return_create:
  assumes "kl_pc s = KCreate" "kl_stop s"
  shows "can_return w 2 s"
proof -
  let ?t = "s\<lparr>kl_attempts := kl_attempts s @ [kl_now s], kl_pc := KWait (kl_now s + retryDelay)\<rparr>"
  have "can_return w 1 ?t" by (rule can_return_at_once, rule kmsg_wait_stopping) (use assms in simp_all)
  from can_return_step [OF kmsg_create_fails [OF assms(1)] _ this] show ?thesis by (simp add: numeral_2_eq_2)
qed

lemma can_return_restart:
  assumes "kl_pc s = KRestart" "kl_stop s"
  shows "can_return w 3 s"
proof -
  let ?since = "time_Sub (kl_now s) (kl_lastRestart s)"
  let ?t = "s\<lparr>kl_pc := (if ?since < retryDelay then KWait (kl_now s + (retryDelay - ?since)) else KCreate)\<rparr>"
  have "can_return w 2 ?t"
  proof (cases "?since < retryDelay")
    case True
    have "can_return w 1 ?t" by (rule can_return_at_once, rule kmsg_wait_stopping) (use assms True in simp_all)
    then show ?thesis by (rule can_return_mono) simp
  next
    case False
    with assms show ?thesis by (intro can_return_create) simp_all
  qed
  from can_return_step [OF kmsg_restart [OF assms(1) refl] _ this] show ?thesis by (simp add: numeral_3_eq_3)
qed

lemma stopping_can_return:
  assumes "kmsg_inv w s" "kl_stop s"
  shows "can_return w 3 s"
proof -
  have once: "kmsg_loop_step w s (kmsg_return s) \<Longrightarrow> can_return w 3 s"
    by (rule can_return_mono [OF can_return_at_once]) simp_all
  show ?thesis
  proof (cases "kl_pc s")
    case KReturned
    with assms show ?thesis by (intro can_return_done) (simp_all add: kmsg_inv_def sent_inv_def)
  next
    case KCreate
    from can_return_create [OF this assms(2)] show ?thesis by (rule can_return_mono) simp
  qed (use assms(2) can_return_restart in \<open>auto intro: once kmsg_stopping kmsg_send_stopping kmsg_wait_stopping\<close>)
qed

subsection \<open>Properties\<close>

text \<open>
  C11: every parser the kernel log watcher has created is its current parser or has been closed,
  exactly once, however often the parser has been replaced and whatever failed; when the loop has
  returned, all of them are closed.
\<close>

theorem kmsg_parsers_closed_once:
  assumes "(kmsg_step w)\<^sup>*\<^sup>* (kmsg_start now) s"
  shows "distinct (kl_closedParsers s) \<and>
    (if kl_pc s = KReturned then set (kl_closedParsers s) = {..<kl_created s}
     else case kl_parser s of
       None \<Rightarrow> set (kl_closedParsers s) = {..<kl_created s}
     | Some p \<Rightarrow> p < kl_created s \<and> set (kl_closedParsers s) = {..<kl_created s} - {p})"
proof -
  from kmsg_inv_reachable [OF assms] have inv: "parsers_inv s" by (simp add: kmsg_inv_def)
  then have sets: "set (kl_closedParsers s) \<union> set (open_parser s) = {..<kl_created s}"
    and dist: "distinct (kl_closedParsers s)" "set (kl_closedParsers s) \<inter> set (open_parser s) = {}"
    by (simp_all add: parsers_inv_def)
  show ?thesis
  proof (cases "kl_pc s = KReturned \<or> kl_parser s = None")
    case True
    then have "open_parser s = []" by (auto simp: open_parser_def)
    with sets have "set (kl_closedParsers s) = {..<kl_created s}" by simp
    with dist(1) True show ?thesis by (cases "kl_pc s = KReturned") simp_all
  next
    case False
    then obtain p where p: "kl_parser s = Some p" by auto
    with False have op: "set (open_parser s) = {p}" by (simp add: open_parser_def)
    have "set (kl_closedParsers s) = {..<kl_created s} - {p}" using sets dist unfolding op by blast
    moreover have "p \<in> {..<kl_created s}" using sets unfolding op by blast
    ultimately show ?thesis using dist p False by simp
  qed
qed

text \<open>
  C23: the attempts to replace the parser are at least the retry delay apart, whether they fail or
  the new parser ends at once.
\<close>

theorem kmsg_restart_rate:
  assumes "(kmsg_step w)\<^sup>*\<^sup>* (kmsg_start now) s" "i < j" "j < length (kl_attempts s)"
  shows "kl_attempts s ! i + 5 * Second \<le> kl_attempts s ! j"
  using kmsg_inv_reachable [OF assms(1)] assms(2,3)
  by (simp add: kmsg_inv_def rate_inv_def sorted_wrt_iff_nth_less retryDelay_def)

text \<open>
  From the moment it is told to stop the watcher can return within three steps of its own,
  whatever state it is in and without anyone taking a log from its channel.
\<close>

theorem kmsg_stop_returns:
  assumes "(kmsg_step w)\<^sup>*\<^sup>* (kmsg_start now) s" "kl_stop s"
  shows "\<exists>n s'. n \<le> 3 \<and> (kmsg_loop_step w ^^ n) s s' \<and> kl_done s' \<and> kl_closed s' \<and> kl_logCh s' = kl_logCh s"
  using stopping_can_return [OF kmsg_inv_reachable [OF assms(1)] assms(2)] by (simp add: can_return_def)

subsection \<open>Witnesses\<close>

text \<open>
  A run: the first parser ends, the second cannot be seeked and is closed, the third, five seconds
  later, is the current one when the watcher is told to stop.
\<close>

definition restarted :: kmsgLoop where
  "restarted = (kmsg_start 0)\<lparr>kl_parser := Some 2, kl_lastRestart := 5 * Second, kl_now := 5 * Second, kl_stop := True,
     kl_created := 3, kl_closedParsers := [0, 1], kl_attempts := [0, 5 * Second]\<rparr>"

lemma restarted_reachable: "(kmsg_step w)\<^sup>*\<^sup>* (kmsg_start 0) restarted"
proof -
  let ?a = "(kmsg_start 0)\<lparr>kl_kmsgsClosed := True\<rparr>"
  let ?b = "?a\<lparr>kl_closedParsers := [0], kl_parser := None, kl_pc := KRestart\<rparr>"
  let ?c = "?b\<lparr>kl_pc := KCreate\<rparr>"
  let ?d = "?c\<lparr>kl_attempts := [0], kl_created := 2, kl_closedParsers := [0, 1], kl_pc := KWait (5 * Second)\<rparr>"
  let ?e = "?d\<lparr>kl_now := 5 * Second\<rparr>"
  let ?f = "?e\<lparr>kl_pc := KCreate\<rparr>"
  let ?g = "?f\<lparr>kl_attempts := [0, 5 * Second], kl_created := 3, kl_parser := Some 2,
      kl_lastRestart := 5 * Second, kl_kmsgs := [], kl_kmsgsClosed := False, kl_pc := KSelect\<rparr>"
  have "kmsg_step w (kmsg_start 0) ?a" using kmsg_parser_ends [of "kmsg_start 0"] by (simp add: kmsg_step_def)
  moreover have "kmsg_step w ?a ?b"
    using kmsg_chan_closed [of ?a w] by (simp add: kmsg_step_def kmsg_start_def close_parser_def)
  moreover have "kmsg_step w ?b ?c"
    using kmsg_restart [of ?b _ w] by (simp add: kmsg_step_def kmsg_start_def time_Sub_def zero_time_def retryDelay_def)
  moreover have "kmsg_step w ?c ?d"
    using kmsg_seek_fails [of ?c w] by (simp add: kmsg_step_def kmsg_start_def retryDelay_def eval_nat_numeral)
  moreover have "kmsg_step w ?d ?e"
    using kmsg_tick [of ?d "5 * Second"] by (simp add: kmsg_step_def kmsg_start_def)
  moreover have "kmsg_step w ?e ?f"
    using kmsg_wait_over [of ?e "5 * Second" w] by (simp add: kmsg_step_def)
  moreover have "kmsg_step w ?f ?g"
    using kmsg_created [of ?f w] by (simp add: kmsg_step_def kmsg_start_def eval_nat_numeral)
  moreover have "kmsg_step w ?g restarted"
    using kmsg_stop [of ?g] by (simp add: kmsg_step_def kmsg_start_def restarted_def)
  ultimately show ?thesis by (meson rtranclp.intros)
qed

theorem kmsg_parsers_closed_once_witness:
  "kl_parser restarted = Some 2 \<and> distinct (kl_closedParsers restarted) \<and>
   set (kl_closedParsers restarted) = {..<kl_created restarted} - {2}"
  using kmsg_parsers_closed_once [OF restarted_reachable] by (simp add: restarted_def kmsg_start_def)

theorem kmsg_restart_rate_witness:
  "kl_attempts restarted = [0, 5 * Second] \<and> kl_attempts restarted ! 0 + 5 * Second \<le> kl_attempts restarted ! 1"
proof -
  have "(0::nat) < 1" "1 < length (kl_attempts restarted)" by (simp_all add: restarted_def)
  from kmsg_restart_rate [OF restarted_reachable this] show ?thesis by (simp add: restarted_def)
qed

theorem kmsg_stop_returns_witness:
  "\<exists>n s'. n \<le> 3 \<and> (kmsg_loop_step \<lparr>klw_cfg = \<lparr>wc_Plugin = ''kmsg'', wc_PluginConfig = Map.empty, wc_SkipList = [],
     wc_LogPath = [], wc_Lookback = [], wc_Delay = []\<rparr>, klw_startTime = 0\<rparr> ^^ n) restarted s' \<and> kl_done s'"
proof -
  have "kl_stop restarted" by (simp add: restarted_def)
  from kmsg_stop_returns [OF restarted_reachable this] show ?thesis by blast
qed

end
