(* ===== verification/Stats_Metrics.thy ===== *)
theory Stats_Metrics
  imports Metrics Go_Conv
begin

text \<open>
  What the collectors of the system stats monitor share: the identifiers of their metrics
  (\<^verbatim>\<open>pkg/util/metrics/metric.go\<close>), the names of their labels, the configuration
  (\<^verbatim>\<open>pkg/systemstatsmonitor/types\<close>), the making of a metric, and the measurements.

  A collector never looks at whether a measurement could be recorded, it only logs an error. So a
  collection is the list of the measurements it records, in order, and \<open>record_samples\<close> passes them to
  the metrics. The values of float metrics are opaque; the arithmetic on them is an argument.
\<close>

subsection \<open>Names\<close>

definition CPURunnableTaskCountID :: MetricID where "CPURunnableTaskCountID = ''cpu/runnable_task_count''"
definition CPUUsageTimeID :: MetricID where "CPUUsageTimeID = ''cpu/usage_time''"
definition CPULoad1m :: MetricID where "CPULoad1m = ''cpu/load_1m''"
definition CPULoad5m :: MetricID where "CPULoad5m = ''cpu/load_5m''"
definition CPULoad15m :: MetricID where "CPULoad15m = ''cpu/load_15m''"
definition DiskIOTimeID :: MetricID where "DiskIOTimeID = ''disk/io_time''"
definition DiskWeightedIOID :: MetricID where "DiskWeightedIOID = ''disk/weighted_io''"
definition DiskAvgQueueLenID :: MetricID where "DiskAvgQueueLenID = ''disk/avg_queue_len''"
definition DiskOpsCountID :: MetricID where "DiskOpsCountID = ''disk/operation_count''"
definition DiskMergedOpsCountID :: MetricID where "DiskMergedOpsCountID = ''disk/merged_operation_count''"
definition DiskOpsBytesID :: MetricID where "DiskOpsBytesID = ''disk/operation_bytes_count''"
definition DiskOpsTimeID :: MetricID where "DiskOpsTimeID = ''disk/operation_time''"
definition DiskBytesUsedID :: MetricID where "DiskBytesUsedID = ''disk/bytes_used''"
definition DiskPercentUsedID :: MetricID where "DiskPercentUsedID = ''disk/percent_used''"
definition HostUptimeID :: MetricID where "HostUptimeID = ''host/uptime''"
definition MemoryBytesUsedID :: MetricID where "MemoryBytesUsedID = ''memory/bytes_used''"
definition MemoryAnonymousUsedID :: MetricID where "MemoryAnonymousUsedID = ''memory/anonymous_used''"
definition MemoryPageCacheUsedID :: MetricID where "MemoryPageCacheUsedID = ''memory/page_cache_used''"
definition MemoryUnevictableUsedID :: MetricID where "MemoryUnevictableUsedID = ''memory/unevictable_used''"
definition MemoryDirtyUsedID :: MetricID where "MemoryDirtyUsedID = ''memory/dirty_used''"
definition MemoryPercentUsedID :: MetricID where "MemoryPercentUsedID = ''memory/percent_used''"
definition OSFeatureID :: MetricID where "OSFeatureID = ''system/os_feature''"
definition SystemProcessesTotal :: MetricID where "SystemProcessesTotal = ''system/processes_total''"
definition SystemProcsRunning :: MetricID where "SystemProcsRunning = ''system/procs_running''"
definition SystemProcsBlocked :: MetricID where "SystemProcsBlocked = ''system/procs_blocked''"
definition SystemInterruptsTotal :: MetricID where "SystemInterruptsTotal = ''system/interrupts_total''"
definition SystemCPUStat :: MetricID where "SystemCPUStat = ''system/cpu_stat''"
definition NetDevRxBytes :: MetricID where "NetDevRxBytes = ''net/rx_bytes''"
definition NetDevRxPackets :: MetricID where "NetDevRxPackets = ''net/rx_packets''"
definition NetDevRxErrors :: MetricID where "NetDevRxErrors = ''net/rx_errors''"
definition NetDevRxDropped :: MetricID where "NetDevRxDropped = ''net/rx_dropped''"
definition NetDevRxFifo :: MetricID where "NetDevRxFifo = ''net/rx_fifo''"
definition NetDevRxFrame :: MetricID where "NetDevRxFrame = ''net/rx_frame''"
definition NetDevRxCompressed :: MetricID where "NetDevRxCompressed = ''net/rx_compressed''"
definition NetDevRxMulticast :: MetricID where "NetDevRxMulticast = ''net/rx_multicast''"
definition NetDevTxBytes :: MetricID where "NetDevTxBytes = ''net/tx_bytes''"
definition NetDevTxPackets :: MetricID where "NetDevTxPackets = ''net/tx_packets''"
definition NetDevTxErrors :: MetricID where "NetDevTxErrors = ''net/tx_errors''"
definition NetDevTxDropped :: MetricID where "NetDevTxDropped = ''net/tx_dropped''"
definition NetDevTxFifo :: MetricID where "NetDevTxFifo = ''net/tx_fifo''"
definition NetDevTxCollisions :: MetricID where "NetDevTxCollisions = ''net/tx_collisions''"
definition NetDevTxCarrier :: MetricID where "NetDevTxCarrier = ''net/tx_carrier''"
definition NetDevTxCompressed :: MetricID where "NetDevTxCompressed = ''net/tx_compressed''"

lemmas metric_ids =
  CPURunnableTaskCountID_def CPUUsageTimeID_def CPULoad1m_def CPULoad5m_def CPULoad15m_def
  DiskIOTimeID_def DiskWeightedIOID_def DiskAvgQueueLenID_def DiskOpsCountID_def DiskMergedOpsCountID_def
  DiskOpsBytesID_def DiskOpsTimeID_def DiskBytesUsedID_def DiskPercentUsedID_def HostUptimeID_def
  MemoryBytesUsedID_def MemoryAnonymousUsedID_def MemoryPageCacheUsedID_def MemoryUnevictableUsedID_def MemoryDirtyUsedID_def
  MemoryPercentUsedID_def OSFeatureID_def SystemProcessesTotal_def SystemProcsRunning_def SystemProcsBlocked_def
  SystemInterruptsTotal_def SystemCPUStat_def NetDevRxBytes_def NetDevRxPackets_def NetDevRxErrors_def
  NetDevRxDropped_def NetDevRxFifo_def NetDevRxFrame_def NetDevRxCompressed_def NetDevRxMulticast_def
  NetDevTxBytes_def NetDevTxPackets_def NetDevTxErrors_def NetDevTxDropped_def NetDevTxFifo_def
  NetDevTxCollisions_def NetDevTxCarrier_def NetDevTxCompressed_def

definition deviceNameLabel :: string where "deviceNameLabel = ''device_name''"
definition directionLabel :: string where "directionLabel = ''direction''"
definition stateLabel :: string where "stateLabel = ''state''"
definition fsTypeLabel :: string where "fsTypeLabel = ''fs_type''"
definition mountOptionLabel :: string where "mountOptionLabel = ''mount_option''"
definition featureLabel :: string where "featureLabel = ''os_feature''"
definition valueLabel :: string where "valueLabel = ''value''"
definition interfaceNameLabel :: string where "interfaceNameLabel = ''interface_name''"
definition cpuLabel :: string where "cpuLabel = ''cpu''"
definition stageLabel :: string where "stageLabel = ''stage''"

subsection \<open>The configuration\<close>

record MetricConfig =
  mcf_DisplayName :: string

type_synonym MetricsConfigs = "string \<rightharpoonup> MetricConfig"

definition DisplayName_of :: "MetricsConfigs \<Rightarrow> MetricID \<Rightarrow> string" where
  "DisplayName_of cfgs metricID = mcf_DisplayName (map_get \<lparr>mcf_DisplayName = []\<rparr> cfgs metricID)"

record CPUStatsConfig =
  cpu_MetricsConfigs :: MetricsConfigs

record DiskStatsConfig =
  disk_MetricsConfigs :: MetricsConfigs
  disk_IncludeRootBlk :: bool
  disk_IncludeAllAttachedBlk :: bool
  disk_LsblkTimeoutString :: string
  disk_LsblkTimeout :: duration

record HostStatsConfig =
  host_MetricsConfigs :: MetricsConfigs

record MemoryStatsConfig =
  mem_MetricsConfigs :: MetricsConfigs

record OSFeatureStatsConfig =
  osf_MetricsConfigs :: MetricsConfigs
  osf_KnownModulesConfigPath :: string

text \<open>A regular expression is the predicate \<^verbatim>\<open>MatchString\<close> gives, with its text; \<open>compile\<close> is \<^verbatim>\<open>regexp.Compile\<close>.\<close>

record NetStatsInterfaceRegexp =
  nre_R :: "(string \<times> (string \<Rightarrow> bool)) option"

definition NetStatsInterfaceRegexp_UnmarshalText ::
    "(string \<Rightarrow> 'e + (string \<Rightarrow> bool)) \<Rightarrow> string \<Rightarrow> NetStatsInterfaceRegexp \<Rightarrow> 'e option \<times> NetStatsInterfaceRegexp" where
  "NetStatsInterfaceRegexp_UnmarshalText compile data r =
     (if data = [] then (None, r)
      else case compile data of
        Inl err \<Rightarrow> (Some err, r)
      | Inr regex \<Rightarrow> (None, r\<lparr>nre_R := Some (data, regex)\<rparr>))"

definition NetStatsInterfaceRegexp_MarshalText :: "NetStatsInterfaceRegexp \<Rightarrow> string" where
  "NetStatsInterfaceRegexp_MarshalText r = (case nre_R r of None \<Rightarrow> [] | Some (expr, _) \<Rightarrow> expr)"

record NetStatsConfig =
  net_MetricsConfigs :: MetricsConfigs
  net_ExcludeInterfaceRegexp :: NetStatsInterfaceRegexp

record SystemStatsConfig =
  ssc_CPUConfig :: CPUStatsConfig
  ssc_DiskConfig :: DiskStatsConfig
  ssc_HostConfig :: HostStatsConfig
  ssc_MemoryConfig :: MemoryStatsConfig
  ssc_OsFeatureConfig :: OSFeatureStatsConfig
  ssc_NetConfig :: NetStatsConfig
  ssc_InvokeIntervalString :: string
  ssc_InvokeInterval :: duration
  ssc_ProcPath :: string

definition defaultInvokeIntervalString :: string where "defaultInvokeIntervalString = time_Duration_String (60 * Second)"
definition defaultlsblkTimeoutString :: string where "defaultlsblkTimeoutString = time_Duration_String (5 * Second)"
definition defaultKnownModulesConfigPath :: string where "defaultKnownModulesConfigPath = ''guestosconfig/known-modules.json''"
definition defaultProcPath :: string where "defaultProcPath = ''/proc''"

datatype 'e ssc_error =
    BadInvokeInterval string
  | BadLsblkTimeout string
  | InvokeIntervalNotPositive duration
  | ProcPathMissing string 'e
  | LsblkTimeoutNotPositive duration
  | LsblkTimeoutTooLong duration duration

definition ssc_defaults :: "SystemStatsConfig \<Rightarrow> SystemStatsConfig" where
  "ssc_defaults ssc =
     (let ssc = (if ssc_InvokeIntervalString ssc = [] then ssc\<lparr>ssc_InvokeIntervalString := defaultInvokeIntervalString\<rparr> else ssc);
          ssc = (if ssc_ProcPath ssc = [] then ssc\<lparr>ssc_ProcPath := defaultProcPath\<rparr> else ssc);
          ssc = (if disk_LsblkTimeoutString (ssc_DiskConfig ssc) = []
                 then ssc\<lparr>ssc_DiskConfig := (ssc_DiskConfig ssc)\<lparr>disk_LsblkTimeoutString := defaultlsblkTimeoutString\<rparr>\<rparr> else ssc)
      in if osf_KnownModulesConfigPath (ssc_OsFeatureConfig ssc) = []
         then ssc\<lparr>ssc_OsFeatureConfig := (ssc_OsFeatureConfig ssc)\<lparr>osf_KnownModulesConfigPath := defaultKnownModulesConfigPath\<rparr>\<rparr>
         else ssc)"

definition SystemStatsConfig_ApplyConfiguration :: "SystemStatsConfig \<Rightarrow> 'e ssc_error + SystemStatsConfig" where
  "SystemStatsConfig_ApplyConfiguration ssc =
     (let ssc = ssc_defaults ssc in
      case time_ParseDuration (ssc_InvokeIntervalString ssc) of
        None \<Rightarrow> Err (BadInvokeInterval (ssc_InvokeIntervalString ssc))
      | Some interval \<Rightarrow>
          (case time_ParseDuration (disk_LsblkTimeoutString (ssc_DiskConfig ssc)) of
             None \<Rightarrow> Err (BadLsblkTimeout (disk_LsblkTimeoutString (ssc_DiskConfig ssc)))
           | Some timeout \<Rightarrow>
               Ok (ssc\<lparr>ssc_InvokeInterval := interval,
                       ssc_DiskConfig := (ssc_DiskConfig ssc)\<lparr>disk_LsblkTimeout := timeout\<rparr>\<rparr>)))"

text \<open>\<^verbatim>\<open>Validate\<close> with the \<^verbatim>\<open>validateProcPath\<close> of Linux; \<open>Stat\<close> says whether the path cannot be looked up.\<close>

definition SystemStatsConfig_Validate :: "(string \<Rightarrow> 'e option) \<Rightarrow> SystemStatsConfig \<Rightarrow> 'e ssc_error option" where
  "SystemStatsConfig_Validate Stat ssc =
     (let timeout = disk_LsblkTimeout (ssc_DiskConfig ssc) in
      if ssc_InvokeInterval ssc \<le> 0 then Some (InvokeIntervalNotPositive (ssc_InvokeInterval ssc))
      else case Stat (ssc_ProcPath ssc) of
        Some err \<Rightarrow> Some (ProcPathMissing (ssc_ProcPath ssc) err)
      | None \<Rightarrow>
          if timeout \<le> 0 then Some (LsblkTimeoutNotPositive timeout)
          else if timeout > ssc_InvokeInterval ssc then Some (LsblkTimeoutTooLong timeout (ssc_InvokeInterval ssc))
          else None)"

subsection \<open>Making metrics\<close>

text \<open>A step that fails or continues, over the state of the metrics package.\<close>

definition run_then :: "('e + 'a) \<times> 's \<Rightarrow> ('a \<Rightarrow> 's \<Rightarrow> ('e + 'b) \<times> 's) \<Rightarrow> ('e + 'b) \<times> 's" where
  "run_then r k = (case r of (Inl err, st) \<Rightarrow> (Inl err, st) | (Inr x, st) \<Rightarrow> k x st)"

text \<open>The two constructors with their display name from the configuration; the OpenCensus calls are \<open>lib\<close>.\<close>

record ('e, 'k, 'w) census_lib =
  cl_NewKey :: "string \<Rightarrow> 'e + 'k"
  cl_Register :: "'k View \<Rightarrow> 'w \<Rightarrow> 'e option \<times> 'w"

definition new_int64 ::
    "('e, 'k, 'w) census_lib \<Rightarrow> MetricsConfigs \<Rightarrow> MetricID \<Rightarrow> string \<Rightarrow> string \<Rightarrow> Aggregation \<Rightarrow> string list \<Rightarrow>
     ('k, 'w) metrics_state \<Rightarrow> ('e metric_error + Int64Metric option) \<times> ('k, 'w) metrics_state" where
  "new_int64 lib cfgs metricID description un aggregation tagNames =
     NewInt64Metric (cl_NewKey lib) (cl_Register lib) metricID (DisplayName_of cfgs metricID) description un aggregation tagNames"

definition new_float64 ::
    "('e, 'k, 'w) census_lib \<Rightarrow> MetricsConfigs \<Rightarrow> MetricID \<Rightarrow> string \<Rightarrow> string \<Rightarrow> Aggregation \<Rightarrow> string list \<Rightarrow>
     ('k, 'w) metrics_state \<Rightarrow> ('e metric_error + Float64Metric option) \<times> ('k, 'w) metrics_state" where
  "new_float64 lib cfgs metricID description un aggregation tagNames =
     NewFloat64Metric (cl_NewKey lib) (cl_Register lib) metricID (DisplayName_of cfgs metricID) description un aggregation tagNames"

subsection \<open>Measurements\<close>

text \<open>A measurement names the metric by its identifier, which tells the metrics of a collector apart.\<close>

datatype 'f sample =
    I64 MetricID Int64Metric labels int64
  | F64 MetricID Float64Metric labels 'f

definition sample_i64 :: "MetricID \<Rightarrow> Int64Metric option \<Rightarrow> labels \<Rightarrow> int64 \<Rightarrow> 'f sample list" where
  "sample_i64 metricID metric tags v = (case metric of None \<Rightarrow> [] | Some metric \<Rightarrow> [I64 metricID metric tags v])"

definition sample_f64 :: "MetricID \<Rightarrow> Float64Metric option \<Rightarrow> labels \<Rightarrow> 'f \<Rightarrow> 'f sample list" where
  "sample_f64 metricID metric tags v = (case metric of None \<Rightarrow> [] | Some metric \<Rightarrow> [F64 metricID metric tags v])"

record ('f, 'e, 'k, 'w) record_lib =
  rl_RecordI64 :: "('k \<times> string) list \<Rightarrow> Measure \<Rightarrow> int64 \<Rightarrow> 'w \<Rightarrow> 'e option \<times> 'w"
  rl_RecordF64 :: "('k \<times> string) list \<Rightarrow> Measure \<Rightarrow> 'f \<Rightarrow> 'w \<Rightarrow> 'e option \<times> 'w"

fun record_sample ::
    "('f, 'e, 'k, 'w) record_lib \<Rightarrow> 'f sample \<Rightarrow> ('k, 'w) metrics_state \<Rightarrow> ('k, 'w) metrics_state" where
  "record_sample lib (I64 metricID metric tags v) st = snd (Int64Metric_Record (rl_RecordI64 lib) metric tags v st)"
| "record_sample lib (F64 metricID metric tags v) st = snd (Float64Metric_Record (rl_RecordF64 lib) metric tags v st)"

definition record_samples ::
    "('f, 'e, 'k, 'w) record_lib \<Rightarrow> 'f sample list \<Rightarrow> ('k, 'w) metrics_state \<Rightarrow> ('k, 'w) metrics_state" where
  "record_samples lib samples st = fold (record_sample lib) samples st"

text \<open>
  The measurements of one metric under one set of labels, and their sum: what a counter shows after
  them.
\<close>

definition values_of :: "MetricID \<Rightarrow> labels \<Rightarrow> 'f sample list \<Rightarrow> int64 list" where
  "values_of metricID tags samples =
     List.map_filter (\<lambda>s. case s of
         I64 i metric t v \<Rightarrow> if i = metricID \<and> t = tags then Some v else None
       | F64 _ _ _ _ \<Rightarrow> None) samples"

definition total_of :: "MetricID \<Rightarrow> labels \<Rightarrow> 'f sample list \<Rightarrow> int64" where
  "total_of metricID tags samples = sum_list (values_of metricID tags samples)"

lemma values_of_simps [simp]:
  "values_of i t [] = []"
  "values_of i t (xs @ ys) = values_of i t xs @ values_of i t ys"
  by (simp_all add: values_of_def map_filter_def)

lemma values_of_sample_i64 [simp]:
  "values_of i t (sample_i64 j metric u v) = (if metric \<noteq> None \<and> j = i \<and> u = t then [v] else [])"
  by (simp add: values_of_def sample_i64_def map_filter_def split: option.split)

lemma values_of_sample_f64 [simp]: "values_of i t (sample_f64 j metric u v) = []"
  by (simp add: values_of_def sample_f64_def map_filter_def split: option.split)

lemma total_of_simps [simp]:
  "total_of i t [] = 0"
  "total_of i t (xs @ ys) = total_of i t xs + total_of i t ys"
  by (simp_all add: total_of_def)

lemma total_of_sample_i64 [simp]:
  "total_of i t (sample_i64 j metric u v) = (if metric \<noteq> None \<and> j = i \<and> u = t then v else 0)"
  by (cases metric) (simp_all add: total_of_def)

lemma total_of_sample_f64 [simp]: "total_of i t (sample_f64 j metric u v) = 0"
  by (simp add: total_of_def)

lemma sample_members [simp]:
  "F64 i m t v \<notin> set (sample_i64 j m' u w)"
  "I64 i im t iv \<notin> set (sample_f64 j m'' u' w')"
  "F64 i m t v \<in> set (sample_f64 j m'' u' v') \<longleftrightarrow> m'' = Some m \<and> i = j \<and> t = u' \<and> v = v'"
  "I64 i im t iv \<in> set (sample_i64 j m' u w) \<longleftrightarrow> m' = Some im \<and> i = j \<and> t = u \<and> iv = w"
  by (auto simp: sample_i64_def sample_f64_def split: option.splits)

text \<open>The float arithmetic of the language, as far as the collectors use it.\<close>

record 'f float64 =
  fo_int :: "int64 \<Rightarrow> 'f"
  fo_uint :: "uint64 \<Rightarrow> 'f"
  fo_add :: "'f \<Rightarrow> 'f \<Rightarrow> 'f"
  fo_sub :: "'f \<Rightarrow> 'f \<Rightarrow> 'f"
  fo_mul :: "'f \<Rightarrow> 'f \<Rightarrow> 'f"
  fo_div :: "'f \<Rightarrow> 'f \<Rightarrow> 'f"

text \<open>\<^verbatim>\<open>Duration.Seconds\<close>: whole seconds and the rest, truncated towards zero.\<close>

definition Duration_Seconds :: "'f float64 \<Rightarrow> duration \<Rightarrow> 'f" where
  "Duration_Seconds fo d =
     (let sec = sgn d * (\<bar>d\<bar> div Second); nsec = d - sec * Second
      in fo_add fo (fo_int fo (word_of_int sec)) (fo_div fo (fo_int fo (word_of_int nsec)) (fo_int fo 1000000000)))"

subsection \<open>Lemmas on the configuration\<close>

text \<open>A configuration that is applied and valid: the interval of the ticker is positive and the timeout fits in it.\<close>

lemma ssc_valid:
  assumes "SystemStatsConfig_Validate Stat ssc = None"
  shows "0 < ssc_InvokeInterval ssc \<and> 0 < disk_LsblkTimeout (ssc_DiskConfig ssc) \<and>
    disk_LsblkTimeout (ssc_DiskConfig ssc) \<le> ssc_InvokeInterval ssc \<and> Stat (ssc_ProcPath ssc) = None"
  using assms by (auto simp: SystemStatsConfig_Validate_def Let_def split: if_splits option.splits)

text \<open>A library that registers everything, and float arithmetic on one value, for examples.\<close>

definition sample_census :: "(unit, string, unit) census_lib" where
  "sample_census = \<lparr>cl_NewKey = Ok, cl_Register = \<lambda>v w. (None, w)\<rparr>"

definition sample_float :: "unit float64" where
  "sample_float = \<lparr>fo_int = \<lambda>_. (), fo_uint = \<lambda>_. (), fo_add = \<lambda>_ _. (), fo_sub = \<lambda>_ _. (), fo_mul = \<lambda>_ _. (), fo_div = \<lambda>_ _. ()\<rparr>"

definition sample_metrics_state :: "(string, unit) metrics_state" where
  "sample_metrics_state = \<lparr>ms_tagMap = Map.empty, ms_MetricMap = Map.empty, ms_census = ()\<rparr>"

end
