(* ===== verification/Disk_Collector.thy ===== *)
theory Disk_Collector
  imports Stats_Metrics Go_Strings
begin

text \<open>
  The collector of disk statistics (\<^verbatim>\<open>pkg/systemstatsmonitor/disk_collector.go\<close>): its nine metrics, the
  differences of the counters of a device since the last collection, and the usage of the mounted
  partitions. The library that reads them, the command \<^verbatim>\<open>lsblk\<close> and the clock are arguments, and so is
  the order in which the map of devices is ranged over.
\<close>

record diskCollector =
  dc_mIOTime :: "Int64Metric option"
  dc_mWeightedIO :: "Int64Metric option"
  dc_mAvgQueueLen :: "Float64Metric option"
  dc_mOpsCount :: "Int64Metric option"
  dc_mMergedOpsCount :: "Int64Metric option"
  dc_mOpsBytes :: "Int64Metric option"
  dc_mOpsTime :: "Int64Metric option"
  dc_mBytesUsed :: "Int64Metric option"
  dc_mPercentUsed :: "Float64Metric option"
  dc_config :: DiskStatsConfig
  dc_lastIOTime :: "string \<rightharpoonup> uint64"
  dc_lastWeightedIO :: "string \<rightharpoonup> uint64"
  dc_lastReadCount :: "string \<rightharpoonup> uint64"
  dc_lastWriteCount :: "string \<rightharpoonup> uint64"
  dc_lastMergedReadCount :: "string \<rightharpoonup> uint64"
  dc_lastMergedWriteCount :: "string \<rightharpoonup> uint64"
  dc_lastReadBytes :: "string \<rightharpoonup> uint64"
  dc_lastWriteBytes :: "string \<rightharpoonup> uint64"
  dc_lastReadTime :: "string \<rightharpoonup> uint64"
  dc_lastWriteTime :: "string \<rightharpoonup> uint64"
  dc_lastSampleTime :: gotime

definition NewDiskCollectorOrDie ::
    "('e, 'k, 'w) census_lib \<Rightarrow> DiskStatsConfig \<Rightarrow> ('k, 'w) metrics_state \<Rightarrow>
     ('e metric_error + diskCollector) \<times> ('k, 'w) metrics_state" where
  "NewDiskCollectorOrDie lib diskConfig st =
     (let cfgs = disk_MetricsConfigs diskConfig in
      run_then (new_int64 lib cfgs DiskIOTimeID ''The IO time spent on the disk, in ms'' ''ms'' SumAgg [deviceNameLabel] st) (\<lambda>mIOTime st.
      run_then (new_int64 lib cfgs DiskWeightedIOID ''The weighted IO on the disk, in ms'' ''ms'' SumAgg [deviceNameLabel] st) (\<lambda>mWeightedIO st.
      run_then (new_float64 lib cfgs DiskAvgQueueLenID ''The average queue length on the disk'' ''1'' LastValue [deviceNameLabel] st) (\<lambda>mAvgQueueLen st.
      run_then (new_int64 lib cfgs DiskOpsCountID ''Disk operations count'' ''1'' SumAgg [deviceNameLabel, directionLabel] st) (\<lambda>mOpsCount st.
      run_then (new_int64 lib cfgs DiskMergedOpsCountID ''Disk merged operations count'' ''1'' SumAgg [deviceNameLabel, directionLabel] st) (\<lambda>mMergedOpsCount st.
      run_then (new_int64 lib cfgs DiskOpsBytesID ''Bytes transferred in disk operations'' ''1'' SumAgg [deviceNameLabel, directionLabel] st) (\<lambda>mOpsBytes st.
      run_then (new_int64 lib cfgs DiskOpsTimeID ''Time spent in disk operations, in ms'' ''ms'' SumAgg [deviceNameLabel, directionLabel] st) (\<lambda>mOpsTime st.
      run_then (new_int64 lib cfgs DiskBytesUsedID ''Disk bytes used, in Bytes'' ''Byte'' LastValue [deviceNameLabel, fsTypeLabel, mountOptionLabel, stateLabel] st) (\<lambda>mBytesUsed st.
      run_then (new_float64 lib cfgs DiskPercentUsedID ''Disk usage in percentage of total space'' ''%'' LastValue [deviceNameLabel] st) (\<lambda>mPercentUsed st.
        (Ok \<lparr>dc_mIOTime = mIOTime, dc_mWeightedIO = mWeightedIO, dc_mAvgQueueLen = mAvgQueueLen, dc_mOpsCount = mOpsCount,
             dc_mMergedOpsCount = mMergedOpsCount, dc_mOpsBytes = mOpsBytes, dc_mOpsTime = mOpsTime,
             dc_mBytesUsed = mBytesUsed, dc_mPercentUsed = mPercentUsed, dc_config = diskConfig,
             dc_lastIOTime = Map.empty, dc_lastWeightedIO = Map.empty, dc_lastReadCount = Map.empty,
             dc_lastWriteCount = Map.empty, dc_lastMergedReadCount = Map.empty, dc_lastMergedWriteCount = Map.empty,
             dc_lastReadBytes = Map.empty, dc_lastWriteBytes = Map.empty, dc_lastReadTime = Map.empty,
             dc_lastWriteTime = Map.empty, dc_lastSampleTime = zero_time\<rparr>, st)))))))))))"

text \<open>What the collector reads of the library's counters, partitions and usage.\<close>

record IOCountersStat =
  io_ReadCount :: uint64
  io_MergedReadCount :: uint64
  io_WriteCount :: uint64
  io_MergedWriteCount :: uint64
  io_ReadBytes :: uint64
  io_WriteBytes :: uint64
  io_ReadTime :: uint64
  io_WriteTime :: uint64
  io_IoTime :: uint64
  io_WeightedIO :: uint64

record PartitionStat =
  pa_Device :: string
  pa_Mountpoint :: string
  pa_Fstype :: string
  pa_Opts :: "string list"

record 'f UsageStat =
  us_Free :: uint64
  us_Used :: uint64
  us_UsedPercent :: 'f

definition device_tags :: "string \<Rightarrow> labels" where
  "device_tags deviceName = [(deviceNameLabel, deviceName)]"

definition direction_tags :: "string \<Rightarrow> string \<Rightarrow> labels" where
  "direction_tags deviceName direction = [(deviceNameLabel, deviceName), (directionLabel, direction)]"

text \<open>
  The body of \<^verbatim>\<open>recordIOCounters\<close> for one device. The last counts of operations are kept only when
  their metric exists.
\<close>

definition record_if :: "'m option \<Rightarrow> string \<Rightarrow> uint64 \<Rightarrow> (string \<rightharpoonup> uint64) \<Rightarrow> string \<rightharpoonup> uint64" where
  "record_if metric deviceName v prev = (if metric = None then prev else prev(deviceName \<mapsto> v))"

definition average_queue_length :: "'f float64 \<Rightarrow> uint64 \<Rightarrow> uint64 \<Rightarrow> duration \<Rightarrow> 'f" where
  "average_queue_length fo weightedIO lastWeightedIO d =
     (if lastWeightedIO \<noteq> weightedIO
      then fo_div fo (fo_uint fo (weightedIO - lastWeightedIO)) (fo_mul fo (Duration_Seconds fo d) (fo_int fo 1000))
      else fo_int fo 0)"

definition record_device ::
    "'f float64 \<Rightarrow> gotime \<Rightarrow> string \<Rightarrow> IOCountersStat \<Rightarrow> diskCollector \<Rightarrow> 'f sample list \<times> diskCollector" where
  "record_device fo sampleTime deviceName stat dc =
     (let tags = device_tags deviceName;
          historyExist = (dc_lastIOTime dc deviceName \<noteq> None);
          lastIOTime = map_get 0 (dc_lastIOTime dc) deviceName;
          lastWeightedIO = map_get 0 (dc_lastWeightedIO dc) deviceName;
          since = (\<lambda>new prev. new - map_get 0 prev deviceName);
          r = direction_tags deviceName ''read'';
          w = direction_tags deviceName ''write''
      in (sample_i64 DiskIOTimeID (dc_mIOTime dc) tags (io_IoTime stat - lastIOTime) @
          sample_i64 DiskWeightedIOID (dc_mWeightedIO dc) tags (io_WeightedIO stat - lastWeightedIO) @
          (if historyExist
           then sample_f64 DiskAvgQueueLenID (dc_mAvgQueueLen dc) tags
                  (average_queue_length fo (io_WeightedIO stat) lastWeightedIO (time_Sub sampleTime (dc_lastSampleTime dc)))
           else []) @
          sample_i64 DiskOpsCountID (dc_mOpsCount dc) r (since (io_ReadCount stat) (dc_lastReadCount dc)) @
          sample_i64 DiskMergedOpsCountID (dc_mMergedOpsCount dc) r (since (io_MergedReadCount stat) (dc_lastMergedReadCount dc)) @
          sample_i64 DiskOpsBytesID (dc_mOpsBytes dc) r (since (io_ReadBytes stat) (dc_lastReadBytes dc)) @
          sample_i64 DiskOpsTimeID (dc_mOpsTime dc) r (since (io_ReadTime stat) (dc_lastReadTime dc)) @
          sample_i64 DiskOpsCountID (dc_mOpsCount dc) w (since (io_WriteCount stat) (dc_lastWriteCount dc)) @
          sample_i64 DiskMergedOpsCountID (dc_mMergedOpsCount dc) w (since (io_MergedWriteCount stat) (dc_lastMergedWriteCount dc)) @
          sample_i64 DiskOpsBytesID (dc_mOpsBytes dc) w (since (io_WriteBytes stat) (dc_lastWriteBytes dc)) @
          sample_i64 DiskOpsTimeID (dc_mOpsTime dc) w (since (io_WriteTime stat) (dc_lastWriteTime dc)),
          dc\<lparr>dc_lastIOTime := (dc_lastIOTime dc)(deviceName \<mapsto> io_IoTime stat),
             dc_lastWeightedIO := (dc_lastWeightedIO dc)(deviceName \<mapsto> io_WeightedIO stat),
             dc_lastReadCount := record_if (dc_mOpsCount dc) deviceName (io_ReadCount stat) (dc_lastReadCount dc),
             dc_lastMergedReadCount := record_if (dc_mMergedOpsCount dc) deviceName (io_MergedReadCount stat) (dc_lastMergedReadCount dc),
             dc_lastReadBytes := record_if (dc_mOpsBytes dc) deviceName (io_ReadBytes stat) (dc_lastReadBytes dc),
             dc_lastReadTime := record_if (dc_mOpsTime dc) deviceName (io_ReadTime stat) (dc_lastReadTime dc),
             dc_lastWriteCount := record_if (dc_mOpsCount dc) deviceName (io_WriteCount stat) (dc_lastWriteCount dc),
             dc_lastMergedWriteCount := record_if (dc_mMergedOpsCount dc) deviceName (io_MergedWriteCount stat) (dc_lastMergedWriteCount dc),
             dc_lastWriteBytes := record_if (dc_mOpsBytes dc) deviceName (io_WriteBytes stat) (dc_lastWriteBytes dc),
             dc_lastWriteTime := record_if (dc_mOpsTime dc) deviceName (io_WriteTime stat) (dc_lastWriteTime dc)\<rparr>))"

fun diskCollector_recordIOCounters ::
    "'f float64 \<Rightarrow> gotime \<Rightarrow> (string \<times> IOCountersStat) list \<Rightarrow> diskCollector \<Rightarrow> 'f sample list \<times> diskCollector" where
  "diskCollector_recordIOCounters fo sampleTime [] dc = ([], dc)"
| "diskCollector_recordIOCounters fo sampleTime ((deviceName, stat) # stats) dc =
     (case record_device fo sampleTime deviceName stat dc of
        (samples, dc) \<Rightarrow>
          (case diskCollector_recordIOCounters fo sampleTime stats dc of
             (samples', dc) \<Rightarrow> (samples @ samples', dc)))"

text \<open>The space used: one partition per device, the first.\<close>

definition usage_tags :: "PartitionStat \<Rightarrow> string \<Rightarrow> labels" where
  "usage_tags part state =
     [(deviceNameLabel, strings_TrimPrefix (pa_Device part) ''/dev/''), (fsTypeLabel, pa_Fstype part),
      (mountOptionLabel, strings_Join (pa_Opts part) '',''), (stateLabel, state)]"

fun record_usage ::
    "(string \<Rightarrow> 'e + 'f UsageStat) \<Rightarrow> diskCollector \<Rightarrow> string list \<Rightarrow> PartitionStat list \<Rightarrow> 'f sample list" where
  "record_usage Usage dc seen [] = []"
| "record_usage Usage dc seen (part # partitions) =
     (if pa_Device part \<in> set seen then record_usage Usage dc seen partitions
      else
        (case Usage (pa_Mountpoint part) of
           Inl err \<Rightarrow> []
         | Inr usageStat \<Rightarrow>
             sample_i64 DiskBytesUsedID (dc_mBytesUsed dc) (usage_tags part ''free'') (us_Free usageStat) @
             sample_i64 DiskBytesUsedID (dc_mBytesUsed dc) (usage_tags part ''used'') (us_Used usageStat) @
             sample_f64 DiskPercentUsedID (dc_mPercentUsed dc) (usage_tags part ''used'') (us_UsedPercent usageStat)) @
        record_usage Usage dc (pa_Device part # seen) partitions)"

text \<open>\<open>lsblk\<close> is what the command printed, also when it failed.\<close>

definition listRootBlockDevices :: "string \<Rightarrow> string list" where
  "listRootBlockDevices stdout = strings_Split (strings_TrimSpace stdout) nl"

definition listAttachedBlockDevices :: "PartitionStat list \<Rightarrow> string list" where
  "listAttachedBlockDevices partitions = map pa_Device partitions"

record ('e, 'f) disk_lib =
  dl_lsblk :: "duration \<Rightarrow> string"
  dl_Partitions :: "'e + PartitionStat list"
  dl_IOCounters :: "string list \<Rightarrow> 'e + (string \<times> IOCountersStat) list"
  dl_Usage :: "string \<Rightarrow> 'e + 'f UsageStat"

text \<open>The devices asked for, and the counters read in a collection, none when a call fails.\<close>

definition disk_devices :: "('e, 'f) disk_lib \<Rightarrow> DiskStatsConfig \<Rightarrow> PartitionStat list \<Rightarrow> string list" where
  "disk_devices lib cfg partitions =
     (if disk_IncludeRootBlk cfg then listRootBlockDevices (dl_lsblk lib (disk_LsblkTimeout cfg)) else []) @
     (if disk_IncludeAllAttachedBlk cfg then listAttachedBlockDevices partitions else [])"

definition diskCollector_collect ::
    "'f float64 \<Rightarrow> ('e, 'f) disk_lib \<Rightarrow> gotime \<Rightarrow> diskCollector \<Rightarrow> 'f sample list \<times> diskCollector" where
  "diskCollector_collect fo lib now dc =
     (case dl_Partitions lib of
        Inl err \<Rightarrow> ([], dc)
      | Inr partitions \<Rightarrow>
          (case dl_IOCounters lib (disk_devices lib (dc_config dc) partitions) of
             Inl err \<Rightarrow> ([], dc)
           | Inr ioCountersStats \<Rightarrow>
               (case diskCollector_recordIOCounters fo now ioCountersStats dc of
                  (samples, dc) \<Rightarrow>
                    (samples @ (if dc_mBytesUsed dc = None then [] else record_usage (dl_Usage lib) dc [] partitions),
                     dc\<lparr>dc_lastSampleTime := now\<rparr>))))"

subsection \<open>Lemmas\<close>

definition disk_readings :: "('e, 'f) disk_lib \<Rightarrow> DiskStatsConfig \<Rightarrow> (string \<times> IOCountersStat) list" where
  "disk_readings lib cfg =
     (case dl_Partitions lib of
        Inl err \<Rightarrow> []
      | Inr partitions \<Rightarrow> (case dl_IOCounters lib (disk_devices lib cfg partitions) of Inl err \<Rightarrow> [] | Inr stats \<Rightarrow> stats))"

text \<open>A run: collections one after the other.\<close>

fun disk_run ::
    "'f float64 \<Rightarrow> (('e, 'f) disk_lib \<times> gotime) list \<Rightarrow> diskCollector \<Rightarrow> 'f sample list \<times> diskCollector" where
  "disk_run fo [] dc = ([], dc)"
| "disk_run fo ((lib, now) # rest) dc =
     (case diskCollector_collect fo lib now dc of
        (samples, dc) \<Rightarrow> (case disk_run fo rest dc of (samples', dc) \<Rightarrow> (samples @ samples', dc)))"

text \<open>The ten counters of a device: metric, labels, the reading and where the collector keeps the last one.\<close>

definition disk_counters ::
    "string \<Rightarrow> diskCollector \<Rightarrow> (MetricID \<times> Int64Metric option \<times> labels \<times> (IOCountersStat \<Rightarrow> uint64) \<times> (string \<rightharpoonup> uint64)) list" where
  "disk_counters d dc =
     [(DiskIOTimeID, dc_mIOTime dc, device_tags d, io_IoTime, dc_lastIOTime dc),
      (DiskWeightedIOID, dc_mWeightedIO dc, device_tags d, io_WeightedIO, dc_lastWeightedIO dc),
      (DiskOpsCountID, dc_mOpsCount dc, direction_tags d ''read'', io_ReadCount, dc_lastReadCount dc),
      (DiskMergedOpsCountID, dc_mMergedOpsCount dc, direction_tags d ''read'', io_MergedReadCount, dc_lastMergedReadCount dc),
      (DiskOpsBytesID, dc_mOpsBytes dc, direction_tags d ''read'', io_ReadBytes, dc_lastReadBytes dc),
      (DiskOpsTimeID, dc_mOpsTime dc, direction_tags d ''read'', io_ReadTime, dc_lastReadTime dc),
      (DiskOpsCountID, dc_mOpsCount dc, direction_tags d ''write'', io_WriteCount, dc_lastWriteCount dc),
      (DiskMergedOpsCountID, dc_mMergedOpsCount dc, direction_tags d ''write'', io_MergedWriteCount, dc_lastMergedWriteCount dc),
      (DiskOpsBytesID, dc_mOpsBytes dc, direction_tags d ''write'', io_WriteBytes, dc_lastWriteBytes dc),
      (DiskOpsTimeID, dc_mOpsTime dc, direction_tags d ''write'', io_WriteTime, dc_lastWriteTime dc)]"

lemma tags_inject [simp]:
  "device_tags d = device_tags d' \<longleftrightarrow> d = d'" "direction_tags d x = direction_tags d' x' \<longleftrightarrow> d = d' \<and> x = x'"
  "device_tags d \<noteq> direction_tags d' x" "direction_tags d' x \<noteq> device_tags d"
  by (simp_all add: device_tags_def direction_tags_def)

lemma disk_ids_neq [simp]:
  "DiskIOTimeID \<noteq> DiskWeightedIOID" "DiskIOTimeID \<noteq> DiskOpsCountID" "DiskIOTimeID \<noteq> DiskMergedOpsCountID" "DiskIOTimeID \<noteq> DiskOpsBytesID" "DiskIOTimeID \<noteq> DiskOpsTimeID" "DiskIOTimeID \<noteq> DiskBytesUsedID"
  "DiskWeightedIOID \<noteq> DiskIOTimeID" "DiskWeightedIOID \<noteq> DiskOpsCountID" "DiskWeightedIOID \<noteq> DiskMergedOpsCountID" "DiskWeightedIOID \<noteq> DiskOpsBytesID" "DiskWeightedIOID \<noteq> DiskOpsTimeID" "DiskWeightedIOID \<noteq> DiskBytesUsedID"
  "DiskOpsCountID \<noteq> DiskIOTimeID" "DiskOpsCountID \<noteq> DiskWeightedIOID" "DiskOpsCountID \<noteq> DiskMergedOpsCountID" "DiskOpsCountID \<noteq> DiskOpsBytesID" "DiskOpsCountID \<noteq> DiskOpsTimeID" "DiskOpsCountID \<noteq> DiskBytesUsedID"
  "DiskMergedOpsCountID \<noteq> DiskIOTimeID" "DiskMergedOpsCountID \<noteq> DiskWeightedIOID" "DiskMergedOpsCountID \<noteq> DiskOpsCountID" "DiskMergedOpsCountID \<noteq> DiskOpsBytesID" "DiskMergedOpsCountID \<noteq> DiskOpsTimeID" "DiskMergedOpsCountID \<noteq> DiskBytesUsedID"
  "DiskOpsBytesID \<noteq> DiskIOTimeID" "DiskOpsBytesID \<noteq> DiskWeightedIOID" "DiskOpsBytesID \<noteq> DiskOpsCountID" "DiskOpsBytesID \<noteq> DiskMergedOpsCountID" "DiskOpsBytesID \<noteq> DiskOpsTimeID" "DiskOpsBytesID \<noteq> DiskBytesUsedID"
  "DiskOpsTimeID \<noteq> DiskIOTimeID" "DiskOpsTimeID \<noteq> DiskWeightedIOID" "DiskOpsTimeID \<noteq> DiskOpsCountID" "DiskOpsTimeID \<noteq> DiskMergedOpsCountID" "DiskOpsTimeID \<noteq> DiskOpsBytesID" "DiskOpsTimeID \<noteq> DiskBytesUsedID"
  "DiskBytesUsedID \<noteq> DiskIOTimeID" "DiskBytesUsedID \<noteq> DiskWeightedIOID" "DiskBytesUsedID \<noteq> DiskOpsCountID" "DiskBytesUsedID \<noteq> DiskMergedOpsCountID" "DiskBytesUsedID \<noteq> DiskOpsBytesID" "DiskBytesUsedID \<noteq> DiskOpsTimeID"
  by (simp_all add: metric_ids)

text \<open>
  What is added to a counter is the change of the last reading, and the last reading is the last of
  those made.
\<close>

definition row_delta ::
    "'f sample list \<Rightarrow> (string \<times> IOCountersStat) list \<Rightarrow> string \<Rightarrow>
     MetricID \<times> Int64Metric option \<times> labels \<times> (IOCountersStat \<Rightarrow> uint64) \<times> (string \<rightharpoonup> uint64) \<Rightarrow>
     MetricID \<times> Int64Metric option \<times> labels \<times> (IOCountersStat \<Rightarrow> uint64) \<times> (string \<rightharpoonup> uint64) \<Rightarrow> bool" where
  "row_delta samples stats d = (\<lambda>(i, m, t, f, prev) (i', m', t', f', prev').
     i' = i \<and> m' = m \<and> t' = t \<and> f' = f \<and> i \<noteq> DiskBytesUsedID \<and> (m \<noteq> None \<longrightarrow>
       total_of i t samples = map_get 0 prev' d - map_get 0 prev d \<and>
       map_get 0 prev' d = (case map_of (rev stats) d of None \<Rightarrow> map_get 0 prev d | Some stat \<Rightarrow> f stat)))"

definition counter_delta ::
    "'f sample list \<Rightarrow> (string \<times> IOCountersStat) list \<Rightarrow> string \<Rightarrow> diskCollector \<Rightarrow> diskCollector \<Rightarrow> bool" where
  "counter_delta samples stats d dc dc' \<longleftrightarrow>
     list_all2 (row_delta samples stats d) (disk_counters d dc) (disk_counters d dc') \<and> dc_config dc' = dc_config dc"

lemma map_get_upd: "map_get z (m(k \<mapsto> v)) k' = (if k' = k then v else map_get z m k')"
  by (simp add: map_get_def)

lemma map_get_record_if: "m \<noteq> None \<Longrightarrow> map_get 0 (record_if m d v prev) d' = (if d' = d then v else map_get 0 prev d')"
  by (auto simp: record_if_def map_get_upd)

lemma counter_delta_refl: "counter_delta [] [] d dc dc"
  by (simp add: counter_delta_def disk_counters_def row_delta_def metric_ids)

lemma row_delta_trans: "row_delta xs rs d x y \<Longrightarrow> row_delta ys ss d y z \<Longrightarrow> row_delta (xs @ ys) (rs @ ss) d x z"
  by (cases "map_of (rev ss) d") (auto simp: row_delta_def map_add_def split: prod.splits)

lemma counter_delta_trans:
  assumes "counter_delta xs rs d a b" "counter_delta ys ss d b c"
  shows "counter_delta (xs @ ys) (rs @ ss) d a c"
proof -
  have "list_all2 (row_delta (xs @ ys) (rs @ ss) d) (disk_counters d a) (disk_counters d c)"
  proof (rule list_all2_trans)
    show "list_all2 (row_delta xs rs d) (disk_counters d a) (disk_counters d b)"
      "list_all2 (row_delta ys ss d) (disk_counters d b) (disk_counters d c)"
      using assms by (simp_all add: counter_delta_def)
  qed (rule row_delta_trans)
  with assms show ?thesis by (simp add: counter_delta_def)
qed

lemma counter_delta_more:
  assumes "counter_delta xs rs d a b" "\<And>i t. i \<noteq> DiskBytesUsedID \<Longrightarrow> total_of i t ys = 0"
  shows "counter_delta (xs @ ys) rs d a (b\<lparr>dc_lastSampleTime := now\<rparr>)"
proof -
  have "row_delta (xs @ ys) rs d x y" if "row_delta xs rs d x y" for x y
    using that assms(2) by (auto simp: row_delta_def split: prod.splits)
  then have "list_all2 (row_delta (xs @ ys) rs d) (disk_counters d a) (disk_counters d b)"
    using assms(1) list_all2_mono unfolding counter_delta_def by blast
  moreover have "disk_counters d (b\<lparr>dc_lastSampleTime := now\<rparr>) = disk_counters d b"
    by (simp add: disk_counters_def)
  ultimately show ?thesis using assms(1) by (simp add: counter_delta_def)
qed

lemma record_device_delta:
  assumes "record_device fo t d' stat dc = (samples, dc')"
  shows "counter_delta samples [(d', stat)] d dc dc'"
proof -
  from assms have s: "samples = fst (record_device fo t d' stat dc)" and dc': "dc' = snd (record_device fo t d' stat dc)"
    by simp_all
  show ?thesis
    unfolding s dc' counter_delta_def disk_counters_def row_delta_def record_device_def Let_def
    by (simp add: map_get_upd map_get_record_if)
qed

lemma recordIOCounters_delta:
  "diskCollector_recordIOCounters fo t stats dc = (samples, dc') \<Longrightarrow> counter_delta samples stats d dc dc'"
proof (induction fo t stats dc arbitrary: samples rule: diskCollector_recordIOCounters.induct)
  case (2 fo t d' stat stats dc)
  obtain s1 dc1 where one: "record_device fo t d' stat dc = (s1, dc1)" by (metis surj_pair)
  obtain s2 where two: "diskCollector_recordIOCounters fo t stats dc1 = (s2, dc')" and "samples = s1 @ s2"
    using 2(2) one by (auto split: prod.splits)
  with counter_delta_trans [OF record_device_delta [OF one] 2(1) [OF one [symmetric] two]] show ?case by simp
qed (simp add: counter_delta_refl)

lemma usage_no_counter: "i \<noteq> DiskBytesUsedID \<Longrightarrow> total_of i t (record_usage Usage dc seen ps) = 0"
  by (induction Usage dc seen ps rule: record_usage.induct) (auto split: sum.splits)

lemma collect_delta:
  assumes "diskCollector_collect fo lib now dc = (samples, dc')"
  shows "counter_delta samples (disk_readings lib (dc_config dc)) d dc dc'"
proof (cases "dl_Partitions lib")
  case (Inl err)
  with assms counter_delta_refl show ?thesis by (simp add: diskCollector_collect_def disk_readings_def)
next
  case (Inr ps)
  show ?thesis
  proof (cases "dl_IOCounters lib (disk_devices lib (dc_config dc) ps)")
    case (Inl err)
    with assms Inr counter_delta_refl show ?thesis by (simp add: diskCollector_collect_def disk_readings_def)
  next
    case stats: (Inr stats)
    obtain s1 dc1 where one: "diskCollector_recordIOCounters fo now stats dc = (s1, dc1)" by (metis surj_pair)
    let ?usage = "if dc_mBytesUsed dc1 = None then [] else record_usage (dl_Usage lib) dc1 [] ps"
    have usage: "total_of i t ?usage = 0" if "i \<noteq> DiskBytesUsedID" for i t by (simp add: usage_no_counter that)
    from assms Inr stats one have "samples = s1 @ ?usage" "dc' = dc1\<lparr>dc_lastSampleTime := now\<rparr>"
      by (simp_all add: diskCollector_collect_def)
    with counter_delta_more [OF recordIOCounters_delta [OF one] usage] show ?thesis
      by (simp add: disk_readings_def Inr stats)
  qed
qed

lemma disk_run_delta:
  "disk_run fo cs dc = (samples, dc') \<Longrightarrow>
   counter_delta samples (concat (map (\<lambda>(lib, now). disk_readings lib (dc_config dc)) cs)) d dc dc'"
proof (induction fo cs dc arbitrary: samples rule: disk_run.induct)
  case (2 fo lib now rest dc)
  obtain s1 dc1 where one: "diskCollector_collect fo lib now dc = (s1, dc1)" by (metis surj_pair)
  obtain s2 where two: "disk_run fo rest dc1 = (s2, dc')" and "samples = s1 @ s2"
    using 2(2) one by (auto split: prod.splits)
  moreover have "dc_config dc1 = dc_config dc" using collect_delta [OF one] by (simp add: counter_delta_def)
  ultimately show ?case
    using counter_delta_trans [OF collect_delta [OF one] 2(1) [OF one [symmetric] two]] by simp
qed (simp add: counter_delta_refl)

lemma NewDiskCollectorOrDie_new:
  assumes "NewDiskCollectorOrDie lib cfg st = (Ok dc, st')"
  shows "dc_config dc = cfg \<and> (\<forall>(i, m, t, f, prev) \<in> set (disk_counters d dc). prev = Map.empty)"
  using assms by (auto simp: NewDiskCollectorOrDie_def run_then_def Let_def disk_counters_def split: prod.splits sum.splits)

lemma list_all2_member: "list_all2 P xs ys \<Longrightarrow> x \<in> set xs \<Longrightarrow> \<exists>y \<in> set ys. P x y"
  by (induction rule: list_all2_induct) auto

subsection \<open>Properties\<close>

text \<open>
  After any number of collections, whatever failed in them, each of the ten counters of a device
  has in total been given the last reading of that device modulo \<open>2 ^ 64\<close>, or nothing when there was
  none: the differences recorded add up, also when a counter of the kernel wraps around or is reset.
\<close>

theorem disk_counters_show_last_reading:
  assumes "NewDiskCollectorOrDie lib cfg st = (Ok dc, st')" "disk_run fo cs dc = (samples, dc')"
    and "(i, m, t, f, prev) \<in> set (disk_counters d dc)" "m \<noteq> None"
  shows "total_of i t samples =
    (case map_of (rev (concat (map (\<lambda>(lib, now). disk_readings lib cfg) cs))) d of None \<Rightarrow> 0 | Some stat \<Rightarrow> f stat)"
proof -
  note new = NewDiskCollectorOrDie_new [OF assms(1), of d]
  from new have cfg: "dc_config dc = cfg" by blast
  from new assms(3) have empty: "prev = Map.empty" by blast
  let ?stats = "concat (map (\<lambda>(lib, now). disk_readings lib cfg) cs)"
  have "list_all2 (row_delta samples ?stats d) (disk_counters d dc) (disk_counters d dc')"
    using disk_run_delta [OF assms(2), of d] unfolding counter_delta_def cfg by blast
  from list_all2_member [OF this assms(3)] obtain i' m' t' f' prev'
    where "row_delta samples ?stats d (i, m, t, f, prev) (i', m', t', f', prev')" by (metis prod_cases5)
  then show ?thesis using assms(4) by (cases "map_of (rev ?stats) d") (simp_all add: row_delta_def empty)
qed

text \<open>The used percentage is not recorded when the used bytes are not configured, whatever else is.\<close>

lemma record_device_floats:
  "F64 i m t v \<in> set (fst (record_device fo st d stat dc)) \<Longrightarrow> i = DiskAvgQueueLenID"
  by (simp add: record_device_def Let_def split: if_splits)

lemma record_device_mBytesUsed: "dc_mBytesUsed (snd (record_device fo st d stat dc)) = dc_mBytesUsed dc"
  by (simp add: record_device_def Let_def)

lemma recordIOCounters_floats:
  "F64 i m t v \<in> set (fst (diskCollector_recordIOCounters fo st stats dc)) \<Longrightarrow> i = DiskAvgQueueLenID"
proof (induction fo st stats dc rule: diskCollector_recordIOCounters.induct)
  case (2 fo st d stat stats dc)
  obtain s1 dc1 where one: "record_device fo st d stat dc = (s1, dc1)" by (metis surj_pair)
  with 2 record_device_floats [of i m t v fo st d stat dc] show ?case by (auto split: prod.splits)
qed simp

lemma recordIOCounters_mBytesUsed:
  "dc_mBytesUsed (snd (diskCollector_recordIOCounters fo st stats dc)) = dc_mBytesUsed dc"
proof (induction fo st stats dc rule: diskCollector_recordIOCounters.induct)
  case (2 fo st d stat stats dc)
  obtain s1 dc1 where one: "record_device fo st d stat dc = (s1, dc1)" by (metis surj_pair)
  obtain s2 dc2 where two: "diskCollector_recordIOCounters fo st stats dc1 = (s2, dc2)" by (metis surj_pair)
  with one 2 [OF one [symmetric]] record_device_mBytesUsed [of fo st d stat dc] show ?case by simp
qed simp

lemma percent_needs_bytes:
  assumes "dc_mBytesUsed dc = None" "diskCollector_collect fo lib now dc = (samples, dc')"
  shows "F64 DiskPercentUsedID metric tags v \<notin> set samples"
proof
  assume mem: "F64 DiskPercentUsedID metric tags v \<in> set samples"
  then obtain ps stats where ps: "dl_Partitions lib = Ok ps" "dl_IOCounters lib (disk_devices lib (dc_config dc) ps) = Ok stats"
    using assms(2) by (auto simp: diskCollector_collect_def split: sum.splits)
  obtain s1 dc1 where one: "diskCollector_recordIOCounters fo now stats dc = (s1, dc1)" by (metis surj_pair)
  with recordIOCounters_mBytesUsed [of fo now stats dc] assms(1) have "dc_mBytesUsed dc1 = None" by simp
  with ps one assms(2) have "samples = s1" by (simp add: diskCollector_collect_def)
  with mem recordIOCounters_floats [of DiskPercentUsedID metric tags v fo now stats dc] one
  have "DiskPercentUsedID = DiskAvgQueueLenID" by simp
  then show False by (simp add: metric_ids)
qed

subsection \<open>Witness\<close>

definition sample_disk_config :: DiskStatsConfig where
  "sample_disk_config = \<lparr>disk_MetricsConfigs = [''disk/io_time'' \<mapsto> \<lparr>mcf_DisplayName = ''disk/io_time''\<rparr>],
     disk_IncludeRootBlk = True, disk_IncludeAllAttachedBlk = False, disk_LsblkTimeoutString = [], disk_LsblkTimeout = 5 * Second\<rparr>"

definition sample_stat :: "uint64 \<Rightarrow> IOCountersStat" where
  "sample_stat v = \<lparr>io_ReadCount = 0, io_MergedReadCount = 0, io_WriteCount = 0, io_MergedWriteCount = 0, io_ReadBytes = 0,
     io_WriteBytes = 0, io_ReadTime = 0, io_WriteTime = 0, io_IoTime = v, io_WeightedIO = 0\<rparr>"

definition sample_disk_lib :: "uint64 \<Rightarrow> (unit, unit) disk_lib" where
  "sample_disk_lib v = \<lparr>dl_lsblk = \<lambda>_. ''sda'' @ [nl], dl_Partitions = Ok [],
     dl_IOCounters = \<lambda>ds. if ds = [''sda''] then Ok [(''sda'', sample_stat v)] else Err (), dl_Usage = \<lambda>_. Err ()\<rparr>"

definition sample_disk_collector :: diskCollector where
  "sample_disk_collector = (case NewDiskCollectorOrDie sample_census sample_disk_config sample_metrics_state of (Inr dc, _) \<Rightarrow> dc)"

lemma sample_disk_readings: "disk_readings (sample_disk_lib v) sample_disk_config = [(''sda'', sample_stat v)]"
proof -
  have "disk_devices (sample_disk_lib v) sample_disk_config [] = [''sda'']"
    by (simp add: disk_devices_def sample_disk_config_def sample_disk_lib_def listRootBlockDevices_def) code_simp
  then show ?thesis by (simp add: disk_readings_def sample_disk_lib_def)
qed

theorem disk_counters_show_last_reading_witness:
  "total_of DiskIOTimeID (device_tags ''sda'')
     (fst (disk_run sample_float [(sample_disk_lib 7, 0), (sample_disk_lib 3, 60 * Second)] sample_disk_collector)) = 3"
proof -
  obtain dc st' where new: "NewDiskCollectorOrDie sample_census sample_disk_config sample_metrics_state = (Ok dc, st')"
    and some: "dc_mIOTime dc \<noteq> None"
    by (simp add: NewDiskCollectorOrDie_def run_then_def Let_def new_int64_def new_float64_def NewInt64Metric_def NewFloat64Metric_def
        DisplayName_of_def sample_disk_config_def sample_census_def metric_ids map_get_def getTagKeysFromNames_def
        sample_metrics_state_def)
  then have dc: "dc = sample_disk_collector" by (simp add: sample_disk_collector_def)
  obtain samples dc' where run: "disk_run sample_float [(sample_disk_lib 7, 0), (sample_disk_lib 3, 60 * Second)] dc = (samples, dc')"
    by (metis surj_pair)
  have "(DiskIOTimeID, dc_mIOTime dc, device_tags ''sda'', io_IoTime, dc_lastIOTime dc) \<in> set (disk_counters ''sda'' dc)"
    by (simp add: disk_counters_def)
  from disk_counters_show_last_reading [OF new run this some] run dc show ?thesis
    by (simp add: sample_disk_readings sample_stat_def)
qed

end
