(* ===== verification/Cpu_Collector.thy ===== *)
theory Cpu_Collector
  imports Stats_Metrics
begin

text \<open>
  The collector of processor statistics (\<^verbatim>\<open>pkg/systemstatsmonitor/cpu_collector.go\<close> with the part for
  Unix): load averages, times since the last collection and the counters of \<^verbatim>\<open>/proc/stat\<close>. What the
  libraries read is an argument. A collection gives nothing when it panics.
\<close>

record 'f cpuCollector =
  cc_mRunnableTaskCount :: "Float64Metric option"
  cc_mUsageTime :: "Float64Metric option"
  cc_mCpuLoad1m :: "Float64Metric option"
  cc_mCpuLoad5m :: "Float64Metric option"
  cc_mCpuLoad15m :: "Float64Metric option"
  cc_mSystemProcessesTotal :: "Int64Metric option"
  cc_mSystemProcsRunning :: "Int64Metric option"
  cc_mSystemProcsBlocked :: "Int64Metric option"
  cc_mSystemInterruptsTotal :: "Int64Metric option"
  cc_mSystemCPUStat :: "Float64Metric option"
  cc_config :: CPUStatsConfig
  cc_procPath :: string
  cc_lastUsageTime :: "string \<rightharpoonup> 'f"

definition NewCPUCollectorOrDie ::
    "('e, 'k, 'w) census_lib \<Rightarrow> CPUStatsConfig \<Rightarrow> string \<Rightarrow> ('k, 'w) metrics_state \<Rightarrow>
     ('e metric_error + 'f cpuCollector) \<times> ('k, 'w) metrics_state" where
  "NewCPUCollectorOrDie lib cpuConfig procPath st =
     (let cfgs = cpu_MetricsConfigs cpuConfig in
      run_then (new_float64 lib cfgs CPURunnableTaskCountID
        ''The average number of runnable tasks in the run-queue during the last minute'' ''1'' LastValue [] st) (\<lambda>mRunnableTaskCount st.
      run_then (new_float64 lib cfgs CPUUsageTimeID ''CPU usage, in seconds'' ''s'' SumAgg [stateLabel] st) (\<lambda>mUsageTime st.
      run_then (new_float64 lib cfgs CPULoad1m ''CPU average load (1m)'' ''1'' LastValue [] st) (\<lambda>mCpuLoad1m st.
      run_then (new_float64 lib cfgs CPULoad5m ''CPU average load (5m)'' ''1'' LastValue [] st) (\<lambda>mCpuLoad5m st.
      run_then (new_float64 lib cfgs CPULoad15m ''CPU average load (15m)'' ''1'' LastValue [] st) (\<lambda>mCpuLoad15m st.
      run_then (new_int64 lib cfgs SystemProcessesTotal ''Number of forks since boot.'' ''1'' SumAgg [] st) (\<lambda>mSystemProcessesTotal st.
      run_then (new_int64 lib cfgs SystemProcsRunning ''Number of processes currently running.'' ''1'' LastValue [] st) (\<lambda>mSystemProcsRunning st.
      run_then (new_int64 lib cfgs SystemProcsBlocked ''Number of processes currently blocked.'' ''1'' LastValue [] st) (\<lambda>mSystemProcsBlocked st.
      run_then (new_int64 lib cfgs SystemInterruptsTotal ''Total number of interrupts serviced (cumulative).'' ''1'' SumAgg [] st) (\<lambda>mSystemInterruptsTotal st.
      run_then (new_float64 lib cfgs SystemCPUStat ''Cumulative time each cpu spent in various stages.'' ''ns'' SumAgg [cpuLabel, stageLabel] st) (\<lambda>mSystemCPUStat st.
        (Ok \<lparr>cc_mRunnableTaskCount = mRunnableTaskCount, cc_mUsageTime = mUsageTime, cc_mCpuLoad1m = mCpuLoad1m,
             cc_mCpuLoad5m = mCpuLoad5m, cc_mCpuLoad15m = mCpuLoad15m, cc_mSystemProcessesTotal = mSystemProcessesTotal,
             cc_mSystemProcsRunning = mSystemProcsRunning, cc_mSystemProcsBlocked = mSystemProcsBlocked,
             cc_mSystemInterruptsTotal = mSystemInterruptsTotal, cc_mSystemCPUStat = mSystemCPUStat,
             cc_config = cpuConfig, cc_procPath = procPath, cc_lastUsageTime = Map.empty\<rparr>, st))))))))))))"

text \<open>What the collector reads of the libraries' statistics.\<close>

record 'f AvgStat =
  av_Load1 :: 'f
  av_Load5 :: 'f
  av_Load15 :: 'f

record 'f TimesStat =
  tm_User :: 'f
  tm_System :: 'f
  tm_Idle :: 'f
  tm_Nice :: 'f
  tm_Iowait :: 'f
  tm_Irq :: 'f
  tm_Softirq :: 'f
  tm_Steal :: 'f
  tm_Guest :: 'f
  tm_GuestNice :: 'f

record 'f proc_stat =
  ps_CPU :: "(int \<times> 'f TimesStat) list"
  ps_IRQTotal :: uint64
  ps_ProcessCreated :: uint64
  ps_ProcessesRunning :: uint64
  ps_ProcessesBlocked :: uint64

record ('e, 'f) cpu_lib =
  cpl_Avg :: "'e + 'f AvgStat"
  cpl_Times :: "'e + 'f TimesStat list"
  cpl_NewFS :: "string \<Rightarrow> 'e option"
  cpl_Stat :: "string \<Rightarrow> 'e + 'f proc_stat"

definition cpuCollector_recordLoad :: "('e, 'f) cpu_lib \<Rightarrow> 'f cpuCollector \<Rightarrow> 'f sample list" where
  "cpuCollector_recordLoad lib cc =
     (if cc_mRunnableTaskCount cc = None \<and> cc_mCpuLoad15m cc = None \<and> cc_mCpuLoad1m cc = None \<and> cc_mCpuLoad5m cc = None then []
      else case cpl_Avg lib of
        Inl err \<Rightarrow> []
      | Inr loadAvg \<Rightarrow>
          sample_f64 CPURunnableTaskCountID (cc_mRunnableTaskCount cc) [] (av_Load1 loadAvg) @
          sample_f64 CPULoad1m (cc_mCpuLoad1m cc) [] (av_Load1 loadAvg) @
          sample_f64 CPULoad5m (cc_mCpuLoad5m cc) [] (av_Load5 loadAvg) @
          sample_f64 CPULoad15m (cc_mCpuLoad15m cc) [] (av_Load15 loadAvg))"

text \<open>The ten times in the order they are recorded, with their names.\<close>

definition usage_times :: "'f TimesStat \<Rightarrow> (string \<times> 'f) list" where
  "usage_times t =
     [(''user'', tm_User t), (''system'', tm_System t), (''idle'', tm_Idle t), (''nice'', tm_Nice t), (''iowait'', tm_Iowait t),
      (''irq'', tm_Irq t), (''softirq'', tm_Softirq t), (''steal'', tm_Steal t), (''guest'', tm_Guest t), (''guest_nice'', tm_GuestNice t)]"

definition clockTick :: "'f float64 \<Rightarrow> 'f" where "clockTick fo = fo_int fo 100"

fun record_times ::
    "'f float64 \<Rightarrow> (string \<times> 'f) list \<Rightarrow> 'f cpuCollector \<Rightarrow> 'f sample list \<times> 'f cpuCollector" where
  "record_times fo [] cc = ([], cc)"
| "record_times fo ((state, t) # ts) cc =
     (let ticks = fo_mul fo (clockTick fo) t;
          samples = sample_f64 CPUUsageTimeID (cc_mUsageTime cc) [(stateLabel, state)]
            (fo_sub fo ticks (map_get (fo_int fo 0) (cc_lastUsageTime cc) state))
      in case record_times fo ts (cc\<lparr>cc_lastUsageTime := (cc_lastUsageTime cc)(state \<mapsto> ticks)\<rparr>) of
           (samples', cc) \<Rightarrow> (samples @ samples', cc))"

text \<open>Indexing an empty list of times panics.\<close>

definition cpuCollector_recordUsage ::
    "'f float64 \<Rightarrow> ('e, 'f) cpu_lib \<Rightarrow> 'f cpuCollector \<Rightarrow> ('f sample list \<times> 'f cpuCollector) option" where
  "cpuCollector_recordUsage fo lib cc =
     (if cc_mUsageTime cc = None then Some ([], cc)
      else case cpl_Times lib of
        Inl err \<Rightarrow> Some ([], cc)
      | Inr [] \<Rightarrow> None
      | Inr (timersStat # _) \<Rightarrow> Some (record_times fo (usage_times timersStat) cc))"

definition stage_times :: "'f TimesStat \<Rightarrow> (string \<times> 'f) list" where
  "stage_times c =
     [(''user'', tm_User c), (''nice'', tm_Nice c), (''system'', tm_System c), (''idle'', tm_Idle c), (''iowait'', tm_Iowait c),
      (''iRQ'', tm_Irq c), (''softIRQ'', tm_Softirq c), (''steal'', tm_Steal c), (''guest'', tm_Guest c), (''guestNice'', tm_GuestNice c)]"

definition cpu_stat_samples :: "'f cpuCollector \<Rightarrow> int \<Rightarrow> 'f TimesStat \<Rightarrow> 'f sample list" where
  "cpu_stat_samples cc i c =
     concat (map (\<lambda>(stage, t). sample_f64 SystemCPUStat (cc_mSystemCPUStat cc)
                    [(cpuLabel, ''cpu'' @ strconv_Itoa i), (stageLabel, stage)] t) (stage_times c))"

definition cpuCollector_recordSystemStats :: "('e, 'f) cpu_lib \<Rightarrow> 'f cpuCollector \<Rightarrow> 'f sample list" where
  "cpuCollector_recordSystemStats lib cc =
     (if cc_mSystemCPUStat cc = None \<and> cc_mSystemInterruptsTotal cc = None \<and> cc_mSystemProcessesTotal cc = None \<and>
         cc_mSystemProcsBlocked cc = None \<and> cc_mSystemProcsRunning cc = None then []
      else case cpl_NewFS lib (cc_procPath cc) of
        Some err \<Rightarrow> []
      | None \<Rightarrow>
          (case cpl_Stat lib (cc_procPath cc) of
             Inl err \<Rightarrow> []
           | Inr stats \<Rightarrow>
               sample_i64 SystemProcessesTotal (cc_mSystemProcessesTotal cc) [] (ps_ProcessCreated stats) @
               sample_i64 SystemProcsRunning (cc_mSystemProcsRunning cc) [] (ps_ProcessesRunning stats) @
               sample_i64 SystemProcsBlocked (cc_mSystemProcsBlocked cc) [] (ps_ProcessesBlocked stats) @
               sample_i64 SystemInterruptsTotal (cc_mSystemInterruptsTotal cc) [] (ps_IRQTotal stats) @
               (if cc_mSystemCPUStat cc = None then []
                else concat (map (\<lambda>(i, c). cpu_stat_samples cc i c) (ps_CPU stats)))))"

definition cpuCollector_collect ::
    "'f float64 \<Rightarrow> ('e, 'f) cpu_lib \<Rightarrow> 'f cpuCollector \<Rightarrow> ('f sample list \<times> 'f cpuCollector) option" where
  "cpuCollector_collect fo lib cc =
     (let load = cpuCollector_recordLoad lib cc in
      case cpuCollector_recordUsage fo lib cc of
        None \<Rightarrow> None
      | Some (usage, cc) \<Rightarrow> Some (load @ usage @ cpuCollector_recordSystemStats lib cc, cc))"

subsection \<open>Lemmas\<close>

lemma cc_same: "\<exists>u. cc = cc\<lparr>cc_lastUsageTime := u\<rparr>"
  by (rule exI [of _ "cc_lastUsageTime cc"]) simp

lemma record_times_frame:
  "record_times fo ts cc = (samples, cc') \<Longrightarrow> (\<exists>u. cc' = cc\<lparr>cc_lastUsageTime := u\<rparr>) \<and> total_of i t samples = 0"
proof (induction fo ts cc arbitrary: samples rule: record_times.induct)
  case (2 fo state x ts cc)
  let ?cc = "cc\<lparr>cc_lastUsageTime := (cc_lastUsageTime cc)(state \<mapsto> fo_mul fo (clockTick fo) x)\<rparr>"
  obtain s2 where two: "record_times fo ts ?cc = (s2, cc')"
    using 2(2) by (auto simp: Let_def split: prod.splits)
  from 2(1) [OF refl refl two] 2(2) two show ?case by (auto simp: Let_def)
qed (simp add: cc_same)

lemma recordUsage_frame:
  assumes "cpuCollector_recordUsage fo lib cc = Some (samples, cc')"
  shows "(\<exists>u. cc' = cc\<lparr>cc_lastUsageTime := u\<rparr>) \<and> total_of i t samples = 0"
proof (cases "samples = [] \<and> cc' = cc")
  case True
  then show ?thesis by (simp add: cc_same)
next
  case False
  with assms obtain stat where "record_times fo (usage_times stat) cc = (samples, cc')"
    by (auto simp: cpuCollector_recordUsage_def split: if_splits sum.splits list.splits)
  then show ?thesis by (rule record_times_frame)
qed

text \<open>
  A collection passes the number of processes created and of interrupts since boot to counters that
  add them up: what they show grows by the whole number each time.
\<close>

lemma collect_adds_totals:
  assumes "cpuCollector_collect fo lib cc = Some (samples, cc')" "cpl_NewFS lib (cc_procPath cc) = None"
    and "cpl_Stat lib (cc_procPath cc) = Ok stats" "cc_mSystemProcessesTotal cc \<noteq> None" "cc_mSystemInterruptsTotal cc \<noteq> None"
  shows "total_of SystemProcessesTotal [] samples = ps_ProcessCreated stats \<and>
    total_of SystemInterruptsTotal [] samples = ps_IRQTotal stats"
proof -
  from assms(1) obtain usage where usage: "cpuCollector_recordUsage fo lib cc = Some (usage, cc')"
    and samples: "samples = cpuCollector_recordLoad lib cc @ usage @ cpuCollector_recordSystemStats lib cc'"
    by (auto simp: cpuCollector_collect_def Let_def split: option.splits)
  have u: "(\<exists>v. cc' = cc\<lparr>cc_lastUsageTime := v\<rparr>) \<and> total_of i [] usage = 0" for i
    by (rule recordUsage_frame [OF usage])
  then obtain v where cc': "cc' = cc\<lparr>cc_lastUsageTime := v\<rparr>" by blast
  have load: "total_of i [] (cpuCollector_recordLoad lib cc) = 0" for i
    by (simp add: cpuCollector_recordLoad_def split: sum.split)
  have stage: "total_of i [] (cpu_stat_samples cc' n c) = 0" for i n c
    by (simp add: cpu_stat_samples_def stage_times_def)
  have "total_of i [] (concat (map (\<lambda>(n, c). cpu_stat_samples cc' n c) xs)) = 0" for i xs
    by (induction xs) (auto simp: stage)
  moreover have "SystemProcessesTotal \<noteq> SystemInterruptsTotal" "SystemProcessesTotal \<noteq> SystemProcsRunning"
    "SystemProcessesTotal \<noteq> SystemProcsBlocked" "SystemInterruptsTotal \<noteq> SystemProcsRunning"
    "SystemInterruptsTotal \<noteq> SystemProcsBlocked"
    by (simp_all add: metric_ids)
  ultimately show ?thesis
    using assms(2-5) u load unfolding samples by (auto simp: cpuCollector_recordSystemStats_def cc')
qed

text \<open>When the times cannot be read, the library returns none and no error, and the collection panics.\<close>

lemma collect_panics: "cc_mUsageTime cc \<noteq> None \<Longrightarrow> cpl_Times lib = Ok [] \<Longrightarrow> cpuCollector_collect fo lib cc = None"
  by (simp add: cpuCollector_collect_def cpuCollector_recordUsage_def)

end
