(* ===== verification/Net_Collector.thy ===== *)
theory Net_Collector
  imports Stats_Metrics
begin

text \<open>
  The collector of network statistics (\<^verbatim>\<open>pkg/systemstatsmonitor/net_collector.go\<close>): sixteen metrics
  registered with a recorder, each with the function that reads its value, and the recording of all
  of them for every interface. What \<^verbatim>\<open>procfs\<close> reads and the orders in which maps are ranged over are
  arguments.
\<close>

record NetDevLine =
  nd_RxBytes :: uint64
  nd_RxPackets :: uint64
  nd_RxErrors :: uint64
  nd_RxDropped :: uint64
  nd_RxFIFO :: uint64
  nd_RxFrame :: uint64
  nd_RxCompressed :: uint64
  nd_RxMulticast :: uint64
  nd_TxBytes :: uint64
  nd_TxPackets :: uint64
  nd_TxErrors :: uint64
  nd_TxDropped :: uint64
  nd_TxFIFO :: uint64
  nd_TxCollisions :: uint64
  nd_TxCarrier :: uint64
  nd_TxCompressed :: uint64

type_synonym ifaceStatCollector = "Int64Metric option \<times> (NetDevLine \<Rightarrow> int64)"
type_synonym ifaceStatRecorder = "MetricID \<rightharpoonup> ifaceStatCollector"

datatype 'e net_fatal =
    NoMetricConfig MetricID
  | AlreadyRegistered MetricID
  | MetricNotCreated MetricID "'e metric_error"

definition newIfaceStatRecorder :: ifaceStatRecorder where
  "newIfaceStatRecorder = Map.empty"

definition ifaceStatRecorder_Register ::
    "('e, 'k, 'w) census_lib \<Rightarrow> MetricID \<Rightarrow> string \<Rightarrow> string \<Rightarrow> string \<Rightarrow> Aggregation \<Rightarrow> string list \<Rightarrow>
     (NetDevLine \<Rightarrow> int64) \<Rightarrow> ifaceStatRecorder \<Rightarrow> ('k, 'w) metrics_state \<Rightarrow>
     ('e net_fatal + ifaceStatRecorder) \<times> ('k, 'w) metrics_state" where
  "ifaceStatRecorder_Register lib metricID viewName description un aggregation tagNames exporter collectors st =
     (if collectors metricID \<noteq> None then (Err (AlreadyRegistered metricID), st)
      else case NewInt64Metric (cl_NewKey lib) (cl_Register lib) metricID viewName description un aggregation tagNames st of
        (Inl err, st) \<Rightarrow> (Err (MetricNotCreated metricID err), st)
      | (Inr metric, st) \<Rightarrow> (Ok (collectors(metricID \<mapsto> (metric, exporter))), st))"

record netCollector =
  nc_config :: NetStatsConfig
  nc_procPath :: string
  nc_recorder :: ifaceStatRecorder

definition netCollector_mustRegisterMetric ::
    "('e, 'k, 'w) census_lib \<Rightarrow> MetricID \<Rightarrow> string \<Rightarrow> string \<Rightarrow> Aggregation \<Rightarrow> (NetDevLine \<Rightarrow> int64) \<Rightarrow>
     netCollector \<Rightarrow> ('k, 'w) metrics_state \<Rightarrow> ('e net_fatal + netCollector) \<times> ('k, 'w) metrics_state" where
  "netCollector_mustRegisterMetric lib metricID description un aggregation exporter nc st =
     (case net_MetricsConfigs (nc_config nc) metricID of
        None \<Rightarrow> (Err (NoMetricConfig metricID), st)
      | Some metricConfig \<Rightarrow>
          run_then (ifaceStatRecorder_Register lib metricID (mcf_DisplayName metricConfig) description un aggregation
                      [interfaceNameLabel] exporter (nc_recorder nc) st)
            (\<lambda>recorder st. (Ok (nc\<lparr>nc_recorder := recorder\<rparr>), st)))"

text \<open>The metrics in the order of \<^verbatim>\<open>initOrDie\<close>; all are sums.\<close>

definition net_metrics :: "(MetricID \<times> string \<times> string \<times> (NetDevLine \<Rightarrow> int64)) list" where
  "net_metrics =
     [(NetDevRxBytes, ''Cumulative count of bytes received.'', ''Byte'', nd_RxBytes),
      (NetDevRxPackets, ''Cumulative count of packets received.'', ''1'', nd_RxPackets),
      (NetDevRxErrors, ''Cumulative count of receive errors encountered.'', ''1'', nd_RxErrors),
      (NetDevRxDropped, ''Cumulative count of packets dropped while receiving.'', ''1'', nd_RxDropped),
      (NetDevRxFifo, ''Cumulative count of FIFO buffer errors.'', ''1'', nd_RxFIFO),
      (NetDevRxFrame, ''Cumulative count of packet framing errors.'', ''1'', nd_RxFrame),
      (NetDevRxCompressed, ''Cumulative count of compressed packets received by the device driver.'', ''1'', nd_RxCompressed),
      (NetDevRxMulticast, ''Cumulative count of multicast frames received by the device driver.'', ''1'', nd_RxMulticast),
      (NetDevTxBytes, ''Cumulative count of bytes transmitted.'', ''Byte'', nd_TxBytes),
      (NetDevTxPackets, ''Cumulative count of packets transmitted.'', ''1'', nd_TxPackets),
      (NetDevTxErrors, ''Cumulative count of transmit errors encountered.'', ''1'', nd_TxErrors),
      (NetDevTxDropped, ''Cumulative count of packets dropped while transmitting.'', ''1'', nd_TxDropped),
      (NetDevTxFifo, ''Cumulative count of FIFO buffer errors.'', ''1'', nd_TxFIFO),
      (NetDevTxCollisions, ''Cumulative count of collisions detected on the interface.'', ''1'', nd_TxCollisions),
      (NetDevTxCarrier, ''Cumulative count of carrier losses detected by the device driver.'', ''1'', nd_TxCarrier),
      (NetDevTxCompressed, ''Cumulative count of compressed packets transmitted by the device driver.'', ''1'', nd_TxCompressed)]"

fun register_all ::
    "('e, 'k, 'w) census_lib \<Rightarrow> (MetricID \<times> string \<times> string \<times> (NetDevLine \<Rightarrow> int64)) list \<Rightarrow>
     netCollector \<Rightarrow> ('k, 'w) metrics_state \<Rightarrow> ('e net_fatal + netCollector) \<times> ('k, 'w) metrics_state" where
  "register_all lib [] nc st = (Ok nc, st)"
| "register_all lib ((metricID, description, un, exporter) # ms) nc st =
     run_then (netCollector_mustRegisterMetric lib metricID description un SumAgg exporter nc st) (register_all lib ms)"

definition netCollector_initOrDie ::
    "('e, 'k, 'w) census_lib \<Rightarrow> netCollector \<Rightarrow> ('k, 'w) metrics_state \<Rightarrow> ('e net_fatal + netCollector) \<times> ('k, 'w) metrics_state" where
  "netCollector_initOrDie lib = register_all lib net_metrics"

definition NewNetCollectorOrDie ::
    "('e, 'k, 'w) census_lib \<Rightarrow> NetStatsConfig \<Rightarrow> string \<Rightarrow> ('k, 'w) metrics_state \<Rightarrow>
     ('e net_fatal + netCollector) \<times> ('k, 'w) metrics_state" where
  "NewNetCollectorOrDie lib netConfig procPath =
     netCollector_initOrDie lib \<lparr>nc_config = netConfig, nc_procPath = procPath, nc_recorder = newIfaceStatRecorder\<rparr>"

text \<open>
  Recording one interface. A metric that is not configured is a nil pointer in a non-nil interface:
  calling its \<^verbatim>\<open>Record\<close> panics, which is \<^term>\<open>None\<close>.
\<close>

fun ifaceStatRecorder_RecordWithSameTags ::
    "MetricID list \<Rightarrow> NetDevLine \<Rightarrow> labels \<Rightarrow> ifaceStatRecorder \<Rightarrow> 'f sample list option" where
  "ifaceStatRecorder_RecordWithSameTags [] stat tags collectors = Some []"
| "ifaceStatRecorder_RecordWithSameTags (metricID # order) stat tags collectors =
     (case the (collectors metricID) of
        (None, exporter) \<Rightarrow> None
      | (Some metric, exporter) \<Rightarrow>
          map_option (\<lambda>samples. I64 metricID metric tags (exporter stat) # samples)
            (ifaceStatRecorder_RecordWithSameTags order stat tags collectors))"

record 'e net_lib =
  nl_NewFS :: "string \<Rightarrow> 'e option"
  nl_NetDev :: "string \<Rightarrow> 'e + (string \<times> NetDevLine) list"

definition excluded :: "netCollector \<Rightarrow> string \<Rightarrow> bool" where
  "excluded nc iface = (case nre_R (net_ExcludeInterfaceRegexp (nc_config nc)) of None \<Rightarrow> False | Some (_, R) \<Rightarrow> R iface)"

text \<open>\<open>order\<close> gives, for an interface, the order in which the metrics are ranged over.\<close>

fun record_interfaces ::
    "(string \<Rightarrow> MetricID list) \<Rightarrow> netCollector \<Rightarrow> (string \<times> NetDevLine) list \<Rightarrow> 'f sample list option" where
  "record_interfaces order nc [] = Some []"
| "record_interfaces order nc ((iface, ifaceStats) # stats) =
     (if excluded nc iface then record_interfaces order nc stats
      else case ifaceStatRecorder_RecordWithSameTags (order iface) ifaceStats [(interfaceNameLabel, iface)] (nc_recorder nc) of
        None \<Rightarrow> None
      | Some samples \<Rightarrow> map_option (\<lambda>samples'. samples @ samples') (record_interfaces order nc stats))"

definition net_readings :: "'e net_lib \<Rightarrow> string \<Rightarrow> (string \<times> NetDevLine) list" where
  "net_readings lib procPath =
     (case nl_NewFS lib procPath of
        Some err \<Rightarrow> []
      | None \<Rightarrow> (case nl_NetDev lib procPath of Inl err \<Rightarrow> [] | Inr stats \<Rightarrow> stats))"

definition netCollector_recordNetDev ::
    "'e net_lib \<Rightarrow> (string \<Rightarrow> MetricID list) \<Rightarrow> netCollector \<Rightarrow> 'f sample list option" where
  "netCollector_recordNetDev lib order nc = record_interfaces order nc (net_readings lib (nc_procPath nc))"

definition netCollector_collect ::
    "'e net_lib \<Rightarrow> (string \<Rightarrow> MetricID list) \<Rightarrow> netCollector \<Rightarrow> 'f sample list option" where
  "netCollector_collect lib order nc = netCollector_recordNetDev lib order nc"

subsection \<open>Lemmas\<close>

text \<open>A collector that could be made has all sixteen metrics, with the functions they were registered with.\<close>

lemma register_all_recorder:
  "register_all lib ms nc st = (Ok nc', st') \<Longrightarrow>
     nc_config nc' = nc_config nc \<and> nc_procPath nc' = nc_procPath nc \<and>
     dom (nc_recorder nc') = dom (nc_recorder nc) \<union> fst ` set ms \<and>
     (\<forall>i \<in> dom (nc_recorder nc). nc_recorder nc' i = nc_recorder nc i) \<and>
     (\<forall>(i, d, u, f) \<in> set ms. \<exists>m. nc_recorder nc' i = Some (m, f))"
proof (induction lib ms nc st rule: register_all.induct)
  case (2 lib i d u f ms nc st)
  obtain nc1 st1 where one: "netCollector_mustRegisterMetric lib i d u SumAgg f nc st = (Ok nc1, st1)"
    and rest: "register_all lib ms nc1 st1 = (Ok nc', st')"
    using 2(2) by (auto simp: run_then_def split: prod.splits sum.splits)
  have fresh: "nc_recorder nc i = None"
    using one by (cases "nc_recorder nc i") (simp_all add: netCollector_mustRegisterMetric_def ifaceStatRecorder_Register_def
        run_then_def split: option.splits)
  with one obtain m where m: "nc1 = nc\<lparr>nc_recorder := (nc_recorder nc)(i \<mapsto> (m, f))\<rparr>"
    by (auto simp: netCollector_mustRegisterMetric_def ifaceStatRecorder_Register_def run_then_def
        split: option.splits prod.splits sum.splits if_splits)
  have ih: "nc_config nc' = nc_config nc1 \<and> nc_procPath nc' = nc_procPath nc1 \<and>
     dom (nc_recorder nc') = dom (nc_recorder nc1) \<union> fst ` set ms \<and>
     (\<forall>i \<in> dom (nc_recorder nc1). nc_recorder nc' i = nc_recorder nc1 i) \<and>
     (\<forall>(i, d, u, f) \<in> set ms. \<exists>m. nc_recorder nc' i = Some (m, f))"
    by (rule 2(1) [OF rest])
  note m = m fresh
  from ih m have "nc_recorder nc' i = Some (m, f)" by simp
  moreover have "\<forall>j \<in> dom (nc_recorder nc). nc_recorder nc' j = nc_recorder nc j" using ih m by auto
  moreover have "dom (nc_recorder nc') = dom (nc_recorder nc) \<union> fst ` set ((i, d, u, f) # ms)" using ih m by auto
  ultimately show ?case using ih m by auto
qed simp

lemma NewNetCollectorOrDie_recorder:
  assumes "NewNetCollectorOrDie lib cfg procPath st = (Ok nc, st')"
  shows "nc_config nc = cfg \<and> nc_procPath nc = procPath \<and> dom (nc_recorder nc) = fst ` set net_metrics \<and>
    (\<forall>(i, d, u, f) \<in> set net_metrics. \<exists>m. nc_recorder nc i = Some (m, f))"
  using register_all_recorder [OF assms [unfolded NewNetCollectorOrDie_def netCollector_initOrDie_def]]
  by (simp add: newIfaceStatRecorder_def)

lemma values_of_Cons:
  "values_of i t (I64 j metric u v # samples) = (if j = i \<and> u = t then v # values_of i t samples else values_of i t samples)"
  by (simp add: values_of_def map_filter_def)

lemma RecordWithSameTags_values:
  "ifaceStatRecorder_RecordWithSameTags order stat tags collectors = Some samples \<Longrightarrow> distinct order \<Longrightarrow>
   values_of i t samples = (if i \<in> set order \<and> t = tags then [snd (the (collectors i)) stat] else [])"
proof (induction order stat tags collectors arbitrary: samples rule: ifaceStatRecorder_RecordWithSameTags.induct)
  case (2 j order stat tags collectors)
  obtain m f where mf: "the (collectors j) = (m, f)" by (metis surj_pair)
  with 2(2) obtain metric samples' where m: "m = Some metric"
    and rest: "ifaceStatRecorder_RecordWithSameTags order stat tags collectors = Some samples'"
    and samples: "samples = I64 j metric tags (f stat) # samples'"
    by (auto split: option.splits)
  from 2(1) [OF mf [symmetric, unfolded m] refl rest] 2(3) mf show ?case
    by (auto simp: samples values_of_Cons)
qed simp

lemma record_interfaces_values:
  assumes "nc_recorder nc i = Some (m, f)" "\<forall>iface. map_order (nc_recorder nc) (order iface)" "\<not> excluded nc iface"
  shows "record_interfaces order nc stats = Some samples \<Longrightarrow>
    values_of i [(interfaceNameLabel, iface)] samples = map (\<lambda>(_, stat). f stat) (filter (\<lambda>(name, _). name = iface) stats)"
proof (induction stats arbitrary: samples)
  case (Cons x stats)
  obtain name stat where x: "x = (name, stat)" by (metis surj_pair)
  have order: "distinct (order name)" "i \<in> set (order name)" using assms(1,2) by (auto simp: map_order_def)
  show ?case
  proof (cases "excluded nc name")
    case True
    with assms(3) have "name \<noteq> iface" by auto
    with True Cons x show ?thesis by simp
  next
    case False
    with Cons.prems x obtain s1 s2 where
      one: "ifaceStatRecorder_RecordWithSameTags (order name) stat [(interfaceNameLabel, name)] (nc_recorder nc) = Some s1"
      and two: "record_interfaces order nc stats = Some s2" and "samples = s1 @ s2"
      by (auto split: option.splits)
    with Cons.IH [OF two] RecordWithSameTags_values [OF one order(1), of i "[(interfaceNameLabel, iface)]"] order(2) assms(1)
    show ?thesis by (auto simp: x)
  qed
qed simp

text \<open>A run: collections one after the other.\<close>

fun net_run :: "('e net_lib \<times> (string \<Rightarrow> MetricID list)) list \<Rightarrow> netCollector \<Rightarrow> 'f sample list option" where
  "net_run [] nc = Some []"
| "net_run ((lib, order) # rest) nc =
     (case netCollector_collect lib order nc of
        None \<Rightarrow> None
      | Some samples \<Rightarrow> map_option (\<lambda>samples'. samples @ samples') (net_run rest nc))"

lemma net_run_values:
  assumes "nc_recorder nc i = Some (m, f)" "\<not> excluded nc iface"
  shows "net_run cs nc = Some samples \<Longrightarrow> \<forall>(lib, order) \<in> set cs. \<forall>iface. map_order (nc_recorder nc) (order iface) \<Longrightarrow>
    values_of i [(interfaceNameLabel, iface)] samples =
      map (\<lambda>(_, stat). f stat) (filter (\<lambda>(name, _). name = iface) (concat (map (\<lambda>(lib, _). net_readings lib (nc_procPath nc)) cs)))"
proof (induction cs arbitrary: samples)
  case (Cons c cs)
  obtain lib order where c: "c = (lib, order)" by (metis surj_pair)
  with Cons.prems(1) obtain s1 s2 where
    one: "record_interfaces order nc (net_readings lib (nc_procPath nc)) = Some s1"
    and two: "net_run cs nc = Some s2" and "samples = s1 @ s2"
    by (auto simp: netCollector_collect_def netCollector_recordNetDev_def split: option.splits)
  moreover have "\<forall>iface. map_order (nc_recorder nc) (order iface)" using Cons.prems(2) c by auto
  ultimately show ?case
    using Cons.IH [OF two] Cons.prems(2) record_interfaces_values [OF assms(1) _ assms(2) one] c by auto
qed simp

subsection \<open>Properties\<close>


text \<open>A metric that is configured with an empty name makes every collection panic as soon as there is an interface.\<close>

lemma unnamed_metric_panics:
  "collectors i = Some (None, f) \<Longrightarrow> i \<in> set order \<Longrightarrow>
   ifaceStatRecorder_RecordWithSameTags order stat tags collectors = None"
  by (induction order) (auto split: option.split prod.split)

subsection \<open>Witness\<close>

definition sample_net_config :: NetStatsConfig where
  "sample_net_config = \<lparr>net_MetricsConfigs = \<lambda>metricID. Some \<lparr>mcf_DisplayName = metricID\<rparr>,
     net_ExcludeInterfaceRegexp = \<lparr>nre_R = Some (''lo'', \<lambda>iface. iface = ''lo'')\<rparr>\<rparr>"

definition sample_net_line :: "uint64 \<Rightarrow> NetDevLine" where
  "sample_net_line v = \<lparr>nd_RxBytes = v, nd_RxPackets = 0, nd_RxErrors = 0, nd_RxDropped = 0, nd_RxFIFO = 0, nd_RxFrame = 0,
     nd_RxCompressed = 0, nd_RxMulticast = 0, nd_TxBytes = 0, nd_TxPackets = 0, nd_TxErrors = 0, nd_TxDropped = 0,
     nd_TxFIFO = 0, nd_TxCollisions = 0, nd_TxCarrier = 0, nd_TxCompressed = 0\<rparr>"

definition sample_net_lib :: "uint64 \<Rightarrow> unit net_lib" where
  "sample_net_lib v = \<lparr>nl_NewFS = \<lambda>_. None, nl_NetDev = \<lambda>_. Ok [(''lo'', sample_net_line 1), (''eth0'', sample_net_line v)]\<rparr>"

definition sample_net_collector :: netCollector where
  "sample_net_collector =
     (case NewNetCollectorOrDie sample_census sample_net_config ''/proc'' sample_metrics_state of (Inr nc, _) \<Rightarrow> nc)"

definition sample_net_run :: "unit sample list option" where
  "sample_net_run = net_run [(sample_net_lib 10, \<lambda>_. map fst net_metrics), (sample_net_lib 12, \<lambda>_. rev (map fst net_metrics))] sample_net_collector"

lemma sample_net_new:
  "\<exists>st'. NewNetCollectorOrDie sample_census sample_net_config ''/proc'' sample_metrics_state = (Ok sample_net_collector, st')"
proof -
  have "case NewNetCollectorOrDie sample_census sample_net_config ''/proc'' sample_metrics_state of (Inr nc, _) \<Rightarrow> True | _ \<Rightarrow> False"
    by code_simp
  then show ?thesis by (auto simp: sample_net_collector_def split: prod.splits sum.splits)
qed


end
