(* ===== verification/Memory_Collector.thy ===== *)
theory Memory_Collector
  imports Stats_Metrics
begin

text \<open>
  The collector of memory statistics (\<^verbatim>\<open>pkg/systemstatsmonitor/memory_collector.go\<close> with the part for Unix).
  The values of \<^verbatim>\<open>/proc/meminfo\<close> are kibibytes in 64 bits and may be missing; what \<^verbatim>\<open>procfs\<close> reads is an
  argument.
\<close>

record memoryCollector =
  mm_mBytesUsed :: "Int64Metric option"
  mm_mPercentUsed :: "Float64Metric option"
  mm_mAnonymousUsed :: "Int64Metric option"
  mm_mPageCacheUsed :: "Int64Metric option"
  mm_mUnevictableUsed :: "Int64Metric option"
  mm_mDirtyUsed :: "Int64Metric option"
  mm_config :: MemoryStatsConfig

definition NewMemoryCollectorOrDie ::
    "('e, 'k, 'w) census_lib \<Rightarrow> MemoryStatsConfig \<Rightarrow> ('k, 'w) metrics_state \<Rightarrow>
     ('e metric_error + memoryCollector) \<times> ('k, 'w) metrics_state" where
  "NewMemoryCollectorOrDie lib memoryConfig st =
     (let cfgs = mem_MetricsConfigs memoryConfig in
      run_then (new_int64 lib cfgs MemoryBytesUsedID
        ''Memory usage by each memory state, in Bytes. Summing values of all states yields the total memory on the node.''
        ''Byte'' LastValue [stateLabel] st) (\<lambda>mBytesUsed st.
      run_then (new_float64 lib cfgs MemoryPercentUsedID ''Memory usage in percentage of total memory.'' ''%'' LastValue [stateLabel] st) (\<lambda>mPercentUsed st.
      run_then (new_int64 lib cfgs MemoryAnonymousUsedID
        ''Anonymous memory usage, in Bytes. Summing values of all states yields the total anonymous memory used.''
        ''Byte'' LastValue [stateLabel] st) (\<lambda>mAnonymousUsed st.
      run_then (new_int64 lib cfgs MemoryPageCacheUsedID
        ''Page cache memory usage, in Bytes. Summing values of all states yields the total anonymous memory used.''
        ''Byte'' LastValue [stateLabel] st) (\<lambda>mPageCacheUsed st.
      run_then (new_int64 lib cfgs MemoryUnevictableUsedID ''Unevictable memory usage, in Bytes'' ''Byte'' LastValue [] st) (\<lambda>mUnevictableUsed st.
      run_then (new_int64 lib cfgs MemoryDirtyUsedID
        ''Dirty pages usage, in Bytes. Dirty means the memory is waiting to be written back to disk, and writeback means the memory is actively being written back to disk.''
        ''Byte'' LastValue [stateLabel] st) (\<lambda>mDirtyUsed st.
        (Ok \<lparr>mm_mBytesUsed = mBytesUsed, mm_mPercentUsed = mPercentUsed, mm_mAnonymousUsed = mAnonymousUsed,
             mm_mPageCacheUsed = mPageCacheUsed, mm_mUnevictableUsed = mUnevictableUsed, mm_mDirtyUsed = mDirtyUsed,
             mm_config = memoryConfig\<rparr>, st))))))))"

record Meminfo =
  mi_MemTotal :: "uint64 option"
  mi_MemFree :: "uint64 option"
  mi_Buffers :: "uint64 option"
  mi_Cached :: "uint64 option"
  mi_Slab :: "uint64 option"
  mi_Dirty :: "uint64 option"
  mi_Writeback :: "uint64 option"
  mi_ActiveAnon :: "uint64 option"
  mi_InactiveAnon :: "uint64 option"
  mi_ActiveFile :: "uint64 option"
  mi_InactiveFile :: "uint64 option"
  mi_Unevictable :: "uint64 option"

text \<open>One value of a state, in bytes, if there is one.\<close>

definition state_bytes :: "MetricID \<Rightarrow> Int64Metric option \<Rightarrow> string \<Rightarrow> uint64 option \<Rightarrow> 'f sample list" where
  "state_bytes metricID metric state kib =
     (case kib of None \<Rightarrow> [] | Some v \<Rightarrow> sample_i64 metricID metric [(stateLabel, state)] (v * 1024))"

text \<open>The memory that is in none of the other states; the subtraction wraps around.\<close>

definition mem_used :: "Meminfo \<Rightarrow> uint64 option" where
  "mem_used mi =
     (case (mi_MemTotal mi, mi_MemFree mi, mi_Buffers mi, mi_Cached mi, mi_Slab mi) of
        (Some memTotal, Some free, Some buffers, Some cached, Some slab) \<Rightarrow> Some (memTotal - free - buffers - cached - slab)
      | _ \<Rightarrow> None)"

definition percent_used :: "'f float64 \<Rightarrow> memoryCollector \<Rightarrow> Meminfo \<Rightarrow> 'f sample list" where
  "percent_used fo mc mi =
     (case (mi_MemTotal mi, mem_used mi) of
        (Some memTotal, Some used) \<Rightarrow>
          if 0 < memTotal
          then sample_f64 MemoryPercentUsedID (mm_mPercentUsed mc) [(stateLabel, ''used'')]
                 (fo_mul fo (fo_div fo (fo_uint fo used) (fo_uint fo memTotal)) (fo_int fo 100))
          else []
      | _ \<Rightarrow> [])"

record 'e mem_lib =
  ml_NewDefaultFS :: "'e option"
  ml_Meminfo :: "'e + Meminfo"

definition memoryCollector_collect :: "'f float64 \<Rightarrow> 'e mem_lib \<Rightarrow> memoryCollector \<Rightarrow> 'f sample list" where
  "memoryCollector_collect fo lib mc =
     (case ml_NewDefaultFS lib of
        Some err \<Rightarrow> []
      | None \<Rightarrow>
          (case ml_Meminfo lib of
             Inl err \<Rightarrow> []
           | Inr mi \<Rightarrow>
               state_bytes MemoryBytesUsedID (mm_mBytesUsed mc) ''free'' (mi_MemFree mi) @
               state_bytes MemoryBytesUsedID (mm_mBytesUsed mc) ''buffered'' (mi_Buffers mi) @
               state_bytes MemoryBytesUsedID (mm_mBytesUsed mc) ''cached'' (mi_Cached mi) @
               state_bytes MemoryBytesUsedID (mm_mBytesUsed mc) ''slab'' (mi_Slab mi) @
               state_bytes MemoryBytesUsedID (mm_mBytesUsed mc) ''used'' (mem_used mi) @
               percent_used fo mc mi @
               state_bytes MemoryDirtyUsedID (mm_mDirtyUsed mc) ''dirty'' (mi_Dirty mi) @
               state_bytes MemoryDirtyUsedID (mm_mDirtyUsed mc) ''writeback'' (mi_Writeback mi) @
               state_bytes MemoryAnonymousUsedID (mm_mAnonymousUsed mc) ''active'' (mi_ActiveAnon mi) @
               state_bytes MemoryAnonymousUsedID (mm_mAnonymousUsed mc) ''inactive'' (mi_InactiveAnon mi) @
               state_bytes MemoryPageCacheUsedID (mm_mPageCacheUsed mc) ''active'' (mi_ActiveFile mi) @
               state_bytes MemoryPageCacheUsedID (mm_mPageCacheUsed mc) ''inactive'' (mi_InactiveFile mi) @
               (case mi_Unevictable mi of
                  None \<Rightarrow> []
                | Some v \<Rightarrow> sample_i64 MemoryUnevictableUsedID (mm_mUnevictableUsed mc) [] (v * 1024))))"

subsection \<open>Lemmas\<close>

definition memory_states :: "string list" where
  "memory_states = [''free'', ''buffered'', ''cached'', ''slab'', ''used'']"

lemma values_of_state_bytes [simp]:
  "values_of i t (state_bytes j metric state kib) =
     (if metric \<noteq> None \<and> j = i \<and> t = [(stateLabel, state)] then (case kib of None \<Rightarrow> [] | Some v \<Rightarrow> [v * 1024]) else [])"
  by (auto simp: state_bytes_def split: option.split)

lemma values_of_percent_used [simp]: "values_of i t (percent_used fo mc mi) = []"
  by (simp add: percent_used_def split: option.split)

lemma memory_ids [simp]:
  "MemoryDirtyUsedID \<noteq> MemoryBytesUsedID" "MemoryAnonymousUsedID \<noteq> MemoryBytesUsedID"
  "MemoryPageCacheUsedID \<noteq> MemoryBytesUsedID" "MemoryUnevictableUsedID \<noteq> MemoryBytesUsedID"
  by (simp_all add: metric_ids)

lemma collect_bytes_used:
  assumes "ml_NewDefaultFS lib = None" "ml_Meminfo lib = Ok mi" "mm_mBytesUsed mc \<noteq> None"
  shows "map (\<lambda>s. values_of MemoryBytesUsedID [(stateLabel, s)] (memoryCollector_collect fo lib mc)) memory_states =
    map (\<lambda>kib. case kib of None \<Rightarrow> [] | Some v \<Rightarrow> [v * 1024]) [mi_MemFree mi, mi_Buffers mi, mi_Cached mi, mi_Slab mi, mem_used mi]"
  using assms by (simp add: memoryCollector_collect_def memory_states_def split: option.split)

subsection \<open>Properties\<close>

text \<open>
  C39: when the five values are there, a collection records each of the five states of the memory
  exactly once and the values add up to the total memory in bytes, modulo \<open>2 ^ 64\<close>, as the description
  of the metric says.
\<close>

theorem memory_states_add_up:
  assumes "ml_NewDefaultFS lib = None" "ml_Meminfo lib = Ok mi" "mm_mBytesUsed mc \<noteq> None"
    and "mi_MemTotal mi = Some memTotal" "mi_MemFree mi \<noteq> None" "mi_Buffers mi \<noteq> None" "mi_Cached mi \<noteq> None" "mi_Slab mi \<noteq> None"
  shows "(\<forall>s \<in> set memory_states.
      length (values_of MemoryBytesUsedID [(stateLabel, s)] (memoryCollector_collect fo lib mc)) = 1) \<and>
    (\<Sum>s \<leftarrow> memory_states. total_of MemoryBytesUsedID [(stateLabel, s)] (memoryCollector_collect fo lib mc)) = memTotal * 1024"
proof -
  let ?vs = "\<lambda>s. values_of MemoryBytesUsedID [(stateLabel, s)] (memoryCollector_collect fo lib mc)"
  obtain free buffers cached slab where m: "mi_MemFree mi = Some free" "mi_Buffers mi = Some buffers"
    "mi_Cached mi = Some cached" "mi_Slab mi = Some slab" using assms(5-8) by blast
  then have "mem_used mi = Some (memTotal - free - buffers - cached - slab)" using assms(4) by (simp add: mem_used_def)
  with m collect_bytes_used [OF assms(1-3), of fo]
  have vs: "map ?vs memory_states = [[free * 1024], [buffers * 1024], [cached * 1024], [slab * 1024],
      [(memTotal - free - buffers - cached - slab) * 1024]]" by simp
  have "(\<Sum>s \<leftarrow> memory_states. sum_list (?vs s)) = sum_list (map sum_list (map ?vs memory_states))" by (simp add: comp_def)
  also have "\<dots> = memTotal * 1024" unfolding vs by (simp add: algebra_simps)
  finally have "(\<Sum>s \<leftarrow> memory_states. sum_list (?vs s)) = memTotal * 1024" .
  moreover have "list_all (\<lambda>v. length v = 1) (map ?vs memory_states)" unfolding vs by simp
  ultimately show ?thesis by (simp add: total_of_def list_all_iff)
qed

subsection \<open>Witness\<close>

definition sample_meminfo :: Meminfo where
  "sample_meminfo = \<lparr>mi_MemTotal = Some 100, mi_MemFree = Some 10, mi_Buffers = Some 20, mi_Cached = Some 30, mi_Slab = Some 5,
     mi_Dirty = None, mi_Writeback = None, mi_ActiveAnon = None, mi_InactiveAnon = None, mi_ActiveFile = None,
     mi_InactiveFile = None, mi_Unevictable = None\<rparr>"

definition sample_memory_collector :: memoryCollector where
  "sample_memory_collector = \<lparr>mm_mBytesUsed = Some \<lparr>i64_name = ''m'', i64_measure = \<lparr>me_name = ''m'', me_description = [], me_unit = ''Byte''\<rparr>\<rparr>,
     mm_mPercentUsed = None, mm_mAnonymousUsed = None, mm_mPageCacheUsed = None, mm_mUnevictableUsed = None,
     mm_mDirtyUsed = None, mm_config = \<lparr>mem_MetricsConfigs = Map.empty\<rparr>\<rparr>"

theorem memory_states_add_up_witness:
  "(\<Sum>s \<leftarrow> memory_states. total_of MemoryBytesUsedID [(stateLabel, s)]
     (memoryCollector_collect sample_float \<lparr>ml_NewDefaultFS = None :: unit option, ml_Meminfo = Ok sample_meminfo\<rparr> sample_memory_collector))
   = 102400"
  using memory_states_add_up [of "\<lparr>ml_NewDefaultFS = None :: unit option, ml_Meminfo = Ok sample_meminfo\<rparr>" sample_meminfo
    sample_memory_collector 100 sample_float] by (simp add: sample_meminfo_def sample_memory_collector_def)

end
