(* ===== verification/Go_Path.thy ===== *)
theory Go_Path
  imports Go_Strings
begin

text \<open>
  What the development needs of Go's \<^verbatim>\<open>path/filepath\<close> on Unix, and of \<^verbatim>\<open>strings.Fields\<close> and
  \<^verbatim>\<open>strings.FieldsFunc\<close>.
\<close>

subsection \<open>Package filepath\<close>

text \<open>The components of a path, processed from the left onto a stack, last first.\<close>

fun clean_components :: "bool \<Rightarrow> string list \<Rightarrow> string list \<Rightarrow> string list" where
  "clean_components rooted stack [] = stack"
| "clean_components rooted stack (c # cs) =
     (if c = [] \<or> c = ''.'' then clean_components rooted stack cs
      else if c = ''..''
      then (case stack of
              t # rest \<Rightarrow> if t = ''..'' then clean_components rooted (c # stack) cs else clean_components rooted rest cs
            | [] \<Rightarrow> if rooted then clean_components rooted [] cs else clean_components rooted [c] cs)
      else clean_components rooted (c # stack) cs)"

definition filepath_IsAbs :: "string \<Rightarrow> bool" where
  "filepath_IsAbs path = prefix ''/'' path"

definition filepath_Clean :: "string \<Rightarrow> string" where
  "filepath_Clean path =
     (let rooted = filepath_IsAbs path;
          body = strings_Join (rev (clean_components rooted [] (strings_Split path CHR ''/''))) ''/''
      in if rooted then ''/'' @ body else if body = [] then ''.'' else body)"

definition filepath_Join :: "string list \<Rightarrow> string" where
  "filepath_Join elems =
     (case dropWhile (\<lambda>e. e = []) elems of [] \<Rightarrow> [] | es \<Rightarrow> filepath_Clean (strings_Join es ''/''))"

definition filepath_Dir :: "string \<Rightarrow> string" where
  "filepath_Dir path = filepath_Clean (rev (dropWhile (\<lambda>c. c \<noteq> CHR ''/'') (rev path)))"

lemma filepath_examples:
  "filepath_Clean [] = ''.''" "filepath_Clean ''/a/../../b/./c//'' = ''/b/c''" "filepath_Clean ''../a/..'' = ''..''"
  "filepath_Join [''/proc'', ''/cmdline''] = ''/proc/cmdline''" "filepath_Join [[], []] = []"
  "filepath_Dir ''/config/stats.json'' = ''/config''" "filepath_Dir ''stats.json'' = ''.''"
  by code_simp+

subsection \<open>Fields\<close>

text \<open>
  \<^verbatim>\<open>strings.FieldsFunc\<close> as it is implemented: the function is called once for every character from
  left to right. It may keep state, which is threaded here. \<open>cur\<close> is the field begun so far.
\<close>

fun fields_func :: "(char \<Rightarrow> 's \<Rightarrow> bool \<times> 's) \<Rightarrow> string \<Rightarrow> string \<Rightarrow> 's \<Rightarrow> string list \<times> 's" where
  "fields_func f cur [] st = ((if cur = [] then [] else [cur]), st)"
| "fields_func f cur (c # cs) st =
     (case f c st of
        (True, st) \<Rightarrow> (case fields_func f [] cs st of (fs, st) \<Rightarrow> ((if cur = [] then fs else cur # fs), st))
      | (False, st) \<Rightarrow> fields_func f (cur @ [c]) cs st)"

text \<open>\<^verbatim>\<open>strings.Fields\<close>: the pieces between runs of white space.\<close>

fun take_field :: "string \<Rightarrow> string \<times> string" where
  "take_field [] = ([], [])"
| "take_field (c # cs) =
     (if \<exists>w \<in> set space_runes. prefix w (c # cs) then ([], c # cs)
      else case take_field cs of (field, rest) \<Rightarrow> (c # field, rest))"

lemma take_field_append: "take_field s = (field, rest) \<Longrightarrow> s = field @ rest"
  by (induction s arbitrary: field) (auto split: if_splits prod.splits)

lemma trim_left_of_length: "length (trim_left_of ws s) \<le> length s"
proof (induction ws s rule: trim_left_of.induct)
  case (1 ws s)
  show ?case
  proof (cases "find (\<lambda>w. w \<noteq> [] \<and> prefix w s) ws")
    case None
    then show ?thesis by (simp add: trim_left_of.simps [of ws s])
  next
    case (Some w)
    from 1 [OF Some] have "length (trim_left_of ws (drop (length w) s)) \<le> length s" by simp
    with Some show ?thesis by (simp add: trim_left_of.simps [of ws s])
  qed
qed

function strings_Fields :: "string \<Rightarrow> string list" where
  "strings_Fields s =
     (case take_field (trim_left_of space_runes s) of
        ([], _) \<Rightarrow> []
      | (c # field, rest) \<Rightarrow> (c # field) # strings_Fields rest)"
  by pat_completeness auto
termination
proof (relation "measure length")
  fix s :: string and x y c field
  assume xy: "(x, y) = take_field (trim_left_of space_runes s)" and x: "x = c # field"
  from take_field_append [OF xy [symmetric]] x have "length (trim_left_of space_runes s) = Suc (length field + length y)" by simp
  with trim_left_of_length [of space_runes s] show "(y, s) \<in> measure length" by simp
qed simp

declare strings_Fields.simps [simp del]

lemma strings_Fields_examples:
  "strings_Fields ''  nf_nat 61440 2  (O)'' = [''nf_nat'', ''61440'', ''2'', ''(O)'']" "strings_Fields ''   '' = []"
  by code_simp+

end
