(* ===== verification/Os_Feature.thy ===== *)
theory Os_Feature
  imports Stats_Metrics Go_Path
begin

text \<open>
  The collector of operating system features (\<^verbatim>\<open>pkg/systemstatsmonitor/osfeature_collector.go\<close>) with the
  parsers of the kernel command line and of the list of modules (\<^verbatim>\<open>pkg/util/metrics/system\<close>). Reading
  files and decoding JSON are arguments.
\<close>

subsection \<open>Reading lines\<close>

text \<open>
  \<open>Open\<close> gives the contents of a file and whether reading it ended with an error. \<^verbatim>\<open>bufio.Scanner\<close> drops
  a carriage return at the end of a line and does not accept a line of 64 KiB or more.
\<close>

definition drop_cr :: "string \<Rightarrow> string" where
  "drop_cr line = strings_TrimSuffix line [CHR 0x0D]"

definition scan_lines :: "string \<Rightarrow> string list option" where
  "scan_lines contents =
     (let pieces = strings_Split contents nl;
          lines = (if last pieces = [] then butlast pieces else pieces)
      in if list_ex (\<lambda>line. 65536 \<le> length line) lines then None else Some (map drop_cr lines))"

text \<open>After a scanning error the error that is returned is that of opening the file, which is nil.\<close>

definition ReadFileIntoLines :: "(string \<Rightarrow> 'e + string \<times> bool) \<Rightarrow> string \<Rightarrow> 'e + string list" where
  "ReadFileIntoLines Open filename =
     (case Open filename of
        Inl err \<Rightarrow> Err err
      | Inr (contents, read_error) \<Rightarrow>
          if read_error then Ok []
          else (case scan_lines contents of None \<Rightarrow> Ok [] | Some lines \<Rightarrow> Ok lines))"

subsection \<open>The command line\<close>

record CmdlineArg =
  cla_Key :: string
  cla_Value :: string

text \<open>\<^verbatim>\<open>splitAfterSpace\<close> with the package variable \<^verbatim>\<open>withinQuotes\<close> as its state.\<close>

definition splitAfterSpace :: "char \<Rightarrow> bool \<Rightarrow> bool \<times> bool" where
  "splitAfterSpace inputChar withinQuotes =
     (if inputChar = CHR 0x22 then (False, \<not> withinQuotes)
      else if withinQuotes then (False, withinQuotes)
      else (inputChar = CHR '' '', withinQuotes))"

definition parse_arg :: "string \<Rightarrow> CmdlineArg" where
  "parse_arg words =
     (case strings_Split words CHR ''='' of
        [] \<Rightarrow> \<lparr>cla_Key = [], cla_Value = []\<rparr>
      | [key] \<Rightarrow> \<lparr>cla_Key = key, cla_Value = []\<rparr>
      | key # v # _ \<Rightarrow> \<lparr>cla_Key = key, cla_Value = strings_Trim v [CHR 0x22, CHR 0x27]\<rparr>)"

datatype 'e cmdline_error = CmdlineReadFailed string 'e | NoLines

definition CmdlineArgs ::
    "(string \<Rightarrow> 'e + string \<times> bool) \<Rightarrow> string \<Rightarrow> bool \<Rightarrow> ('e cmdline_error + CmdlineArg list) \<times> bool" where
  "CmdlineArgs Open cmdlineFilePath withinQuotes =
     (case ReadFileIntoLines Open cmdlineFilePath of
        Inl err \<Rightarrow> (Err (CmdlineReadFailed cmdlineFilePath err), withinQuotes)
      | Inr [] \<Rightarrow> (Err NoLines, withinQuotes)
      | Inr (line # _) \<Rightarrow>
          (case fields_func splitAfterSpace [] line withinQuotes of
             (cmdlineArgs, withinQuotes) \<Rightarrow>
               (Ok (map parse_arg (filter (\<lambda>words. \<not> prefix [CHR 0x22] words) cmdlineArgs)), withinQuotes)))"

subsection \<open>Modules\<close>

record Module =
  md_ModuleName :: string
  md_Instances :: uint64
  md_Proprietary :: bool
  md_OutOfTree :: bool
  md_Unsigned :: bool

text \<open>A line with fewer than three fields panics.\<close>

definition parse_module :: "string \<Rightarrow> Module option" where
  "parse_module line =
     (let fields = strings_Fields line in
      if length fields < 3 then None
      else
        let taint = (if length fields > 6 then fields ! 6 else []) in
        Some \<lparr>md_ModuleName = fields ! 0,
              md_Instances = (case strconv_ParseUint (fields ! 2) of Inl err \<Rightarrow> 0 | Inr n \<Rightarrow> of_nat n),
              md_Proprietary = strings_Contains taint ''P'', md_OutOfTree = strings_Contains taint ''O'',
              md_Unsigned = strings_Contains taint ''E''\<rparr>)"

datatype 'e modules_error = ModulesReadFailed string 'e | ShortLine

fun parse_modules :: "string list \<Rightarrow> 'e modules_error + Module list" where
  "parse_modules [] = Ok []"
| "parse_modules (line # lines) =
     (case parse_module line of
        None \<Rightarrow> Err ShortLine
      | Some m \<Rightarrow> and_then (parse_modules lines) (\<lambda>ms. Ok (m # ms)))"

definition system_Modules :: "(string \<Rightarrow> 'e + string \<times> bool) \<Rightarrow> string \<Rightarrow> 'e modules_error + Module list" where
  "system_Modules Open modulesFilePath =
     (case ReadFileIntoLines Open modulesFilePath of
        Inl err \<Rightarrow> Err (ModulesReadFailed modulesFilePath err)
      | Inr lines \<Rightarrow> parse_modules lines)"

definition ContainsModule :: "string \<Rightarrow> Module list \<Rightarrow> bool" where
  "ContainsModule key vals = list_ex (\<lambda>val. md_ModuleName val = key) vals"

subsection \<open>The collector\<close>

record osFeatureCollector =
  ofc_config :: OSFeatureStatsConfig
  ofc_procPath :: string
  ofc_osFeature :: "Int64Metric option"

definition NewOsFeatureCollectorOrDie ::
    "('e, 'k, 'w) census_lib \<Rightarrow> OSFeatureStatsConfig \<Rightarrow> string \<Rightarrow> ('k, 'w) metrics_state \<Rightarrow>
     ('e metric_error + osFeatureCollector) \<times> ('k, 'w) metrics_state" where
  "NewOsFeatureCollectorOrDie lib osFeatureConfig procPath st =
     (let oc = (\<lambda>osFeature. \<lparr>ofc_config = osFeatureConfig, ofc_procPath = procPath, ofc_osFeature = osFeature\<rparr>) in
      if DisplayName_of (osf_MetricsConfigs osFeatureConfig) ''system/os_feature'' \<noteq> []
      then run_then (new_int64 lib (osf_MetricsConfigs osFeatureConfig) OSFeatureID
             ''OS Features like GPU support, KTD kernel, third party modules as unknown modules. 1 if the feature is enabled and 0, if disabled.''
             ''1'' LastValue [featureLabel, valueLabel] st) (\<lambda>osFeature st. (Ok (oc osFeature), st))
      else (Ok (oc None), st))"

text \<open>The value of the last argument with a key, as \<^verbatim>\<open>strconv.ParseInt\<close> gives it, whatever error it reports.\<close>

fun feature_value :: "string \<Rightarrow> CmdlineArg list \<Rightarrow> int64 \<Rightarrow> int64" where
  "feature_value key [] v = v"
| "feature_value key (arg # args) v =
     feature_value key args (if cla_Key arg = key then word_of_int (fst (strconv_ParseInt (cla_Value arg))) else v)"

definition feature_sample :: "osFeatureCollector \<Rightarrow> string \<Rightarrow> int64 \<Rightarrow> 'f sample list" where
  "feature_sample ofc feature v = sample_i64 OSFeatureID (ofc_osFeature ofc) [(featureLabel, feature)] v"

definition recordFeaturesFromCmdline :: "osFeatureCollector \<Rightarrow> CmdlineArg list \<Rightarrow> 'f sample list" where
  "recordFeaturesFromCmdline ofc cmdlineArgs =
     feature_sample ofc ''KTD'' (feature_value ''csm.enabled'' cmdlineArgs 0) @
     feature_sample ofc ''UnifiedCgroupHierarchy'' (feature_value ''systemd.unified_cgroup_hierarchy'' cmdlineArgs 0) @
     feature_sample ofc ''KernelModuleIntegrity''
       (if feature_value ''module.sig_enforce'' cmdlineArgs 0 = 1 \<and> feature_value ''loadpin.enabled'' cmdlineArgs 0 = 1 then 1 else 0)"

text \<open>\<open>ReadFile\<close> gives the contents of the file, if any; \<open>Unmarshal\<close> the modules it could decode.\<close>

definition knownModules :: "(string \<Rightarrow> string option) \<Rightarrow> (string \<Rightarrow> Module list) \<Rightarrow> osFeatureCollector \<Rightarrow> Module list" where
  "knownModules ReadFile Unmarshal ofc =
     (case ReadFile (osf_KnownModulesConfigPath (ofc_config ofc)) of Some f \<Rightarrow> Unmarshal f | None \<Rightarrow> [])"

definition unknownModules :: "Module list \<Rightarrow> Module list \<Rightarrow> string list" where
  "unknownModules known modules =
     map md_ModuleName (filter (\<lambda>m. \<not> strings_Contains (md_ModuleName m) ''nvidia'' \<and> (md_OutOfTree m \<or> md_Proprietary m) \<and>
       \<not> ContainsModule (md_ModuleName m) known) modules)"

definition recordFeaturesFromModules ::
    "(string \<Rightarrow> string option) \<Rightarrow> (string \<Rightarrow> Module list) \<Rightarrow> osFeatureCollector \<Rightarrow> Module list \<Rightarrow> 'f sample list" where
  "recordFeaturesFromModules ReadFile Unmarshal ofc modules =
     (let unknown = unknownModules (knownModules ReadFile Unmarshal ofc) modules;
          hasGPUSupport = list_ex (\<lambda>m. strings_Contains (md_ModuleName m) ''nvidia'') modules
      in (if unknown \<noteq> []
          then sample_i64 OSFeatureID (ofc_osFeature ofc)
                 [(featureLabel, ''UnknownModules''), (valueLabel, strings_Join unknown '','')] 1
          else feature_sample ofc ''UnknownModules'' 0) @
         feature_sample ofc ''GPUSupport'' (if hasGPUSupport then 1 else 0))"

text \<open>A collection ends the process when a file cannot be read, and panics on a short line of modules.\<close>

datatype 'e os_exit = FatalCmdline "'e cmdline_error" | FatalModules "'e modules_error"

record 'e os_lib =
  ol_Open :: "string \<Rightarrow> 'e + string \<times> bool"
  ol_ReadFile :: "string \<Rightarrow> string option"
  ol_Unmarshal :: "string \<Rightarrow> Module list"

definition osFeatureCollector_collect ::
    "'e os_lib \<Rightarrow> osFeatureCollector \<Rightarrow> bool \<Rightarrow> ('e os_exit + 'f sample list) \<times> bool" where
  "osFeatureCollector_collect lib ofc withinQuotes =
     (if ofc_osFeature ofc = None then (Ok [], withinQuotes)
      else case CmdlineArgs (ol_Open lib) (filepath_Join [ofc_procPath ofc, ''/cmdline'']) withinQuotes of
        (Inl err, withinQuotes) \<Rightarrow> (Err (FatalCmdline err), withinQuotes)
      | (Inr cmdlineArgs, withinQuotes) \<Rightarrow>
          (case system_Modules (ol_Open lib) (filepath_Join [ofc_procPath ofc, ''/modules'']) of
             Inl err \<Rightarrow> (Err (FatalModules err), withinQuotes)
           | Inr modules \<Rightarrow>
               (Ok (recordFeaturesFromCmdline ofc cmdlineArgs @
                    recordFeaturesFromModules (ol_ReadFile lib) (ol_Unmarshal lib) ofc modules), withinQuotes)))"

subsection \<open>Lemmas\<close>

text \<open>An argument as it is written, and one that needs no quotes.\<close>

definition print_arg :: "CmdlineArg \<Rightarrow> string" where
  "print_arg arg = (if cla_Value arg = [] then cla_Key arg else cla_Key arg @ ''='' @ cla_Value arg)"

definition plain :: "string \<Rightarrow> bool" where
  "plain s \<longleftrightarrow> (\<forall>c \<in> set s. c \<notin> {CHR '' '', CHR ''='', CHR 0x22, CHR 0x27, CHR 0x0A, CHR 0x0D})"

definition plain_arg :: "CmdlineArg \<Rightarrow> bool" where
  "plain_arg arg \<longleftrightarrow> cla_Key arg \<noteq> [] \<and> plain (cla_Key arg) \<and> plain (cla_Value arg)"

lemma plain_simps [simp]: "plain []" "plain (c # s) \<longleftrightarrow> c \<notin> {CHR '' '', CHR ''='', CHR 0x22, CHR 0x27, CHR 0x0A, CHR 0x0D} \<and> plain s"
  by (auto simp: plain_def)

lemma parse_print_arg:
  assumes "plain_arg arg" shows "parse_arg (print_arg arg) = arg"
proof -
  obtain k v where arg: "arg = \<lparr>cla_Key = k, cla_Value = v\<rparr>" by (cases arg)
  then have k: "CHR ''='' \<notin> set k" and v: "CHR ''='' \<notin> set v" "CHR 0x22 \<notin> set v" "CHR 0x27 \<notin> set v"
    using assms by (auto simp: plain_arg_def plain_def)
  have "dropWhile (\<lambda>c. c \<in> set [CHR 0x22, CHR 0x27]) v = v" if "CHR 0x22 \<notin> set v" "CHR 0x27 \<notin> set v" for v
    using that by (cases v) auto
  from this [of v] this [of "rev v"] v have "strings_Trim v [CHR 0x22, CHR 0x27] = v" by (simp add: strings_Trim_def)
  with k v show ?thesis
    by (simp add: arg print_arg_def parse_arg_def strings_Split_no_sep strings_Split_append_sep)
qed

lemma space: "splitAfterSpace CHR '' '' False = (True, False)"
  by (simp add: splitAfterSpace_def)

lemma fields_word:
  "\<forall>c \<in> set w. c \<noteq> CHR '' '' \<and> c \<noteq> CHR 0x22 \<Longrightarrow>
   fields_func splitAfterSpace cur (w @ rest) False = fields_func splitAfterSpace (cur @ w) rest False"
  by (induction w arbitrary: cur) (auto simp: splitAfterSpace_def)

lemma fields_words:
  "\<forall>w \<in> set ws. w \<noteq> [] \<and> (\<forall>c \<in> set w. c \<noteq> CHR '' '' \<and> c \<noteq> CHR 0x22) \<Longrightarrow>
   fields_func splitAfterSpace [] (strings_Join ws '' '') False = (ws, False)"
proof (induction ws)
  case (Cons w ws)
  show ?case
  proof (cases ws)
    case Nil
    with Cons.prems fields_word [of w "[]" "[]"] show ?thesis by simp
  next
    case (Cons w2 ws2)
    with Cons.prems have w: "\<forall>c \<in> set w. c \<noteq> CHR '' '' \<and> c \<noteq> CHR 0x22" "w \<noteq> []" by auto
    have "fields_func splitAfterSpace w ('' '' @ strings_Join ws '' '') False = (w # ws, False)"
      using Cons.IH Cons.prems w(2) by (simp add: space)
    with fields_word [OF w(1), of "[]" "'' '' @ strings_Join ws '' ''"] Cons show ?thesis by simp
  qed
qed simp

lemma scan_one_line:
  "CHR 0x0A \<notin> set line \<Longrightarrow> CHR 0x0D \<notin> set line \<Longrightarrow> length line < 65536 \<Longrightarrow> scan_lines (line @ [nl]) = Some [line]"
  by (auto simp: scan_lines_def drop_cr_def strings_TrimSuffix_def strings_Split_append_sep suffix_def)

lemma print_arg_plain:
  assumes "plain_arg arg"
  shows "print_arg arg \<noteq> []"
    and "c \<in> set (print_arg arg) \<Longrightarrow> c \<notin> {CHR '' '', CHR 0x22, CHR 0x0A, CHR 0x0D}"
  using assms by (auto simp: plain_arg_def plain_def print_arg_def split: if_splits)

lemma set_strings_Join: "set (strings_Join ws sep) \<subseteq> (\<Union>w \<in> set ws. set w) \<union> set sep"
  by (induction ws sep rule: strings_Join.induct) auto

lemma not_quoted: "plain_arg arg \<Longrightarrow> \<not> prefix [CHR 0x22] (print_arg arg)"
  using print_arg_plain by (cases "print_arg arg") fastforce+

lemma parse_modules_short:
  "parse_modules lines = Err ShortLine \<longleftrightarrow> (\<exists>line \<in> set lines. length (strings_Fields line) < 3)"
  "parse_modules lines \<noteq> Err (ModulesReadFailed path err)"
  by (induction lines) (auto simp: parse_module_def Let_def and_then_def split: sum.splits modules_error.splits)

subsection \<open>Properties\<close>


definition sample_args :: "CmdlineArg list" where
  "sample_args = [\<lparr>cla_Key = ''quiet'', cla_Value = []\<rparr>, \<lparr>cla_Key = ''csm.enabled'', cla_Value = ''1''\<rparr>]"


text \<open>An open quote in the file changes what the next reading of the same file gives.\<close>

lemma open_quote_leaks:
  assumes "Open path = Ok (''a b='' @ [CHR 0x22] @ [nl], False)"
  shows "CmdlineArgs Open path False =
           (Ok [\<lparr>cla_Key = ''a'', cla_Value = []\<rparr>, \<lparr>cla_Key = ''b'', cla_Value = []\<rparr>], True)"
    and "CmdlineArgs Open path True = (Ok [\<lparr>cla_Key = ''a b'', cla_Value = []\<rparr>], False)"
proof -
  have "scan_lines ((''a b='' @ [CHR 0x22]) @ [nl]) = Some [''a b='' @ [CHR 0x22]]" by (rule scan_one_line) simp_all
  then have line: "ReadFileIntoLines Open path = Ok [''a b='' @ [CHR 0x22]]"
    using assms by (simp add: ReadFileIntoLines_def)
  have "fields_func splitAfterSpace [] (''a b='' @ [CHR 0x22]) False = ([''a'', ''b='' @ [CHR 0x22]], True)"
    "fields_func splitAfterSpace [] (''a b='' @ [CHR 0x22]) True = ([''a b='' @ [CHR 0x22]], False)"
    "parse_arg ''a'' = \<lparr>cla_Key = ''a'', cla_Value = []\<rparr>"
    "parse_arg (''b='' @ [CHR 0x22]) = \<lparr>cla_Key = ''b'', cla_Value = []\<rparr>"
    "parse_arg (''a b='' @ [CHR 0x22]) = \<lparr>cla_Key = ''a b'', cla_Value = []\<rparr>"
    by code_simp+
  then show "CmdlineArgs Open path False =
           (Ok [\<lparr>cla_Key = ''a'', cla_Value = []\<rparr>, \<lparr>cla_Key = ''b'', cla_Value = []\<rparr>], True)"
    and "CmdlineArgs Open path True = (Ok [\<lparr>cla_Key = ''a b'', cla_Value = []\<rparr>], False)"
    by (simp_all add: CmdlineArgs_def line)
qed

text \<open>The value of an argument ends at its second equality sign.\<close>

lemma value_cut: "parse_arg ''root=PARTUUID=1234'' = \<lparr>cla_Key = ''root'', cla_Value = ''PARTUUID''\<rparr>"
  by code_simp

text \<open>A line of the modules file with fewer than three fields, as a blank one, panics.\<close>

lemma short_line_panics:
  assumes "ReadFileIntoLines Open path = Ok lines" "line \<in> set lines" "length (strings_Fields line) < 3"
  shows "system_Modules Open path = Err ShortLine"
  using assms parse_modules_short(1) [of lines] by (auto simp: system_Modules_def)

text \<open>A file that cannot be read to its end counts as an empty one.\<close>

lemma read_error_is_empty: "Open path = Ok (contents, True) \<Longrightarrow> ReadFileIntoLines Open path = Ok []"
  by (simp add: ReadFileIntoLines_def)

end
