(* ===== verification/Host_Collector.thy ===== *)
theory Host_Collector
  imports Stats_Metrics
begin

text \<open>
  The collector of the uptime of the host (\<^verbatim>\<open>pkg/systemstatsmonitor/host_collector.go\<close>) and the version of
  the operating system it labels the metric with (\<^verbatim>\<open>pkg/util/helpers_linux.go\<close>). The parser of
  \<^verbatim>\<open>/etc/os-release\<close> and the calls of gopsutil are arguments.
\<close>

subsection \<open>The version of the operating system\<close>

definition osReleasePath :: string where "osReleasePath = ''/etc/os-release''"

datatype 'e os_version_error = OsReleaseUnreadable 'e | UnsupportedID string

definition getCOSVersion :: "(string \<rightharpoonup> string) \<Rightarrow> string" where
  "getCOSVersion osReleaseMap =
     map_get [] osReleaseMap ''ID'' @ '' '' @ map_get [] osReleaseMap ''VERSION'' @ ''-'' @ map_get [] osReleaseMap ''BUILD_ID''"

definition getDebianVersion :: "(string \<rightharpoonup> string) \<Rightarrow> string" where
  "getDebianVersion osReleaseMap = map_get [] osReleaseMap ''ID'' @ '' '' @ map_get [] osReleaseMap ''VERSION''"

definition debian_like :: "string list" where
  "debian_like = [''debian'', ''ubuntu'', ''centos'', ''rocky'', ''rhel'', ''ol'', ''amzn'', ''sles'', ''mariner'', ''azurelinux'', ''flatcar'']"

definition getOSVersion :: "(string \<Rightarrow> 'e + (string \<rightharpoonup> string)) \<Rightarrow> string \<Rightarrow> 'e os_version_error + string" where
  "getOSVersion osrelease_ReadFile path =
     (case osrelease_ReadFile path of
        Inl err \<Rightarrow> Err (OsReleaseUnreadable err)
      | Inr osReleaseMap \<Rightarrow>
          let ID = map_get [] osReleaseMap ''ID'' in
          if ID = ''cos'' then Ok (getCOSVersion osReleaseMap)
          else if ID \<in> set debian_like then Ok (getDebianVersion osReleaseMap)
          else Err (UnsupportedID ID))"

definition GetOSVersion :: "(string \<Rightarrow> 'e + (string \<rightharpoonup> string)) \<Rightarrow> 'e os_version_error + string" where
  "GetOSVersion osrelease_ReadFile = getOSVersion osrelease_ReadFile osReleasePath"

subsection \<open>The collector\<close>

record hostCollector =
  hc_tags :: labels
  hc_uptime :: "Int64Metric option"

datatype 'e host_fatal = NoKernelVersion 'e | NoOSVersion "'e os_version_error" | HostMetricNotCreated "'e metric_error"

record 'e host_lib =
  hl_KernelVersion :: "'e + string"
  hl_osrelease :: "string \<Rightarrow> 'e + (string \<rightharpoonup> string)"

definition NewHostCollectorOrDie ::
    "('e, 'k, 'w) census_lib \<Rightarrow> 'e host_lib \<Rightarrow> HostStatsConfig \<Rightarrow> ('k, 'w) metrics_state \<Rightarrow>
     ('e host_fatal + hostCollector) \<times> ('k, 'w) metrics_state" where
  "NewHostCollectorOrDie lib host hostConfig st =
     (case hl_KernelVersion host of
        Inl err \<Rightarrow> (Err (NoKernelVersion err), st)
      | Inr kernelVersion \<Rightarrow>
          (case GetOSVersion (hl_osrelease host) of
             Inl err \<Rightarrow> (Err (NoOSVersion err), st)
           | Inr osVersion \<Rightarrow>
               let tags = [(''kernel_version'', kernelVersion), (''os_version'', osVersion)] in
               if DisplayName_of (host_MetricsConfigs hostConfig) ''host/uptime'' \<noteq> []
               then (case new_int64 lib (host_MetricsConfigs hostConfig) HostUptimeID ''The uptime of the operating system'' ''second''
                            LastValue [''kernel_version'', ''os_version''] st of
                       (Inl err, st) \<Rightarrow> (Err (HostMetricNotCreated err), st)
                     | (Inr uptime, st) \<Rightarrow> (Ok \<lparr>hc_tags = tags, hc_uptime = uptime\<rparr>, st))
               else (Ok \<lparr>hc_tags = tags, hc_uptime = None\<rparr>, st)))"

text \<open>\<open>Uptime\<close> is the answer of \<^verbatim>\<open>host.Uptime\<close>, in seconds.\<close>

definition hostCollector_collect :: "'e + uint64 \<Rightarrow> hostCollector \<Rightarrow> 'f sample list" where
  "hostCollector_collect Uptime hc =
     (case Uptime of Inl err \<Rightarrow> [] | Inr uptime \<Rightarrow> sample_i64 HostUptimeID (hc_uptime hc) (hc_tags hc) uptime)"

subsection \<open>Lemmas\<close>

text \<open>The collector can be made exactly on the systems in the list, and then the label names the system.\<close>

lemma getOSVersion_supported:
  assumes "osrelease path = Ok m"
  shows "isl (getOSVersion osrelease path) \<longleftrightarrow> map_get [] m ''ID'' \<notin> set (''cos'' # debian_like)"
    and "getOSVersion osrelease path = Ok version \<Longrightarrow> prefix (map_get [] m ''ID'' @ '' '') version"
  using assms by (auto simp: getOSVersion_def getCOSVersion_def getDebianVersion_def Let_def prefix_def split: if_splits)

end
