(* ===== verification/System_Stats_Monitor.thy ===== *)
theory System_Stats_Monitor
  imports Tomb_Contract Disk_Collector Cpu_Collector Net_Collector Memory_Collector Os_Feature Host_Collector
begin

text \<open>
  The system stats monitor (\<^verbatim>\<open>pkg/systemstatsmonitor/system_stats_monitor.go\<close>): making the collectors that
  are configured, one round of collections, and the loop that runs a round at every tick until the
  tomb tells it to stop.
\<close>

subsection \<open>Making the monitor\<close>

record 'f systemStatsMonitor =
  ssm_configPath :: string
  ssm_config :: SystemStatsConfig
  ssm_cpuCollector :: "'f cpuCollector option"
  ssm_diskCollector :: "diskCollector option"
  ssm_hostCollector :: "hostCollector option"
  ssm_memoryCollector :: "memoryCollector option"
  ssm_netCollector :: "netCollector option"
  ssm_osFeatureCollector :: "osFeatureCollector option"

datatype 'e stats_fatal =
    StatsConfigUnreadable string 'e
  | StatsConfigMalformed string 'e
  | StatsConfigNotApplied string "'e ssc_error"
  | StatsConfigInvalid string "'e ssc_error"
  | StatsMetricFatal "'e metric_error"
  | StatsHostFatal "'e host_fatal"
  | StatsNetFatal "'e net_fatal"

record ('e, 'k, 'w) stats_lib =
  sl_ReadFile :: "string \<Rightarrow> 'e + string"
  sl_Unmarshal :: "string \<Rightarrow> 'e + SystemStatsConfig"
  sl_Stat :: "string \<Rightarrow> 'e option"
  sl_host :: "'e host_lib"
  sl_census :: "('e, 'k, 'w) census_lib"

definition load_config :: "('e, 'k, 'w) stats_lib \<Rightarrow> string \<Rightarrow> 'e stats_fatal + SystemStatsConfig" where
  "load_config lib configPath =
     and_then (map_sum (StatsConfigUnreadable configPath) id (sl_ReadFile lib configPath)) (\<lambda>f.
     and_then (map_sum (StatsConfigMalformed configPath) id (sl_Unmarshal lib f)) (\<lambda>config.
     and_then (map_sum (StatsConfigNotApplied configPath) id (SystemStatsConfig_ApplyConfiguration config)) (\<lambda>config.
       case SystemStatsConfig_Validate (sl_Stat lib) config of
         Some err \<Rightarrow> Err (StatsConfigInvalid configPath err)
       | None \<Rightarrow> Ok config)))"

text \<open>A collector is made when at least one metric is configured for it.\<close>

definition when_configured ::
    "MetricsConfigs \<Rightarrow> ('d \<Rightarrow> 'e) \<Rightarrow> ('s \<Rightarrow> ('d + 'c) \<times> 's) \<Rightarrow> 's \<Rightarrow> ('e + 'c option) \<times> 's" where
  "when_configured cfgs fatal create st =
     (if cfgs = Map.empty then (Ok None, st)
      else case create st of (r, st) \<Rightarrow> (map_sum fatal Some r, st))"

definition known_modules_path :: "string \<Rightarrow> SystemStatsConfig \<Rightarrow> SystemStatsConfig" where
  "known_modules_path configPath config =
     (let osf = ssc_OsFeatureConfig config in
      if osf_MetricsConfigs osf \<noteq> Map.empty \<and> \<not> filepath_IsAbs (osf_KnownModulesConfigPath osf)
      then config\<lparr>ssc_OsFeatureConfig :=
             osf\<lparr>osf_KnownModulesConfigPath := filepath_Join [filepath_Dir configPath, osf_KnownModulesConfigPath osf]\<rparr>\<rparr>
      else config)"

definition NewSystemStatsMonitorOrDie ::
    "('e, 'k, 'w) stats_lib \<Rightarrow> string \<Rightarrow> ('k, 'w) metrics_state \<Rightarrow>
     ('e stats_fatal + 'f systemStatsMonitor) \<times> ('k, 'w) metrics_state" where
  "NewSystemStatsMonitorOrDie lib configPath st =
     (case load_config lib configPath of
        Inl err \<Rightarrow> (Err err, st)
      | Inr config \<Rightarrow>
          let config' = known_modules_path configPath config; census = sl_census lib in
          run_then (when_configured (cpu_MetricsConfigs (ssc_CPUConfig config)) StatsMetricFatal
                      (NewCPUCollectorOrDie census (ssc_CPUConfig config) (ssc_ProcPath config)) st) (\<lambda>cpuC st.
          run_then (when_configured (disk_MetricsConfigs (ssc_DiskConfig config)) StatsMetricFatal
                      (NewDiskCollectorOrDie census (ssc_DiskConfig config)) st) (\<lambda>diskC st.
          run_then (when_configured (host_MetricsConfigs (ssc_HostConfig config)) StatsHostFatal
                      (NewHostCollectorOrDie census (sl_host lib) (ssc_HostConfig config)) st) (\<lambda>hostC st.
          run_then (when_configured (mem_MetricsConfigs (ssc_MemoryConfig config)) StatsMetricFatal
                      (NewMemoryCollectorOrDie census (ssc_MemoryConfig config)) st) (\<lambda>memoryC st.
          run_then (when_configured (osf_MetricsConfigs (ssc_OsFeatureConfig config)) StatsMetricFatal
                      (NewOsFeatureCollectorOrDie census (ssc_OsFeatureConfig config') (ssc_ProcPath config)) st) (\<lambda>osC st.
          run_then (when_configured (net_MetricsConfigs (ssc_NetConfig config)) StatsNetFatal
                      (NewNetCollectorOrDie census (ssc_NetConfig config) (ssc_ProcPath config)) st) (\<lambda>netC st.
            (Ok \<lparr>ssm_configPath = configPath, ssm_config = config', ssm_cpuCollector = cpuC, ssm_diskCollector = diskC,
                 ssm_hostCollector = hostC, ssm_memoryCollector = memoryC, ssm_netCollector = netC,
                 ssm_osFeatureCollector = osC\<rparr>, st))))))))"

subsection \<open>One round of collections\<close>

text \<open>
  What the node answers during a round. A nil collector collects nothing. A round may panic in the
  CPU or the network collector, or end the process in the collector of features.
\<close>

record ('e, 'f) stats_node =
  sn_cpu :: "('e, 'f) cpu_lib"
  sn_disk :: "('e, 'f) disk_lib"
  sn_now :: gotime
  sn_Uptime :: "'e + uint64"
  sn_mem :: "'e mem_lib"
  sn_os :: "'e os_lib"
  sn_net :: "'e net_lib"
  sn_order :: "string \<Rightarrow> MetricID list"

datatype 'e stats_exit = CpuPanic | OsFeatureExit "'e os_exit" | NetPanic | TickerPanic | TombPanic

definition collect_cpu :: "'f float64 \<Rightarrow> ('e, 'f) stats_node \<Rightarrow> 'f systemStatsMonitor \<Rightarrow> 'e stats_exit + 'f sample list \<times> 'f systemStatsMonitor" where
  "collect_cpu fo node ssm =
     (case ssm_cpuCollector ssm of
        None \<Rightarrow> Ok ([], ssm)
      | Some cc \<Rightarrow>
          (case cpuCollector_collect fo (sn_cpu node) cc of
             None \<Rightarrow> Err CpuPanic
           | Some (samples, cc) \<Rightarrow> Ok (samples, ssm\<lparr>ssm_cpuCollector := Some cc\<rparr>)))"

definition collect_disk :: "'f float64 \<Rightarrow> ('e, 'f) stats_node \<Rightarrow> 'f systemStatsMonitor \<Rightarrow> 'f sample list \<times> 'f systemStatsMonitor" where
  "collect_disk fo node ssm =
     (case ssm_diskCollector ssm of
        None \<Rightarrow> ([], ssm)
      | Some dc \<Rightarrow>
          (case diskCollector_collect fo (sn_disk node) (sn_now node) dc of
             (samples, dc) \<Rightarrow> (samples, ssm\<lparr>ssm_diskCollector := Some dc\<rparr>)))"

definition collect_round ::
    "'f float64 \<Rightarrow> ('e, 'f) stats_node \<Rightarrow> 'f systemStatsMonitor \<Rightarrow> bool \<Rightarrow>
     'e stats_exit + 'f sample list \<times> 'f systemStatsMonitor \<times> bool" where
  "collect_round fo node ssm withinQuotes =
     and_then (collect_cpu fo node ssm) (\<lambda>(cpu_samples, ssm).
       case collect_disk fo node ssm of (disk_samples, ssm) \<Rightarrow>
       let host_samples = (case ssm_hostCollector ssm of None \<Rightarrow> [] | Some hc \<Rightarrow> hostCollector_collect (sn_Uptime node) hc);
           memory_samples = (case ssm_memoryCollector ssm of None \<Rightarrow> [] | Some mc \<Rightarrow> memoryCollector_collect fo (sn_mem node) mc)
       in case (case ssm_osFeatureCollector ssm of
                  None \<Rightarrow> (Ok [], withinQuotes)
                | Some ofc \<Rightarrow> osFeatureCollector_collect (sn_os node) ofc withinQuotes) of
            (Inl err, _) \<Rightarrow> Err (OsFeatureExit err)
          | (Inr os_samples, withinQuotes) \<Rightarrow>
              (case (case ssm_netCollector ssm of
                       None \<Rightarrow> Some []
                     | Some nc \<Rightarrow> netCollector_collect (sn_net node) (sn_order node) nc) of
                 None \<Rightarrow> Err NetPanic
               | Some net_samples \<Rightarrow>
                   Ok (cpu_samples @ disk_samples @ host_samples @ memory_samples @ os_samples @ net_samples,
                       ssm, withinQuotes)))"

subsection \<open>The loop\<close>

datatype 'e stats_phase = Starting | Waiting | Returned | Exited "'e stats_exit"

text \<open>
  The state of the goroutine: \<open>sp_tick\<close> says that a tick is in the channel of the ticker, which holds one;
  \<open>sp_samples\<close> is everything recorded so far, \<open>sp_nodes\<close> what the node answered in each completed round
  and \<open>sp_ticks\<close> the number of ticks.
\<close>

record ('e, 'f) stats_loop =
  sp_phase :: "'e stats_phase"
  sp_monitor :: "'f systemStatsMonitor"
  sp_quotes :: bool
  sp_tick :: bool
  sp_tomb :: Tomb
  sp_samples :: "'f sample list"
  sp_nodes :: "('e, 'f) stats_node list"
  sp_ticks :: nat

text \<open>\<^verbatim>\<open>Start\<close> starts the goroutine and returns no channel and no error.\<close>

definition systemStatsMonitor_Start :: "'f systemStatsMonitor \<Rightarrow> bool \<Rightarrow> ('e, 'f) stats_loop \<times> ('e + bool)" where
  "systemStatsMonitor_Start ssm withinQuotes =
     (\<lparr>sp_phase = Starting, sp_monitor = ssm, sp_quotes = withinQuotes, sp_tick = False, sp_tomb = NewTomb, sp_samples = [],
       sp_nodes = [], sp_ticks = 0\<rparr>, Ok False)"

definition do_round :: "'f float64 \<Rightarrow> ('e, 'f) stats_node \<Rightarrow> ('e, 'f) stats_loop \<Rightarrow> ('e, 'f) stats_loop" where
  "do_round fo node s =
     (case collect_round fo node (sp_monitor s) (sp_quotes s) of
        Inl err \<Rightarrow> s\<lparr>sp_phase := Exited err\<rparr>
      | Inr (samples, ssm, q) \<Rightarrow>
          s\<lparr>sp_phase := Waiting, sp_monitor := ssm, sp_quotes := q, sp_samples := sp_samples s @ samples,
            sp_nodes := sp_nodes s @ [node]\<rparr>)"

definition loop_return :: "('e, 'f) stats_loop \<Rightarrow> ('e, 'f) stats_loop" where
  "loop_return s =
     (case Tomb_Done (sp_tomb s) of
        None \<Rightarrow> s\<lparr>sp_phase := Exited TombPanic\<rparr>
      | Some t \<Rightarrow> s\<lparr>sp_phase := Returned, sp_tomb := t\<rparr>)"

text \<open>The metrics of the network collector are ranged over in some order, each once.\<close>

definition order_ok :: "'f systemStatsMonitor \<Rightarrow> ('e, 'f) stats_node \<Rightarrow> bool" where
  "order_ok ssm node \<longleftrightarrow>
     (case ssm_netCollector ssm of None \<Rightarrow> True | Some nc \<Rightarrow> \<forall>iface. map_order (nc_recorder nc) (sn_order node iface))"

text \<open>\<^verbatim>\<open>time.NewTicker\<close> panics unless the interval is positive.\<close>

inductive stats_loop_step :: "'f float64 \<Rightarrow> ('e, 'f) stats_loop \<Rightarrow> ('e, 'f) stats_loop \<Rightarrow> bool" for fo where
  no_ticker: "sp_phase s = Starting \<Longrightarrow> ssc_InvokeInterval (ssm_config (sp_monitor s)) \<le> 0 \<Longrightarrow>
     stats_loop_step fo s (s\<lparr>sp_phase := Exited TickerPanic\<rparr>)"
| first_stop: "sp_phase s = Starting \<Longrightarrow> 0 < ssc_InvokeInterval (ssm_config (sp_monitor s)) \<Longrightarrow> Tomb_Stopping (sp_tomb s) \<Longrightarrow>
     stats_loop_step fo s (loop_return s)"
| first_round: "sp_phase s = Starting \<Longrightarrow> 0 < ssc_InvokeInterval (ssm_config (sp_monitor s)) \<Longrightarrow> \<not> Tomb_Stopping (sp_tomb s) \<Longrightarrow>
     order_ok (sp_monitor s) node \<Longrightarrow> stats_loop_step fo s (do_round fo node s)"
| tick_round: "sp_phase s = Waiting \<Longrightarrow> sp_tick s \<Longrightarrow> order_ok (sp_monitor s) node \<Longrightarrow>
     stats_loop_step fo s (do_round fo node (s\<lparr>sp_tick := False\<rparr>))"
| loop_stop: "sp_phase s = Waiting \<Longrightarrow> Tomb_Stopping (sp_tomb s) \<Longrightarrow> stats_loop_step fo s (loop_return s)"

text \<open>
  The surroundings: the ticker sends a tick, which is dropped when one is waiting already, and
  \<^verbatim>\<open>Stop\<close> closes the channel of the tomb.
\<close>

inductive stats_env_step :: "('e, 'f) stats_loop \<Rightarrow> ('e, 'f) stats_loop \<Rightarrow> bool" where
  ticker: "sp_phase s = Waiting \<Longrightarrow> stats_env_step s (s\<lparr>sp_tick := True, sp_ticks := Suc (sp_ticks s)\<rparr>)"
| systemStatsMonitor_Stop: "Tomb_Stop_request (sp_tomb s) = Some t \<Longrightarrow> stats_env_step s (s\<lparr>sp_tomb := t\<rparr>)"

inductive_cases stats_loop_stepE: "stats_loop_step fo s s'"
inductive_cases stats_env_stepE: "stats_env_step s s'"

abbreviation stats_step :: "'f float64 \<Rightarrow> ('e, 'f) stats_loop \<Rightarrow> ('e, 'f) stats_loop \<Rightarrow> bool" where
  "stats_step fo \<equiv> (\<lambda>s s'. stats_loop_step fo s s' \<or> stats_env_step s s')"

subsection \<open>Invariants of the loop\<close>

abbreviation (input) os_round :: "('e, 'f) stats_node \<Rightarrow> 'f systemStatsMonitor \<Rightarrow> bool \<Rightarrow> ('e os_exit + 'f sample list) \<times> bool" where
  "os_round node ssm q \<equiv>
     (case ssm_osFeatureCollector ssm of None \<Rightarrow> (Ok [], q) | Some ofc \<Rightarrow> osFeatureCollector_collect (sn_os node) ofc q)"

abbreviation (input) net_round :: "('e, 'f) stats_node \<Rightarrow> 'f systemStatsMonitor \<Rightarrow> 'f sample list option" where
  "net_round node ssm \<equiv>
     (case ssm_netCollector ssm of None \<Rightarrow> Some [] | Some nc \<Rightarrow> netCollector_collect (sn_net node) (sn_order node) nc)"

lemma collect_round_Ok:
  assumes "collect_round fo node ssm q = Ok (samples, ssm', q')"
  obtains s1 ssm1 ds os ns where "collect_cpu fo node ssm = Ok (s1, ssm1)" "collect_disk fo node ssm1 = (ds, ssm')"
    "os_round node ssm' q = (Ok os, q')" "net_round node ssm' = Some ns"
    "samples = s1 @ ds @ (case ssm_hostCollector ssm' of None \<Rightarrow> [] | Some hc \<Rightarrow> hostCollector_collect (sn_Uptime node) hc) @
       (case ssm_memoryCollector ssm' of None \<Rightarrow> [] | Some mc \<Rightarrow> memoryCollector_collect fo (sn_mem node) mc) @ os @ ns"
proof -
  obtain s1 ssm1 where one: "collect_cpu fo node ssm = Ok (s1, ssm1)"
    using assms by (auto simp: collect_round_def)
  obtain ds ssm2 where two: "collect_disk fo node ssm1 = (ds, ssm2)" by (metis surj_pair)
  obtain r q2 where os: "os_round node ssm2 q = (r, q2)" by (metis surj_pair)
  obtain os' where r: "r = Ok os'"
    using assms by (cases r) (simp_all add: collect_round_def one two os Let_def)
  obtain ns where ns: "net_round node ssm2 = Some ns"
    using assms by (cases "net_round node ssm2") (simp_all add: collect_round_def one two os r Let_def)
  from assms have "ssm2 = ssm'" "q2 = q'" "samples = s1 @ ds @
      (case ssm_hostCollector ssm2 of None \<Rightarrow> [] | Some hc \<Rightarrow> hostCollector_collect (sn_Uptime node) hc) @
      (case ssm_memoryCollector ssm2 of None \<Rightarrow> [] | Some mc \<Rightarrow> memoryCollector_collect fo (sn_mem node) mc) @ os' @ ns"
    by (auto simp: collect_round_def one two os r ns Let_def)
  with one two os r ns show thesis by (intro that [of s1 ssm1 ds os' ns]) simp_all
qed

lemma collect_round_frame:
  assumes "collect_round fo node ssm q = Ok (samples, ssm', q')"
  shows "ssm_config ssm' = ssm_config ssm" "ssm_netCollector ssm' = ssm_netCollector ssm"
proof -
  from collect_round_Ok [OF assms] obtain s1 ssm1 ds
    where "collect_cpu fo node ssm = Ok (s1, ssm1)" "collect_disk fo node ssm1 = (ds, ssm')" by metis
  then show "ssm_config ssm' = ssm_config ssm" "ssm_netCollector ssm' = ssm_netCollector ssm"
    by (auto simp: collect_cpu_def collect_disk_def split: option.splits prod.splits)
qed

lemma collect_round_exit:
  "collect_round fo node ssm q = Err err \<Longrightarrow> err \<noteq> TickerPanic \<and> err \<noteq> TombPanic"
  by (auto simp: collect_round_def collect_cpu_def collect_disk_def Let_def and_then_def
      split: option.splits prod.splits sum.splits)

lemma do_round_cases:
  obtains (exit) err where "collect_round fo node (sp_monitor s) (sp_quotes s) = Err err" "do_round fo node s = s\<lparr>sp_phase := Exited err\<rparr>"
  | (round) samples ssm q where "collect_round fo node (sp_monitor s) (sp_quotes s) = Ok (samples, ssm, q)"
      "do_round fo node s = s\<lparr>sp_phase := Waiting, sp_monitor := ssm, sp_quotes := q, sp_samples := sp_samples s @ samples,
         sp_nodes := sp_nodes s @ [node]\<rparr>"
  by (cases "collect_round fo node (sp_monitor s) (sp_quotes s)") (auto simp: do_round_def)

definition stats_inv :: "'f systemStatsMonitor \<Rightarrow> ('e, 'f) stats_loop \<Rightarrow> bool" where
  "stats_inv ssm s \<longleftrightarrow>
     ssm_config (sp_monitor s) = ssm_config ssm \<and> ssm_netCollector (sp_monitor s) = ssm_netCollector ssm \<and>
     (tomb_done (sp_tomb s) \<longleftrightarrow> sp_phase s = Returned) \<and> sp_phase s \<noteq> Exited TombPanic \<and>
     (sp_phase s = Exited TickerPanic \<longrightarrow> ssc_InvokeInterval (ssm_config ssm) \<le> 0) \<and>
     (sp_phase s = Starting \<longrightarrow> sp_nodes s = [] \<and> \<not> sp_tick s) \<and>
     length (sp_nodes s) + (if sp_tick s then 1 else 0) \<le> Suc (sp_ticks s)"

lemma stats_inv_round:
  assumes "stats_inv ssm s" "sp_phase s = Starting \<or> sp_phase s = Waiting" "length (sp_nodes s) \<le> sp_ticks s" "\<not> sp_tick s"
  shows "stats_inv ssm (do_round fo node s)"
proof (cases rule: do_round_cases [of fo node s])
  case (exit err)
  with collect_round_exit [OF exit(1)] assms show ?thesis by (auto simp: stats_inv_def)
next
  case (round samples ssm' q)
  with collect_round_frame [OF round(1)] assms show ?thesis by (auto simp: stats_inv_def)
qed

lemma stats_inv_return:
  "stats_inv ssm s \<Longrightarrow> sp_phase s = Starting \<or> sp_phase s = Waiting \<Longrightarrow>
   stats_inv ssm (loop_return s) \<and> sp_phase (loop_return s) = Returned \<and> sp_samples (loop_return s) = sp_samples s \<and>
   tomb_stop (sp_tomb (loop_return s)) = tomb_stop (sp_tomb s)"
  by (auto simp: stats_inv_def loop_return_def Tomb_Done_def)

lemma stats_inv_loop [npd_inv]: "stats_loop_step fo s s' \<Longrightarrow> stats_inv ssm s \<Longrightarrow> stats_inv ssm s'"
proof (induction rule: stats_loop_step.induct)
  case (first_round s node)
  then show ?case by (intro stats_inv_round) (auto simp: stats_inv_def)
next
  case (tick_round s node)
  then show ?case by (intro stats_inv_round) (auto simp: stats_inv_def)
qed (simp_all add: stats_inv_return, simp add: stats_inv_def)

lemma stats_inv_env [npd_inv]: "stats_env_step s s' \<Longrightarrow> stats_inv ssm s \<Longrightarrow> stats_inv ssm s'"
  by (induction rule: stats_env_step.induct) (auto simp: stats_inv_def Tomb_Stop_request_def split: if_splits)

lemma stats_inv_start: "stats_inv ssm (fst (systemStatsMonitor_Start ssm q))"
  by (simp add: stats_inv_def systemStatsMonitor_Start_def NewTomb_def)

lemma do_round_tomb [simp]: "sp_tomb (do_round fo node s) = sp_tomb s"
  by (auto simp: do_round_def split: sum.splits prod.splits)

lemma do_round_samples: "\<exists>more. sp_samples (do_round fo node s) = sp_samples s @ more"
  by (auto simp: do_round_def split: sum.splits prod.splits)

lemma loop_return_simps [simp]:
  "sp_samples (loop_return s) = sp_samples s" "tomb_stop (sp_tomb (loop_return s)) = tomb_stop (sp_tomb s)"
  by (auto simp: loop_return_def Tomb_Done_def)

interpretation stats_loop: tomb_loop "stats_inv ssm" "stats_loop_step fo" stats_env_step sp_tomb sp_samples for ssm fo
proof unfold_locales
  fix s s' assume step: "stats_loop_step fo s s'"
  then show "tomb_stop (sp_tomb s') = tomb_stop (sp_tomb s)" "\<exists>more. sp_samples s' = sp_samples s @ more"
    using do_round_samples [of fo _ "s\<lparr>sp_tick := False\<rparr>"] by (auto elim!: stats_loop_stepE intro: do_round_samples)
  show "\<not> tomb_done (sp_tomb s)" if "stats_inv ssm s"
    using step that by (auto simp: stats_inv_def elim: stats_loop_stepE)
next
  fix s s' assume step: "stats_env_step s s'"
  then show "tomb_done (sp_tomb s') = tomb_done (sp_tomb s)" "sp_samples s' = sp_samples s"
    "tomb_stop (sp_tomb s) \<Longrightarrow> tomb_stop (sp_tomb s')"
    by (auto simp: Tomb_Stop_request_def split: if_splits elim!: stats_env_stepE)
qed (auto intro: stats_inv_loop stats_inv_env)

lemma stats_inv_reachable: "(stats_step fo)\<^sup>*\<^sup>* (fst (systemStatsMonitor_Start ssm q)) s \<Longrightarrow> stats_inv ssm s"
  by (rule stats_loop.reach_inv) (auto intro: stats_inv_start)

subsection \<open>The disk counters over all rounds\<close>

text \<open>No other collector adds to a metric of the disks.\<close>

definition disk_id :: "MetricID \<Rightarrow> bool" where
  "disk_id i \<longleftrightarrow> take 5 i = ''disk/''"

lemma disk_id_other [simp]:
  assumes "disk_id i"
  shows "SystemProcessesTotal \<noteq> i" "SystemProcsRunning \<noteq> i" "SystemProcsBlocked \<noteq> i" "SystemInterruptsTotal \<noteq> i"
    "HostUptimeID \<noteq> i" "OSFeatureID \<noteq> i" "MemoryBytesUsedID \<noteq> i" "MemoryDirtyUsedID \<noteq> i" "MemoryAnonymousUsedID \<noteq> i"
    "MemoryPageCacheUsedID \<noteq> i" "MemoryUnevictableUsedID \<noteq> i"
  using assms by (auto simp: disk_id_def metric_ids)

lemma disk_id_not_net: "disk_id i \<Longrightarrow> i \<notin> fst ` set net_metrics"
  by (auto simp: disk_id_def net_metrics_def metric_ids)

lemma total_of_concat_zero: "(\<And>x. x \<in> set xs \<Longrightarrow> total_of i t (f x) = 0) \<Longrightarrow> total_of i t (concat (map f xs)) = 0"
  by (induction xs) auto

lemma cpu_no_disk:
  assumes "cpuCollector_collect fo lib cc = Some (samples, cc')" "disk_id i"
  shows "total_of i t samples = 0"
proof -
  from assms obtain usage where "cpuCollector_recordUsage fo lib cc = Some (usage, cc')"
    and samples: "samples = cpuCollector_recordLoad lib cc @ usage @ cpuCollector_recordSystemStats lib cc'"
    by (auto simp: cpuCollector_collect_def Let_def split: option.splits)
  then have "total_of i t usage = 0" using recordUsage_frame by blast
  moreover have "total_of i t (cpuCollector_recordLoad lib cc) = 0"
    by (simp add: cpuCollector_recordLoad_def split: sum.split)
  moreover have "total_of i t (cpu_stat_samples cc' n c) = 0" for n c
    by (auto simp: cpu_stat_samples_def intro!: total_of_concat_zero)
  then have "total_of i t (cpuCollector_recordSystemStats lib cc') = 0"
    using assms(2) by (auto simp: cpuCollector_recordSystemStats_def intro!: total_of_concat_zero split: option.split sum.split)
  ultimately show ?thesis by (simp add: samples)
qed

lemma memory_no_disk: "disk_id i \<Longrightarrow> total_of i t (memoryCollector_collect fo lib mc) = 0"
  by (simp add: memoryCollector_collect_def total_of_def split: option.split sum.split)

lemma host_no_disk: "disk_id i \<Longrightarrow> total_of i t (hostCollector_collect Uptime hc) = 0"
  by (simp add: hostCollector_collect_def split: sum.split)

lemma os_no_disk:
  "osFeatureCollector_collect lib ofc q = (Ok samples, q') \<Longrightarrow> disk_id i \<Longrightarrow> total_of i t samples = 0"
  by (auto simp: osFeatureCollector_collect_def recordFeaturesFromCmdline_def recordFeaturesFromModules_def feature_sample_def
      Let_def split: if_splits prod.splits sum.splits)

lemma interfaces_no_disk:
  assumes "\<And>iface. distinct (order iface) \<and> i \<notin> set (order iface)"
  shows "record_interfaces order nc stats = Some samples \<Longrightarrow> total_of i t samples = 0"
proof (induction stats arbitrary: samples)
  case (Cons x stats)
  obtain iface stat where x: "x = (iface, stat)" by (metis surj_pair)
  show ?case
  proof (cases "excluded nc iface")
    case True
    with Cons x show ?thesis by simp
  next
    case False
    with Cons.prems x obtain s1 s2 where
      one: "ifaceStatRecorder_RecordWithSameTags (order iface) stat [(interfaceNameLabel, iface)] (nc_recorder nc) = Some s1"
      and two: "record_interfaces order nc stats = Some s2" and "samples = s1 @ s2"
      by (auto split: option.splits)
    moreover have "total_of i t s1 = 0"
      using RecordWithSameTags_values [OF one, of i t] assms [of iface] by (simp add: total_of_def)
    ultimately show ?thesis using Cons.IH by simp
  qed
qed simp

definition net_made :: "'f systemStatsMonitor \<Rightarrow> bool" where
  "net_made ssm \<longleftrightarrow> (case ssm_netCollector ssm of None \<Rightarrow> True | Some nc \<Rightarrow> dom (nc_recorder nc) = fst ` set net_metrics)"

lemma net_no_disk:
  assumes "ssm_netCollector ssm = Some nc" "net_made ssm" "order_ok ssm node"
    and "netCollector_collect (sn_net node) (sn_order node) nc = Some samples" "disk_id i"
  shows "total_of i t samples = 0"
proof (rule interfaces_no_disk)
  show "record_interfaces (sn_order node) nc (net_readings (sn_net node) (nc_procPath nc)) = Some samples"
    using assms(4) by (simp add: netCollector_collect_def netCollector_recordNetDev_def)
  show "distinct (sn_order node iface) \<and> i \<notin> set (sn_order node iface)" for iface
    using assms(1-3) disk_id_not_net [OF assms(5)] by (auto simp: net_made_def order_ok_def map_order_def)
qed

lemma collect_cpu_disk:
  assumes "collect_cpu fo node ssm = Ok (samples, ssm')"
  shows "disk_id i \<Longrightarrow> total_of i t samples = 0" "\<exists>cc. ssm' = ssm\<lparr>ssm_cpuCollector := cc\<rparr>"
proof -
  have same: "\<exists>cc. ssm = ssm\<lparr>ssm_cpuCollector := cc\<rparr>" by (rule exI [of _ "ssm_cpuCollector ssm"]) simp
  show "disk_id i \<Longrightarrow> total_of i t samples = 0" "\<exists>cc. ssm' = ssm\<lparr>ssm_cpuCollector := cc\<rparr>"
    using assms same cpu_no_disk by (auto simp: collect_cpu_def split: option.splits)
qed

lemma collect_round_disk:
  assumes round: "collect_round fo node ssm q = Ok (samples, ssm', q')"
    and disk: "ssm_diskCollector ssm = Some dc" and net: "net_made ssm" "order_ok ssm node"
  obtains ds dc' where "diskCollector_collect fo (sn_disk node) (sn_now node) dc = (ds, dc')"
    "ssm_diskCollector ssm' = Some dc'" "\<And>i t. disk_id i \<Longrightarrow> total_of i t samples = total_of i t ds"
proof -
  from collect_round_Ok [OF round] obtain s1 ssm1 ds os ns
    where one: "collect_cpu fo node ssm = Ok (s1, ssm1)" and two: "collect_disk fo node ssm1 = (ds, ssm')"
    and os: "os_round node ssm' q = (Ok os, q')" and ns: "net_round node ssm' = Some ns"
    and samples: "samples = s1 @ ds @
        (case ssm_hostCollector ssm' of None \<Rightarrow> [] | Some hc \<Rightarrow> hostCollector_collect (sn_Uptime node) hc) @
        (case ssm_memoryCollector ssm' of None \<Rightarrow> [] | Some mc \<Rightarrow> memoryCollector_collect fo (sn_mem node) mc) @ os @ ns" .
  have "ssm_diskCollector ssm1 = Some dc" using collect_cpu_disk(2) [OF one] disk by auto
  with two obtain dc' where collect: "diskCollector_collect fo (sn_disk node) (sn_now node) dc = (ds, dc')"
    and dc': "ssm_diskCollector ssm' = Some dc'"
    by (auto simp: collect_disk_def split: prod.splits)
  have net': "net_made ssm'" "order_ok ssm' node"
    using net collect_round_frame(2) [OF round] by (simp_all add: net_made_def order_ok_def)
  show thesis
  proof (rule that [OF collect dc'])
    fix i t assume i: "disk_id i"
    from os i have "total_of i t os = 0" by (cases "ssm_osFeatureCollector ssm'") (auto intro: os_no_disk)
    moreover from ns i net' have "total_of i t ns = 0" by (cases "ssm_netCollector ssm'") (auto intro: net_no_disk)
    ultimately show "total_of i t samples = total_of i t ds"
      using i collect_cpu_disk(1) [OF one i, of t]
      by (simp add: samples memory_no_disk host_no_disk split: option.split)
  qed
qed

lemma disk_counters_ids: "(i, m, t, f, prev) \<in> set (disk_counters d dc) \<Longrightarrow> disk_id i"
  by (auto simp: disk_counters_def disk_id_def metric_ids)

lemma counter_delta_cong:
  assumes "counter_delta xs rs d a b" "\<And>i t. disk_id i \<Longrightarrow> total_of i t ys = total_of i t xs"
  shows "counter_delta ys rs d a b"
proof -
  have "row_delta ys rs d x y" if "x \<in> set (disk_counters d a)" "row_delta xs rs d x y" for x y
  proof (cases x)
    case (fields i m t f prev)
    with that(1) disk_counters_ids have "total_of i t ys = total_of i t xs" by (metis assms(2))
    with that(2) fields show ?thesis by (auto simp: row_delta_def split: prod.splits)
  qed
  then have "list_all2 (row_delta ys rs d) (disk_counters d a) (disk_counters d b)"
    using assms(1) unfolding counter_delta_def by (auto elim: list.rel_mono_strong)
  with assms(1) show ?thesis by (simp add: counter_delta_def)
qed

definition rounds_readings :: "DiskStatsConfig \<Rightarrow> ('e, 'f) stats_node list \<Rightarrow> (string \<times> IOCountersStat) list" where
  "rounds_readings cfg nodes = concat (map (\<lambda>node. disk_readings (sn_disk node) cfg) nodes)"

definition disk_inv :: "diskCollector \<Rightarrow> ('e, 'f) stats_loop \<Rightarrow> bool" where
  "disk_inv dc s \<longleftrightarrow> net_made (sp_monitor s) \<and> (\<exists>dc'. ssm_diskCollector (sp_monitor s) = Some dc' \<and>
     (\<forall>d. counter_delta (sp_samples s) (rounds_readings (dc_config dc) (sp_nodes s)) d dc dc'))"

lemma disk_inv_round:
  assumes inv: "disk_inv dc s" and order: "order_ok (sp_monitor s) node"
  shows "disk_inv dc (do_round fo node s)"
proof (cases rule: do_round_cases [of fo node s])
  case (exit err)
  with inv show ?thesis by (simp add: disk_inv_def)
next
  case (round samples ssm q)
  from inv obtain dc1 where net: "net_made (sp_monitor s)" and dc1: "ssm_diskCollector (sp_monitor s) = Some dc1"
    and before: "counter_delta (sp_samples s) (rounds_readings (dc_config dc) (sp_nodes s)) d dc dc1" for d
    by (auto simp: disk_inv_def)
  from before have cfg: "dc_config dc1 = dc_config dc" by (simp add: counter_delta_def)
  from collect_round_disk [OF round(1) dc1 net order] obtain ds dc2
    where ds: "diskCollector_collect fo (sn_disk node) (sn_now node) dc1 = (ds, dc2)" "ssm_diskCollector ssm = Some dc2"
    and eq: "\<And>i t. disk_id i \<Longrightarrow> total_of i t samples = total_of i t ds" by blast
  have "counter_delta samples (disk_readings (sn_disk node) (dc_config dc)) d dc1 dc2" for d
    by (rule counter_delta_cong [OF collect_delta [OF ds(1)], unfolded cfg]) (rule eq)
  from counter_delta_trans [OF before this]
  have "counter_delta (sp_samples s @ samples) (rounds_readings (dc_config dc) (sp_nodes s @ [node])) d dc dc2" for d
    by (simp add: rounds_readings_def)
  moreover have "net_made ssm" using net collect_round_frame(2) [OF round(1)] by (simp add: net_made_def)
  ultimately show ?thesis using round(2) ds(2) by (simp add: disk_inv_def)
qed

lemma disk_inv_frame:
  assumes "sp_monitor s' = sp_monitor s" "sp_samples s' = sp_samples s" "sp_nodes s' = sp_nodes s"
  shows "disk_inv dc s' \<longleftrightarrow> disk_inv dc s"
  using assms by (simp add: disk_inv_def)

lemma disk_inv_step [npd_inv]: "stats_step fo s s' \<Longrightarrow> disk_inv dc s \<Longrightarrow> disk_inv dc s'"
proof (elim disjE)
  assume "stats_loop_step fo s s'" "disk_inv dc s"
  then show "disk_inv dc s'"
  proof (induction rule: stats_loop_step.induct)
    case (first_round s node)
    then show ?case by (intro disk_inv_round)
  next
    case (tick_round s node)
    have "disk_inv dc (s\<lparr>sp_tick := False\<rparr>)" using tick_round(4) by (simp add: disk_inv_frame [of "s\<lparr>sp_tick := False\<rparr>" s])
    with tick_round(3) show ?case by (intro disk_inv_round) simp_all
  qed (auto simp: loop_return_def disk_inv_def Tomb_Done_def)
next
  assume "stats_env_step s s'" "disk_inv dc s"
  then show "disk_inv dc s'" by (induction rule: stats_env_step.induct) (simp_all add: disk_inv_def)
qed

lemma disk_inv_reachable:
  assumes "(stats_step fo)\<^sup>*\<^sup>* (fst (systemStatsMonitor_Start ssm q)) s" "net_made ssm" "ssm_diskCollector ssm = Some dc"
  shows "disk_inv dc s"
  using assms(1)
proof (induction rule: rtranclp_induct)
  case base
  show ?case using assms(2,3)
    by (simp add: counter_delta_refl disk_inv_def systemStatsMonitor_Start_def rounds_readings_def)
qed (rule disk_inv_step)

subsection \<open>What a monitor that was made is like\<close>

lemma run_then_Ok: "run_then r k = (Ok y, st') \<longleftrightarrow> (\<exists>x st. r = (Ok x, st) \<and> k x st = (Ok y, st'))"
  by (auto simp: run_then_def split: prod.splits sum.splits)

lemma when_configured_Ok:
  "when_configured cfgs fatal create st = (Ok c, st') \<longleftrightarrow>
     (cfgs = Map.empty \<and> c = None \<and> st' = st) \<or> (cfgs \<noteq> Map.empty \<and> (\<exists>x. c = Some x \<and> create st = (Ok x, st')))"
  by (auto simp: when_configured_def map_sum_def split: prod.splits sum.splits)

lemma known_modules_path_frame [simp]:
  "ssc_InvokeInterval (known_modules_path p c) = ssc_InvokeInterval c"
  "ssc_DiskConfig (known_modules_path p c) = ssc_DiskConfig c"
  by (simp_all add: known_modules_path_def Let_def)

lemma new_monitor:
  assumes "NewSystemStatsMonitorOrDie lib configPath st = (Ok ssm, st')"
  shows "0 < ssc_InvokeInterval (ssm_config ssm)" "net_made ssm"
    "ssm_diskCollector ssm = Some dc \<Longrightarrow>
       \<exists>st1 st2. NewDiskCollectorOrDie (sl_census lib) (ssc_DiskConfig (ssm_config ssm)) st1 = (Ok dc, st2)"
proof -
  obtain config where config: "load_config lib configPath = Ok config"
    using assms by (cases "load_config lib configPath") (simp_all add: NewSystemStatsMonitorOrDie_def)
  obtain st1 st2 st3 st4 where cfg: "ssm_config ssm = known_modules_path configPath config"
    and disk: "when_configured (disk_MetricsConfigs (ssc_DiskConfig config)) StatsMetricFatal
      (NewDiskCollectorOrDie (sl_census lib) (ssc_DiskConfig config)) st1 = (Ok (ssm_diskCollector ssm), st2)"
    and net: "when_configured (net_MetricsConfigs (ssc_NetConfig config)) StatsNetFatal
      (NewNetCollectorOrDie (sl_census lib) (ssc_NetConfig config) (ssc_ProcPath config)) st3 = (Ok (ssm_netCollector ssm), st4)"
    using assms by (auto simp: NewSystemStatsMonitorOrDie_def config Let_def run_then_Ok)
  have "SystemStatsConfig_Validate (sl_Stat lib) config = None"
    using config by (auto simp: load_config_def split: option.splits)
  with ssc_valid [of "sl_Stat lib" config] cfg show "0 < ssc_InvokeInterval (ssm_config ssm)" by simp
  show "net_made ssm"
    using net by (auto simp: when_configured_Ok net_made_def split: option.split dest!: NewNetCollectorOrDie_recorder)
  show "\<exists>st1 st2. NewDiskCollectorOrDie (sl_census lib) (ssc_DiskConfig (ssm_config ssm)) st1 = (Ok dc, st2)"
    if "ssm_diskCollector ssm = Some dc"
    using disk that by (auto simp: when_configured_Ok cfg)
qed

subsection \<open>Properties\<close>

text \<open>
  C33: the loop of a monitor that could be made never panics for its ticker or its tomb, it makes at
  most one round more than there were ticks, and its tomb is done exactly when the loop has returned.
\<close>

theorem stats_loop_safe:
  assumes "NewSystemStatsMonitorOrDie lib configPath st = (Ok ssm, st')"
    and "(stats_step fo)\<^sup>*\<^sup>* (fst (systemStatsMonitor_Start ssm q)) s"
  shows "sp_phase s \<notin> {Exited TickerPanic, Exited TombPanic} \<and> length (sp_nodes s) \<le> Suc (sp_ticks s) \<and>
    (tomb_done (sp_tomb s) \<longleftrightarrow> sp_phase s = Returned)"
  using stats_inv_reachable [OF assms(2)] new_monitor(1) [OF assms(1)] by (auto simp: stats_inv_def split: if_splits)

text \<open>
  Once \<^verbatim>\<open>Stop\<close> was called and unless the process has died, the loop can return with its next step,
  \<^verbatim>\<open>Stop\<close> then returns, and nothing is recorded by that step.
\<close>

theorem stats_stop_returns:
  assumes "NewSystemStatsMonitorOrDie lib configPath st = (Ok ssm, st')"
    and "(stats_step fo)\<^sup>*\<^sup>* (fst (systemStatsMonitor_Start ssm q)) s"
    and "Tomb_Stopping (sp_tomb s)" "sp_phase s \<in> {Starting, Waiting}"
  shows "\<exists>s'. stats_loop_step fo s s' \<and> Tomb_Stop_returns (sp_tomb s') \<and> sp_samples s' = sp_samples s"
proof -
  have inv: "stats_inv ssm s" by (rule stats_inv_reachable [OF assms(2)])
  with new_monitor(1) [OF assms(1)] assms(3,4) have "stats_loop_step fo s (loop_return s)"
    by (auto simp: stats_inv_def intro: first_stop stats_loop_step.loop_stop)
  moreover have "Tomb_Stop_returns (sp_tomb (loop_return s))"
    using inv assms(3,4) stats_inv_return [OF inv] by (auto simp: Tomb_Stop_returns_def Tomb_Stopping_def stats_inv_def)
  ultimately show ?thesis using loop_return_simps(1) by blast
qed

text \<open>
  C12: in every state of the loop, each of the ten disk counters of a device that is configured has in
  total been given the last reading of that device in the completed rounds, whatever the other
  collectors recorded and whether or not the process has died since.
\<close>

theorem stats_disk_counters:
  assumes "NewSystemStatsMonitorOrDie lib configPath st = (Ok ssm, st')"
    and "(stats_step fo)\<^sup>*\<^sup>* (fst (systemStatsMonitor_Start ssm q)) s"
    and "ssm_diskCollector ssm = Some dc" "(i, m, t, f, prev) \<in> set (disk_counters d dc)" "m \<noteq> None"
  shows "total_of i t (sp_samples s) =
    (case map_of (rev (rounds_readings (ssc_DiskConfig (ssm_config ssm)) (sp_nodes s))) d of None \<Rightarrow> 0 | Some stat \<Rightarrow> f stat)"
proof -
  obtain st1 st2 where new: "NewDiskCollectorOrDie (sl_census lib) (ssc_DiskConfig (ssm_config ssm)) st1 = (Ok dc, st2)"
    using new_monitor(3) [OF assms(1,3)] by blast
  note made = NewDiskCollectorOrDie_new [OF new, of d]
  from made assms(4) have empty: "prev = Map.empty" by blast
  from disk_inv_reachable [OF assms(2) new_monitor(2) [OF assms(1)] assms(3)] made obtain dc'
    where "list_all2 (row_delta (sp_samples s) (rounds_readings (ssc_DiskConfig (ssm_config ssm)) (sp_nodes s)) d)
      (disk_counters d dc) (disk_counters d dc')"
    by (auto simp: disk_inv_def counter_delta_def)
  from list_all2_member [OF this assms(4)] assms(5) show ?thesis
    by (auto simp: row_delta_def empty split: option.splits)
qed

subsection \<open>Witnesses\<close>

definition sample_stats_config :: SystemStatsConfig where
  "sample_stats_config = \<lparr>ssc_CPUConfig = \<lparr>cpu_MetricsConfigs = Map.empty\<rparr>, ssc_DiskConfig = sample_disk_config,
     ssc_HostConfig = \<lparr>host_MetricsConfigs = Map.empty\<rparr>, ssc_MemoryConfig = \<lparr>mem_MetricsConfigs = Map.empty\<rparr>,
     ssc_OsFeatureConfig = \<lparr>osf_MetricsConfigs = Map.empty, osf_KnownModulesConfigPath = []\<rparr>,
     ssc_NetConfig = \<lparr>net_MetricsConfigs = Map.empty, net_ExcludeInterfaceRegexp = \<lparr>nre_R = None\<rparr>\<rparr>,
     ssc_InvokeIntervalString = [], ssc_InvokeInterval = 0, ssc_ProcPath = []\<rparr>"

definition sample_stats_lib :: "(unit, string, unit) stats_lib" where
  "sample_stats_lib = \<lparr>sl_ReadFile = Ok, sl_Unmarshal = \<lambda>_. Ok sample_stats_config, sl_Stat = \<lambda>_. None,
     sl_host = \<lparr>hl_KernelVersion = Err (), hl_osrelease = \<lambda>_. Err ()\<rparr>, sl_census = sample_census\<rparr>"

definition sample_node :: "uint64 \<Rightarrow> (unit, unit) stats_node" where
  "sample_node v = \<lparr>sn_cpu = \<lparr>cpl_Avg = Err (), cpl_Times = Err (), cpl_NewFS = \<lambda>_. Some (), cpl_Stat = \<lambda>_. Err ()\<rparr>,
     sn_disk = sample_disk_lib v, sn_now = 0, sn_Uptime = Err (), sn_mem = \<lparr>ml_NewDefaultFS = Some (), ml_Meminfo = Err ()\<rparr>,
     sn_os = \<lparr>ol_Open = \<lambda>_. Err (), ol_ReadFile = \<lambda>_. None, ol_Unmarshal = \<lambda>_. []\<rparr>,
     sn_net = \<lparr>nl_NewFS = \<lambda>_. Some (), nl_NetDev = \<lambda>_. Err ()\<rparr>, sn_order = \<lambda>_. []\<rparr>"

definition sample_monitor :: "unit systemStatsMonitor" where
  "sample_monitor = (case NewSystemStatsMonitorOrDie sample_stats_lib ''/config/stats.json'' sample_metrics_state of (Inr ssm, _) \<Rightarrow> ssm)"

definition sample_start :: "(unit, unit) stats_loop" where
  "sample_start = fst (systemStatsMonitor_Start sample_monitor False)"

definition sample_round :: "(unit, unit) stats_loop" where
  "sample_round = do_round sample_float (sample_node 7) sample_start"

lemma sample_config_loaded:
  "\<exists>c. load_config sample_stats_lib path = Ok c \<and> cpu_MetricsConfigs (ssc_CPUConfig c) = Map.empty \<and>
     ssc_DiskConfig c = sample_disk_config\<lparr>disk_LsblkTimeoutString := defaultlsblkTimeoutString\<rparr> \<and>
     host_MetricsConfigs (ssc_HostConfig c) = Map.empty \<and> mem_MetricsConfigs (ssc_MemoryConfig c) = Map.empty \<and>
     osf_MetricsConfigs (ssc_OsFeatureConfig c) = Map.empty \<and> net_MetricsConfigs (ssc_NetConfig c) = Map.empty"
proof -
  have strings: "defaultInvokeIntervalString = ''1m0s''" "defaultlsblkTimeoutString = ''5s''"
    using time_Duration_String_examples(3)
    by (simp_all add: defaultInvokeIntervalString_def defaultlsblkTimeoutString_def time_Duration_String_def fmtFrac_def
        strip_zeros_def dec_nat.simps digit_char_eval Let_def)
  have "time_ParseDuration defaultInvokeIntervalString = Some (60 * Second)"
    "time_ParseDuration defaultlsblkTimeoutString = Some (5 * Second)"
    by (simp_all add: strings time_ParseDuration_examples)
  then show ?thesis
    by (simp add: load_config_def sample_stats_lib_def SystemStatsConfig_ApplyConfiguration_def ssc_defaults_def
        SystemStatsConfig_Validate_def Let_def sample_stats_config_def sample_disk_config_def)
qed

lemma sample_stats_census: "sl_census sample_stats_lib = sample_census"
  by (simp add: sample_stats_lib_def)

lemma sample_monitor_new:
  "\<exists>st'. NewSystemStatsMonitorOrDie sample_stats_lib ''/config/stats.json'' sample_metrics_state = (Ok sample_monitor, st')"
  and sample_monitor_parts: "ssm_cpuCollector sample_monitor = None" "ssm_hostCollector sample_monitor = None"
    "ssm_memoryCollector sample_monitor = None" "ssm_osFeatureCollector sample_monitor = None" "ssm_netCollector sample_monitor = None"
    "\<exists>dc. ssm_diskCollector sample_monitor = Some dc \<and> dc_mIOTime dc \<noteq> None"
    "ssc_DiskConfig (ssm_config sample_monitor) = sample_disk_config\<lparr>disk_LsblkTimeoutString := defaultlsblkTimeoutString\<rparr>"
proof -
  obtain dc st' where dc: "NewDiskCollectorOrDie sample_census (sample_disk_config\<lparr>disk_LsblkTimeoutString := defaultlsblkTimeoutString\<rparr>)
      sample_metrics_state = (Ok dc, st')" "dc_mIOTime dc \<noteq> None"
    by (simp add: NewDiskCollectorOrDie_def run_then_def Let_def new_int64_def new_float64_def NewInt64Metric_def NewFloat64Metric_def
        DisplayName_of_def sample_disk_config_def sample_census_def metric_ids map_get_def getTagKeysFromNames_def
        sample_metrics_state_def)
  obtain c where c: "load_config sample_stats_lib ''/config/stats.json'' = Ok c" "cpu_MetricsConfigs (ssc_CPUConfig c) = Map.empty"
     "ssc_DiskConfig c = sample_disk_config\<lparr>disk_LsblkTimeoutString := defaultlsblkTimeoutString\<rparr>"
     "host_MetricsConfigs (ssc_HostConfig c) = Map.empty" "mem_MetricsConfigs (ssc_MemoryConfig c) = Map.empty"
     "osf_MetricsConfigs (ssc_OsFeatureConfig c) = Map.empty" "net_MetricsConfigs (ssc_NetConfig c) = Map.empty"
    using sample_config_loaded by blast
  have some: "disk_MetricsConfigs sample_disk_config \<noteq> Map.empty" by (simp add: sample_disk_config_def)
  have new: "NewSystemStatsMonitorOrDie sample_stats_lib ''/config/stats.json'' sample_metrics_state =
    (Ok \<lparr>ssm_configPath = ''/config/stats.json'', ssm_config = known_modules_path ''/config/stats.json'' c, ssm_cpuCollector = None,
       ssm_diskCollector = Some dc, ssm_hostCollector = None, ssm_memoryCollector = None, ssm_netCollector = None,
       ssm_osFeatureCollector = None\<rparr>, st')"
    using dc some by (simp add: NewSystemStatsMonitorOrDie_def c when_configured_def run_then_def sample_stats_census Let_def)
  then show "\<exists>st'. NewSystemStatsMonitorOrDie sample_stats_lib ''/config/stats.json'' sample_metrics_state = (Ok sample_monitor, st')"
    by (simp add: sample_monitor_def new)
  show "ssm_cpuCollector sample_monitor = None" "ssm_hostCollector sample_monitor = None"
    "ssm_memoryCollector sample_monitor = None" "ssm_osFeatureCollector sample_monitor = None" "ssm_netCollector sample_monitor = None"
    "\<exists>dc. ssm_diskCollector sample_monitor = Some dc \<and> dc_mIOTime dc \<noteq> None"
    "ssc_DiskConfig (ssm_config sample_monitor) = sample_disk_config\<lparr>disk_LsblkTimeoutString := defaultlsblkTimeoutString\<rparr>"
    using dc(2) by (simp_all add: sample_monitor_def new c)
qed

lemma sample_round_reached:
  "(stats_step sample_float)\<^sup>*\<^sup>* (fst (systemStatsMonitor_Start sample_monitor False)) sample_round"
  and sample_round_state: "sp_phase sample_round = Waiting" "sp_nodes sample_round = [sample_node 7]" "sp_tomb sample_round = NewTomb"
proof -
  obtain st' where new: "NewSystemStatsMonitorOrDie sample_stats_lib ''/config/stats.json'' sample_metrics_state = (Ok sample_monitor, st')"
    using sample_monitor_new by blast
  have "stats_loop_step sample_float sample_start sample_round"
    unfolding sample_round_def
    by (rule first_round) (use new_monitor(1) [OF new] in \<open>simp_all add: sample_start_def systemStatsMonitor_Start_def NewTomb_def
        Tomb_Stopping_def order_ok_def sample_monitor_parts\<close>)
  then show "(stats_step sample_float)\<^sup>*\<^sup>* (fst (systemStatsMonitor_Start sample_monitor False)) sample_round"
    by (auto simp: sample_start_def)
  have "\<exists>samples. collect_round sample_float (sample_node 7) sample_monitor False = Ok (samples, ssm', False)"
    if "ssm' = snd (collect_disk sample_float (sample_node 7) sample_monitor)" for ssm'
    using that sample_monitor_parts
    by (auto simp: collect_round_def collect_cpu_def collect_disk_def Let_def split: prod.splits)
  then show "sp_phase sample_round = Waiting" "sp_nodes sample_round = [sample_node 7]" "sp_tomb sample_round = NewTomb"
    by (auto simp: sample_round_def do_round_def sample_start_def systemStatsMonitor_Start_def)
qed

theorem stats_loop_safe_witness:
  "sp_phase sample_round \<notin> {Exited TickerPanic, Exited TombPanic} \<and> length (sp_nodes sample_round) \<le> Suc (sp_ticks sample_round) \<and>
    (tomb_done (sp_tomb sample_round) \<longleftrightarrow> sp_phase sample_round = Returned)"
  using sample_monitor_new stats_loop_safe [OF _ sample_round_reached] by blast

theorem stats_disk_counters_witness:
  "total_of DiskIOTimeID (device_tags ''sda'') (sp_samples sample_round) = 7"
proof -
  obtain st' where new: "NewSystemStatsMonitorOrDie sample_stats_lib ''/config/stats.json'' sample_metrics_state = (Ok sample_monitor, st')"
    using sample_monitor_new by blast
  obtain dc where dc: "ssm_diskCollector sample_monitor = Some dc" "dc_mIOTime dc \<noteq> None" using sample_monitor_parts(6) by blast
  have "(DiskIOTimeID, dc_mIOTime dc, device_tags ''sda'', io_IoTime, dc_lastIOTime dc) \<in> set (disk_counters ''sda'' dc)"
    by (simp add: disk_counters_def)
  note counters = stats_disk_counters [OF new sample_round_reached dc(1) this dc(2)]
  have "disk_readings (sample_disk_lib 7) (sample_disk_config\<lparr>disk_LsblkTimeoutString := defaultlsblkTimeoutString\<rparr>) =
      disk_readings (sample_disk_lib 7) sample_disk_config"
    by (simp add: disk_readings_def disk_devices_def cong: sum.case_cong)
  with counters show ?thesis
    by (simp add: sample_round_state sample_monitor_parts rounds_readings_def sample_node_def sample_disk_readings sample_stat_def)
qed

theorem stats_stop_returns_witness:
  "\<exists>s'. stats_loop_step sample_float (sample_round\<lparr>sp_tomb := NewTomb\<lparr>tomb_stop := True\<rparr>\<rparr>) s' \<and> Tomb_Stop_returns (sp_tomb s') \<and>
     sp_samples s' = sp_samples sample_round"
proof -
  obtain st' where new: "NewSystemStatsMonitorOrDie sample_stats_lib ''/config/stats.json'' sample_metrics_state = (Ok sample_monitor, st')"
    using sample_monitor_new by blast
  have "stats_env_step sample_round (sample_round\<lparr>sp_tomb := NewTomb\<lparr>tomb_stop := True\<rparr>\<rparr>)"
    by (rule systemStatsMonitor_Stop) (simp add: sample_round_state NewTomb_def Tomb_Stop_request_def)
  with sample_round_reached have reached: "(stats_step sample_float)\<^sup>*\<^sup>* (fst (systemStatsMonitor_Start sample_monitor False))
      (sample_round\<lparr>sp_tomb := NewTomb\<lparr>tomb_stop := True\<rparr>\<rparr>)"
    by (metis (mono_tags, lifting) rtranclp.rtrancl_into_rtrancl)
  from stats_stop_returns [OF new reached] sample_round_state(1) show ?thesis by (simp add: Tomb_Stopping_def)
qed

end
