(* ===== verification/Stackdriver_Exporter.thy ===== *)
theory Stackdriver_Exporter
  imports Stats_Metrics Problem_Metrics Go_Path
begin

text \<open>
  The Stackdriver exporter (\<^verbatim>\<open>pkg/exporters/stackdriver\<close>): the table from metrics to Stackdriver's metric
  types, the configuration, fetching the metadata of the instance with retries, and making the
  exporter. The metadata server, the OpenCensus exporter, and reading and decoding the configuration
  are arguments; \<^verbatim>\<open>retry.Do\<close> is translated from its vendored source.
\<close>

subsection \<open>Metric types\<close>

definition exporterName :: string where "exporterName = ''stackdriver''"

definition sd_table :: "(MetricID \<times> string) list" where
  "sd_table =
     [(CPURunnableTaskCountID, ''compute.googleapis.com/guest/cpu/runnable_task_count''),
      (CPUUsageTimeID, ''compute.googleapis.com/guest/cpu/usage_time''),
      (CPULoad1m, ''compute.googleapis.com/guest/cpu/load_1m''),
      (CPULoad5m, ''compute.googleapis.com/guest/cpu/load_5m''),
      (CPULoad15m, ''compute.googleapis.com/guest/cpu/load_15m''),
      (DiskAvgQueueLenID, ''compute.googleapis.com/guest/disk/queue_length''),
      (DiskBytesUsedID, ''compute.googleapis.com/guest/disk/bytes_used''),
      (DiskPercentUsedID, ''compute.googleapis.com/guest/disk/percent_used''),
      (DiskIOTimeID, ''compute.googleapis.com/guest/disk/io_time''),
      (DiskMergedOpsCountID, ''compute.googleapis.com/guest/disk/merged_operation_count''),
      (DiskOpsBytesID, ''compute.googleapis.com/guest/disk/operation_bytes_count''),
      (DiskOpsCountID, ''compute.googleapis.com/guest/disk/operation_count''),
      (DiskOpsTimeID, ''compute.googleapis.com/guest/disk/operation_time''),
      (DiskWeightedIOID, ''compute.googleapis.com/guest/disk/weighted_io_time''),
      (HostUptimeID, ''compute.googleapis.com/guest/system/uptime''),
      (MemoryAnonymousUsedID, ''compute.googleapis.com/guest/memory/anonymous_used''),
      (MemoryBytesUsedID, ''compute.googleapis.com/guest/memory/bytes_used''),
      (MemoryDirtyUsedID, ''compute.googleapis.com/guest/memory/dirty_used''),
      (MemoryPageCacheUsedID, ''compute.googleapis.com/guest/memory/page_cache_used''),
      (MemoryUnevictableUsedID, ''compute.googleapis.com/guest/memory/unevictable_used''),
      (MemoryPercentUsedID, ''compute.googleapis.com/guest/memory/percent_used''),
      (ProblemCounterID, ''compute.googleapis.com/guest/system/problem_count''),
      (ProblemGaugeID, ''compute.googleapis.com/guest/system/problem_state''),
      (OSFeatureID, ''compute.googleapis.com/guest/system/os_feature_enabled''),
      (SystemProcessesTotal, ''kubernetes.io/internal/node/guest/system/processes_total''),
      (SystemProcsRunning, ''kubernetes.io/internal/node/guest/system/procs_running''),
      (SystemProcsBlocked, ''kubernetes.io/internal/node/guest/system/procs_blocked''),
      (SystemInterruptsTotal, ''kubernetes.io/internal/node/guest/system/interrupts_total''),
      (SystemCPUStat, ''kubernetes.io/internal/node/guest/system/cpu_stat''),
      (NetDevRxBytes, ''kubernetes.io/internal/node/guest/net/rx_bytes''),
      (NetDevRxPackets, ''kubernetes.io/internal/node/guest/net/rx_packets''),
      (NetDevRxErrors, ''kubernetes.io/internal/node/guest/net/rx_errors''),
      (NetDevRxDropped, ''kubernetes.io/internal/node/guest/net/rx_dropped''),
      (NetDevRxFifo, ''kubernetes.io/internal/node/guest/net/rx_fifo''),
      (NetDevRxFrame, ''kubernetes.io/internal/node/guest/net/rx_frame''),
      (NetDevRxCompressed, ''kubernetes.io/internal/node/guest/net/rx_compressed''),
      (NetDevRxMulticast, ''kubernetes.io/internal/node/guest/net/rx_multicast''),
      (NetDevTxBytes, ''kubernetes.io/internal/node/guest/net/tx_bytes''),
      (NetDevTxPackets, ''kubernetes.io/internal/node/guest/net/tx_packets''),
      (NetDevTxErrors, ''kubernetes.io/internal/node/guest/net/tx_errors''),
      (NetDevTxDropped, ''kubernetes.io/internal/node/guest/net/tx_dropped''),
      (NetDevTxFifo, ''kubernetes.io/internal/node/guest/net/tx_fifo''),
      (NetDevTxCollisions, ''kubernetes.io/internal/node/guest/net/tx_collisions''),
      (NetDevTxCarrier, ''kubernetes.io/internal/node/guest/net/tx_carrier''),
      (NetDevTxCompressed, ''kubernetes.io/internal/node/guest/net/tx_compressed'')]"

definition NPDMetricToSDMetric :: "MetricID \<rightharpoonup> string" where
  "NPDMetricToSDMetric = map_of sd_table"

text \<open>The function for a view, over the metrics registered so far.\<close>

definition getMetricTypeConversionFunction :: "string \<Rightarrow> MetricMapping \<Rightarrow> 'k View \<Rightarrow> string" where
  "getMetricTypeConversionFunction customMetricPrefix mm view =
     (let viewName = me_name (v_Measure view);
          fallbackMetricType = (if customMetricPrefix \<noteq> [] then filepath_Join [customMetricPrefix, viewName] else [])
      in case MetricMapping_ViewNameToMetricID viewName mm of
           None \<Rightarrow> fallbackMetricType
         | Some metricID \<Rightarrow>
             (case NPDMetricToSDMetric metricID of None \<Rightarrow> fallbackMetricType | Some stackdriverMetricType \<Rightarrow> stackdriverMetricType))"

subsection \<open>Configuration and metadata\<close>

record Metadata =
  md_ProjectID :: string
  md_Zone :: string
  md_InstanceID :: string
  md_InstanceName :: string

definition Metadata_HasMissingField :: "Metadata \<Rightarrow> bool" where
  "Metadata_HasMissingField md \<longleftrightarrow> md_ProjectID md = [] \<or> md_Zone md = [] \<or> md_InstanceID md = [] \<or> md_InstanceName md = []"

text \<open>A query of the metadata server returns a string and maybe an error, and may change the world \<open>'w\<close>.\<close>

type_synonym ('e, 'w) query = "'w \<Rightarrow> (string \<times> 'e option) \<times> 'w"

record ('e, 'w) gce_lib =
  gl_ProjectID :: "('e, 'w) query"
  gl_Zone :: "('e, 'w) query"
  gl_InstanceID :: "('e, 'w) query"
  gl_InstanceName :: "('e, 'w) query"

definition populate_field ::
    "(Metadata \<Rightarrow> string) \<Rightarrow> ((string \<Rightarrow> string) \<Rightarrow> Metadata \<Rightarrow> Metadata) \<Rightarrow> ('e, 'w) query \<Rightarrow> Metadata \<times> 'w \<Rightarrow> 'e option \<times> Metadata \<times> 'w" where
  "populate_field get upd ask s =
     (case s of (md, w) \<Rightarrow>
        if get md = [] then (case ask w of ((v, err), w) \<Rightarrow> (err, upd (\<lambda>_. v) md, w)) else (None, md, w))"

definition or_return :: "'e option \<times> 's \<Rightarrow> ('s \<Rightarrow> 'e option \<times> 's) \<Rightarrow> 'e option \<times> 's" where
  "or_return r k = (case r of (Some err, s) \<Rightarrow> (Some err, s) | (None, s) \<Rightarrow> k s)"

definition Metadata_PopulateFromGCE :: "('e, 'w) gce_lib \<Rightarrow> Metadata \<times> 'w \<Rightarrow> 'e option \<times> Metadata \<times> 'w" where
  "Metadata_PopulateFromGCE lib s =
     or_return (populate_field md_ProjectID md_ProjectID_update (gl_ProjectID lib) s) (\<lambda>s.
     or_return (populate_field md_Zone md_Zone_update (gl_Zone lib) s) (\<lambda>s.
     or_return (populate_field md_InstanceID md_InstanceID_update (gl_InstanceID lib) s) (\<lambda>s.
       populate_field md_InstanceName md_InstanceName_update (gl_InstanceName lib) s)))"

record StackdriverExporterConfig =
  sec_ExportPeriod :: string
  sec_APIEndpoint :: string
  sec_GCEMetadata :: Metadata
  sec_MetadataFetchTimeout :: string
  sec_MetadataFetchInterval :: string
  sec_PanicOnMetadataFetchFailure :: bool
  sec_CustomMetricPrefix :: string

definition defaultExportPeriod :: string where "defaultExportPeriod = time_Duration_String (60 * Second)"
definition defaultEndpoint :: string where "defaultEndpoint = ''monitoring.googleapis.com:443''"
definition defaultMetadataFetchTimeout :: string where "defaultMetadataFetchTimeout = time_Duration_String (600 * Second)"
definition defaultMetadataFetchInterval :: string where "defaultMetadataFetchInterval = time_Duration_String (10 * Second)"

definition StackdriverExporterConfig_ApplyConfiguration :: "StackdriverExporterConfig \<Rightarrow> StackdriverExporterConfig" where
  "StackdriverExporterConfig_ApplyConfiguration sec =
     (let sec = (if sec_ExportPeriod sec = [] then sec\<lparr>sec_ExportPeriod := defaultExportPeriod\<rparr> else sec);
          sec = (if sec_MetadataFetchTimeout sec = [] then sec\<lparr>sec_MetadataFetchTimeout := defaultMetadataFetchTimeout\<rparr> else sec);
          sec = (if sec_MetadataFetchInterval sec = [] then sec\<lparr>sec_MetadataFetchInterval := defaultMetadataFetchInterval\<rparr> else sec)
      in if sec_APIEndpoint sec = [] then sec\<lparr>sec_APIEndpoint := defaultEndpoint\<rparr> else sec)"

subsection \<open>Retrying\<close>

text \<open>
  \<^verbatim>\<open>retry.Do\<close> with a number of attempts and a fixed delay, for errors that are not marked unrecoverable,
  as those of the metadata server: it gives up after that many attempts, with all errors, and never
  when the number is 0. \<^term>\<open>None\<close> is a call that does not return.
\<close>

fun retry_n :: "nat \<Rightarrow> ('s \<Rightarrow> 'e option \<times> 's) \<Rightarrow> 'e list \<Rightarrow> 's \<Rightarrow> 'e list option \<times> 's" where
  "retry_n 0 f errorLog s = (Some errorLog, s)"
| "retry_n (Suc n) f errorLog s =
     (case f s of (None, s) \<Rightarrow> (None, s) | (Some err, s) \<Rightarrow> retry_n n f (errorLog @ [err]) s)"

partial_function (option) retry_forever :: "('s \<Rightarrow> 'e option \<times> 's) \<Rightarrow> 's \<Rightarrow> 's option" where
  "retry_forever f s = (case f s of (None, s) \<Rightarrow> Some s | (Some err, s) \<Rightarrow> retry_forever f s)"

definition retry_Do :: "nat \<Rightarrow> ('s \<Rightarrow> 'e option \<times> 's) \<Rightarrow> 's \<Rightarrow> ('e list option \<times> 's) option" where
  "retry_Do attempts f s =
     (if attempts = 0 then map_option (Pair None) (retry_forever f s) else Some (retry_n attempts f [] s))"

text \<open>\<^verbatim>\<open>uint(a/b)\<close> of two durations: the quotient truncated towards zero, modulo \<open>2 ^ 64\<close>.\<close>

definition fetch_attempts :: "duration \<Rightarrow> duration \<Rightarrow> nat" where
  "fetch_attempts timeout interval = unat (word_of_int (sgn timeout * sgn interval * (\<bar>timeout\<bar> div \<bar>interval\<bar>)) :: uint64)"

subsection \<open>The exporter\<close>

record stackdriverExporter =
  se_config :: StackdriverExporterConfig

datatype 'e stackdriver_fatal =
    BadFetchTimeout string
  | BadFetchInterval string
  | DivisionByZero
  | MetadataNotFetched "'e list"
  | ViewExporterFailed 'e
  | BadExportPeriod string
  | SdConfigUnreadable string 'e
  | SdConfigMalformed string 'e

definition populateMetadataOrDie ::
    "('e, 'w) gce_lib \<Rightarrow> stackdriverExporter \<Rightarrow> 'w \<Rightarrow> ('e stackdriver_fatal + stackdriverExporter \<times> 'w) option" where
  "populateMetadataOrDie lib se w =
     (let cfg = se_config se in
      if \<not> Metadata_HasMissingField (sec_GCEMetadata cfg) then Some (Ok (se, w))
      else case time_ParseDuration (sec_MetadataFetchTimeout cfg) of
        None \<Rightarrow> Some (Err (BadFetchTimeout (sec_MetadataFetchTimeout cfg)))
      | Some timeout \<Rightarrow>
          (case time_ParseDuration (sec_MetadataFetchInterval cfg) of
             None \<Rightarrow> Some (Err (BadFetchInterval (sec_MetadataFetchInterval cfg)))
           | Some interval \<Rightarrow>
               if interval = 0 then Some (Err DivisionByZero)
               else map_option (\<lambda>(errs, md, w).
                   case errs of
                     None \<Rightarrow> Ok (se\<lparr>se_config := cfg\<lparr>sec_GCEMetadata := md\<rparr>\<rparr>, w)
                   | Some errs \<Rightarrow>
                       if sec_PanicOnMetadataFetchFailure cfg then Err (MetadataNotFetched errs)
                       else Ok (se\<lparr>se_config := cfg\<lparr>sec_GCEMetadata := md\<rparr>\<rparr>, w))
                 (retry_Do (fetch_attempts timeout interval) (Metadata_PopulateFromGCE lib) (sec_GCEMetadata cfg, w))))"

text \<open>What the OpenCensus exporter is registered with; \<open>NewExporter\<close> says whether making it fails.\<close>

record view_exporter =
  ve_ProjectID :: string
  ve_InstanceID :: string
  ve_Zone :: string
  ve_instance_name :: string
  ve_endpoint :: string
  ve_customMetricPrefix :: string
  ve_reportingPeriod :: duration

definition setupOpenCensusViewExporterOrDie :: "'e option \<Rightarrow> stackdriverExporter \<Rightarrow> 'e stackdriver_fatal + view_exporter" where
  "setupOpenCensusViewExporterOrDie NewExporter se =
     (let cfg = se_config se; md = sec_GCEMetadata cfg in
      case NewExporter of
        Some err \<Rightarrow> Err (ViewExporterFailed err)
      | None \<Rightarrow>
          (case time_ParseDuration (sec_ExportPeriod cfg) of
             None \<Rightarrow> Err (BadExportPeriod (sec_ExportPeriod cfg))
           | Some exportPeriod \<Rightarrow>
               Ok \<lparr>ve_ProjectID = md_ProjectID md, ve_InstanceID = md_InstanceID md, ve_Zone = md_Zone md,
                   ve_instance_name = md_InstanceName md, ve_endpoint = sec_APIEndpoint cfg,
                   ve_customMetricPrefix = sec_CustomMetricPrefix cfg, ve_reportingPeriod = exportPeriod\<rparr>))"

definition stackdriverExporter_ExportProblems :: "'status \<Rightarrow> stackdriverExporter \<Rightarrow> stackdriverExporter" where
  "stackdriverExporter_ExportProblems status se = se"

record ('e, 'w) stackdriver_lib =
  sdl_ReadFile :: "string \<Rightarrow> 'e + string"
  sdl_Unmarshal :: "string \<Rightarrow> 'e + StackdriverExporterConfig"
  sdl_gce :: "('e, 'w) gce_lib"
  sdl_NewExporter :: "'e option"

definition stackdriver_NewExporterOrDie ::
    "('e, 'w) stackdriver_lib \<Rightarrow> string \<Rightarrow> 'w \<Rightarrow>
     ('e stackdriver_fatal + (stackdriverExporter \<times> view_exporter) option \<times> 'w) option" where
  "stackdriver_NewExporterOrDie lib configPath w =
     (if configPath = [] then Some (Ok (None, w))
      else case sdl_ReadFile lib configPath of
        Inl err \<Rightarrow> Some (Err (SdConfigUnreadable configPath err))
      | Inr f \<Rightarrow>
          (case sdl_Unmarshal lib f of
             Inl err \<Rightarrow> Some (Err (SdConfigMalformed configPath err))
           | Inr config \<Rightarrow>
               map_option (\<lambda>r. and_then r (\<lambda>(se, w).
                   and_then (setupOpenCensusViewExporterOrDie (sdl_NewExporter lib) se) (\<lambda>ve. Ok (Some (se, ve), w))))
                 (populateMetadataOrDie (sdl_gce lib) \<lparr>se_config = StackdriverExporterConfig_ApplyConfiguration config\<rparr> w)))"

subsection \<open>Lemmas\<close>

text \<open>The identifiers of all metrics.\<close>

definition all_metric_ids :: "MetricID list" where
  "all_metric_ids =
     [CPURunnableTaskCountID, CPUUsageTimeID, CPULoad1m, CPULoad5m, CPULoad15m, ProblemCounterID, ProblemGaugeID, DiskIOTimeID,
      DiskWeightedIOID, DiskAvgQueueLenID, DiskOpsCountID, DiskMergedOpsCountID, DiskOpsBytesID, DiskOpsTimeID, DiskBytesUsedID,
      DiskPercentUsedID, HostUptimeID, MemoryBytesUsedID, MemoryAnonymousUsedID, MemoryPageCacheUsedID, MemoryUnevictableUsedID,
      MemoryDirtyUsedID, MemoryPercentUsedID, OSFeatureID, SystemProcessesTotal, SystemProcsRunning, SystemProcsBlocked,
      SystemInterruptsTotal, SystemCPUStat, NetDevRxBytes, NetDevRxPackets, NetDevRxErrors, NetDevRxDropped, NetDevRxFifo,
      NetDevRxFrame, NetDevRxCompressed, NetDevRxMulticast, NetDevTxBytes, NetDevTxPackets, NetDevTxErrors, NetDevTxDropped,
      NetDevTxFifo, NetDevTxCollisions, NetDevTxCarrier, NetDevTxCompressed]"

lemma sd_table_distinct: "distinct (map fst sd_table)" "distinct (map snd sd_table)" "set (map fst sd_table) = set all_metric_ids"
  by code_simp+

lemma sd_types_inject:
  assumes "i \<in> set all_metric_ids" "j \<in> set all_metric_ids" "NPDMetricToSDMetric i = NPDMetricToSDMetric j"
  shows "i = j"
proof -
  from assms(1) sd_table_distinct(3) obtain t where t: "(i, t) \<in> set sd_table" by fastforce
  from assms(2) sd_table_distinct(3) obtain u where u: "(j, u) \<in> set sd_table" by fastforce
  have "t = u" using assms(3) t u sd_table_distinct(1) by (simp add: NPDMetricToSDMetric_def)
  moreover have "inj_on snd (set sd_table)" using sd_table_distinct(2) by (simp add: distinct_map)
  ultimately show ?thesis using t u by (metis Pair_inject inj_onD snd_conv)
qed

lemma sd_types_total: "i \<in> set all_metric_ids \<Longrightarrow> \<exists>t. NPDMetricToSDMetric i = Some t"
  using sd_table_distinct(3) by (metis NPDMetricToSDMetric_def domD dom_map_of_conv_image_fst set_map)

definition md_keeps :: "Metadata \<Rightarrow> Metadata \<Rightarrow> bool" where
  "md_keeps md md' \<longleftrightarrow>
     (\<forall>get \<in> {md_ProjectID, md_Zone, md_InstanceID, md_InstanceName}. get md \<noteq> [] \<longrightarrow> get md' = get md)"

lemma md_keeps_trans: "md_keeps a b \<Longrightarrow> md_keeps b c \<Longrightarrow> md_keeps a c"
  by (simp add: md_keeps_def)

lemma populate_keeps: "Metadata_PopulateFromGCE lib (md, w) = (err, md', w') \<Longrightarrow> md_keeps md md'"
  by (auto simp: Metadata_PopulateFromGCE_def populate_field_def or_return_def md_keeps_def
      split: prod.splits option.splits if_splits)

lemma retry_n_keeps: "retry_n n (Metadata_PopulateFromGCE lib) errs (md, w) = (r, md', w') \<Longrightarrow> md_keeps md md'"
proof (induction n arbitrary: errs md w)
  case (Suc n)
  obtain err md1 w1 where one: "Metadata_PopulateFromGCE lib (md, w) = (err, md1, w1)" by (metis prod_cases3)
  from populate_keeps [OF one] Suc one show ?case by (cases err) (auto intro: md_keeps_trans)
qed (simp add: md_keeps_def)

text \<open>What holds of every call that returns: the rule of computation for \<^const>\<open>retry_forever\<close>.\<close>

lemma retry_forever_rule:
  assumes "retry_forever f s = Some s'"
    and stops: "\<And>s s'. f s = (None, s') \<Longrightarrow> P s s'"
    and again: "\<And>s err s1 s'. f s = (Some err, s1) \<Longrightarrow> P s1 s' \<Longrightarrow> P s s'"
  shows "P s s'"
proof -
  let ?P = "\<lambda>g s s'. g = f \<longrightarrow> P s s'"
  have step: "?P g s s'" if ih: "\<And>g s s'. rec g s = Some s' \<Longrightarrow> ?P g s s'"
    and eq: "(case g s of (None, s) \<Rightarrow> Some s | (Some err, s) \<Rightarrow> rec g s) = Some s'" for rec g s s'
  proof
    assume g: "g = f"
    obtain err s1 where one: "f s = (err, s1)" by (metis surj_pair)
    show "P s s'"
    proof (cases err)
      case None
      with eq one g stops show ?thesis by simp
    next
      case (Some e)
      with eq one g have "rec f s1 = Some s'" by simp
      with ih have "P s1 s'" by blast
      with one Some again show ?thesis by blast
    qed
  qed
  have "?P f s s'" by (rule retry_forever.raw_induct [of ?P, OF _ assms(1)]) (rule step)
  then show ?thesis by simp
qed

lemma retry_forever_keeps:
  "retry_forever (Metadata_PopulateFromGCE lib) s = Some s' \<Longrightarrow> md_keeps (fst s) (fst s')"
proof (erule retry_forever_rule)
  show "Metadata_PopulateFromGCE lib s = (None, s') \<Longrightarrow> md_keeps (fst s) (fst s')" for s s'
    using populate_keeps [of lib "fst s" "snd s" None "fst s'" "snd s'"] by simp
  show "Metadata_PopulateFromGCE lib s = (Some err, s1) \<Longrightarrow> md_keeps (fst s1) (fst s') \<Longrightarrow> md_keeps (fst s) (fst s')" for s err s1 s'
    using populate_keeps [of lib "fst s" "snd s" "Some err" "fst s1" "snd s1"] by (auto intro: md_keeps_trans)
qed

lemma retry_forever_fails:
  assumes "\<And>s. fst (f s) \<noteq> None"
  shows "retry_forever f s = None"
proof (cases "retry_forever f s")
  case (Some s')
  then have False by (rule retry_forever_rule) (metis assms fst_conv, blast)
  then show ?thesis ..
qed

lemma retry_n_errors: "retry_n n f errs s = (Some errs', s') \<Longrightarrow> length errs' = length errs + n"
  by (induction n arbitrary: errs s) (fastforce split: prod.splits option.splits)+

lemma fetch_attempts_eq: "0 \<le> timeout \<Longrightarrow> timeout < 2 ^ 63 \<Longrightarrow> 0 < interval \<Longrightarrow> fetch_attempts timeout interval = nat (timeout div interval)"
proof -
  assume a: "0 \<le> timeout" "timeout < 2 ^ 63" "0 < interval"
  have "timeout div interval \<le> timeout" using a int_div_less_self [of timeout interval] by (cases "timeout = 0 \<or> interval = 1") auto
  with a have "0 \<le> timeout div interval" "timeout div interval < 2 ^ 64" by (simp_all add: pos_imp_zdiv_nonneg_iff)
  then have "uint (word_of_int (timeout div interval) :: uint64) = timeout div interval"
    by (simp add: uint_word_of_int)
  moreover have "sgn timeout * sgn interval * (\<bar>timeout\<bar> div \<bar>interval\<bar>) = timeout div interval"
    using a by (cases "timeout = 0") simp_all
  ultimately show ?thesis by (simp add: fetch_attempts_def unat_eq_nat_uint)
qed

subsection \<open>Properties\<close>

text \<open>
  Every metric of the monitors has a Stackdriver type of its own, which does not depend on the
  custom prefix: views of different metrics are never written to the same Stackdriver metric.
\<close>

theorem stackdriver_types_distinct:
  assumes "MetricMapping_ViewNameToMetricID (me_name (v_Measure v)) mm = Some i" "i \<in> set all_metric_ids"
    and "MetricMapping_ViewNameToMetricID (me_name (v_Measure u)) mm = Some j" "j \<in> set all_metric_ids"
  shows "(getMetricTypeConversionFunction p mm v = getMetricTypeConversionFunction p' mm u) \<longleftrightarrow> i = j"
  using assms sd_types_total [OF assms(2)] sd_types_total [OF assms(4)] sd_types_inject [OF assms(2,4)]
  by (auto simp: getMetricTypeConversionFunction_def)


subsection \<open>Witnesses\<close>

definition sample_view :: "string \<Rightarrow> string View" where
  "sample_view n = \<lparr>v_Name = n, v_Measure = \<lparr>me_name = n, me_description = [], me_unit = []\<rparr>, v_Description = [],
     v_Aggregation = View_Sum, v_TagKeys = []\<rparr>"

theorem stackdriver_types_distinct_witness:
  "getMetricTypeConversionFunction [] [''io'' \<mapsto> DiskIOTimeID, ''up'' \<mapsto> HostUptimeID] (sample_view ''io'') \<noteq>
   getMetricTypeConversionFunction [] [''io'' \<mapsto> DiskIOTimeID, ''up'' \<mapsto> HostUptimeID] (sample_view ''up'')"
  using stackdriver_types_distinct [of "sample_view ''io''" "[''io'' \<mapsto> DiskIOTimeID, ''up'' \<mapsto> HostUptimeID]" DiskIOTimeID
      "sample_view ''up''" HostUptimeID "[]" "[]"]
  by (simp add: sample_view_def MetricMapping_ViewNameToMetricID_def all_metric_ids_def metric_ids)

definition sample_gce :: "(unit, nat) gce_lib" where
  "sample_gce = \<lparr>gl_ProjectID = \<lambda>w. (([], Some ()), Suc w), gl_Zone = \<lambda>w. (([], Some ()), Suc w),
     gl_InstanceID = \<lambda>w. (([], Some ()), Suc w), gl_InstanceName = \<lambda>w. (([], Some ()), Suc w)\<rparr>"

definition sample_sd :: "string \<Rightarrow> stackdriverExporter" where
  "sample_sd interval = \<lparr>se_config = \<lparr>sec_ExportPeriod = [], sec_APIEndpoint = [],
     sec_GCEMetadata = \<lparr>md_ProjectID = ''project'', md_Zone = [], md_InstanceID = [], md_InstanceName = []\<rparr>,
     sec_MetadataFetchTimeout = ''5s'', sec_MetadataFetchInterval = interval, sec_PanicOnMetadataFetchFailure = True,
     sec_CustomMetricPrefix = []\<rparr>\<rparr>"


end
