(* ===== verification/Tail_File.thy ===== *)
theory Tail_File
  imports Go_Path Go_Conv
begin

text \<open>
  Following a file that may be rotated (\<^verbatim>\<open>third_party/forked/cadvisor/tail\<close>), as the file log watcher does:
  opening it with growing delays, the reader, and the goroutine that opens the file again when it was
  moved or deleted, as a step relation with the writers and the user of the reader.
\<close>

subsection \<open>Opening\<close>

definition defaultRetryInterval :: duration where "defaultRetryInterval = 100 * Millisecond"
definition maxRetryInterval :: duration where "maxRetryInterval = 30 * Second"

datatype 'e open_result = Opened string | CannotOpen 'e | Cancelled

text \<open>
  The loop of \<^verbatim>\<open>attemptOpen\<close> after \<open>k\<close> failed attempts, when the interval has been doubled \<open>k\<close> times.
  \<open>Open\<close> is the answer at each attempt and \<open>stopped\<close> says whether the tail is closed during the wait after
  it. The result comes with the number of attempts and the time waited.
\<close>

function attempt_loop :: "(nat \<Rightarrow> 'e + string) \<Rightarrow> (nat \<Rightarrow> bool) \<Rightarrow> nat \<Rightarrow> 'e open_result \<times> nat \<times> duration" where
  "attempt_loop Open stopped k =
     (let interval = defaultRetryInterval * 2 ^ k in
      case Open k of
        Inr contents \<Rightarrow> (Opened contents, Suc k, 0)
      | Inl err \<Rightarrow>
          if interval \<ge> maxRetryInterval then (CannotOpen err, Suc k, 0)
          else if stopped k then (Cancelled, Suc k, 0)
          else (case attempt_loop Open stopped (Suc k) of (r, n, waited) \<Rightarrow> (r, n, interval + waited)))"
  by pat_completeness auto
termination
  by (relation "measure (\<lambda>(_, _, k). nat (maxRetryInterval - defaultRetryInterval * 2 ^ k))")
    (auto simp: defaultRetryInterval_def maxRetryInterval_def)

declare attempt_loop.simps [simp del]

subsection \<open>The reader\<close>

text \<open>
  The reader is what its buffer holds and what the open file has beyond that. Reading from a file that
  was closed is an error.
\<close>

datatype 'e tail_error = IoEOF | FileClosed | OpenFailed 'e

record 'e Tail =
  t_filename :: string
  t_reader :: "(string \<times> string) option"
  t_fileOpen :: bool
  t_readerErr :: "'e tail_error option"
  t_stop :: bool

definition newTail :: "'e option \<Rightarrow> string \<Rightarrow> 'e + 'e Tail" where
  "newTail NewWatcher filename =
     (case NewWatcher of
        Some err \<Rightarrow> Err err
      | None \<Rightarrow> Ok \<lparr>t_filename = filename, t_reader = None, t_fileOpen = False, t_readerErr = Some IoEOF, t_stop = False\<rparr>)"

text \<open>\<^verbatim>\<open>bufio.Reader.Read\<close> into \<open>n\<close> bytes; \<open>m\<close> is how many bytes a read of the file gives.\<close>

definition bufio_Read :: "nat \<Rightarrow> nat \<Rightarrow> bool \<Rightarrow> string \<times> string \<Rightarrow> (string \<times> 'e tail_error option) \<times> string \<times> string" where
  "bufio_Read n m isOpen r =
     (case r of (buf, rest) \<Rightarrow>
        if buf \<noteq> [] then ((take n buf, None), drop n buf, rest)
        else if \<not> isOpen then (([], Some FileClosed), buf, rest)
        else if rest = [] then (([], Some IoEOF), buf, rest)
        else if 4096 \<le> n then ((take m rest, None), [], drop m rest)
        else ((take n (take m rest), None), drop n (take m rest), drop m rest))"

text \<open>\<^verbatim>\<open>Read\<close>; a nil reader panics, which is \<^term>\<open>None\<close>.\<close>

definition Tail_Read :: "nat \<Rightarrow> nat \<Rightarrow> 'e Tail \<Rightarrow> ((string \<times> 'e tail_error option) \<times> 'e Tail) option" where
  "Tail_Read n m t =
     (case t_readerErr t of
        Some err \<Rightarrow> Some (([], Some err), t)
      | None \<Rightarrow>
          (case t_reader t of
             None \<Rightarrow> None
           | Some r \<Rightarrow> (case bufio_Read n m (t_fileOpen t) r of (result, r') \<Rightarrow> Some (result, t\<lparr>t_reader := Some r'\<rparr>))))"

text \<open>Closing twice panics.\<close>

definition Tail_Close :: "'e Tail \<Rightarrow> 'e Tail option" where
  "Tail_Close t = (if t_stop t then None else Some (t\<lparr>t_stop := True\<rparr>))"

definition Tail_attemptOpen :: "(nat \<Rightarrow> 'e + string) \<Rightarrow> (nat \<Rightarrow> bool) \<Rightarrow> 'e Tail \<Rightarrow> bool \<times> 'e Tail" where
  "Tail_attemptOpen Open stopped t =
     (case fst (attempt_loop Open stopped 0) of
        Opened contents \<Rightarrow> (True, t\<lparr>t_readerErr := None, t_reader := Some ([], contents), t_fileOpen := True\<rparr>)
      | CannotOpen err \<Rightarrow> (False, t\<lparr>t_readerErr := Some (OpenFailed err)\<rparr>)
      | Cancelled \<Rightarrow> (False, t\<lparr>t_readerErr := Some IoEOF\<rparr>))"

subsection \<open>Following the file\<close>

text \<open>
  \<^verbatim>\<open>watchLoop\<close> and \<^verbatim>\<open>watchFile\<close>: about to open the file, about to watch its directory, watching, or ended.
  \<open>tw_file\<close> is the contents of the file at the path and \<open>tw_same\<close> says whether the open file is that one;
  \<open>tw_events\<close> are the names in the channel of the watcher, which come only while the directory is
  watched. \<open>tw_delivered\<close> records what was read from the open file, \<open>tw_lost\<close> what was left unread in the
  files before.
\<close>

datatype tail_pc = TOpen | TAdd | TWatch | TEnded

record 'e tailLoop =
  tw_pc :: tail_pc
  tw_tail :: "'e Tail"
  tw_file :: string
  tw_same :: bool
  tw_events :: "string list"
  tw_delivered :: string
  tw_lost :: "string list"

definition tail_start :: "'e Tail \<Rightarrow> string \<Rightarrow> 'e tailLoop" where
  "tail_start t contents = \<lparr>tw_pc = TOpen, tw_tail = t, tw_file = contents, tw_same = False, tw_events = [], tw_delivered = [], tw_lost = []\<rparr>"

definition unread :: "'e Tail \<Rightarrow> string list" where
  "unread t = (case t_reader t of None \<Rightarrow> [] | Some (buf, rest) \<Rightarrow> [buf @ rest])"

definition close_file :: "'e tailLoop \<Rightarrow> 'e tailLoop" where
  "close_file s = s\<lparr>tw_tail := (tw_tail s)\<lparr>t_fileOpen := False\<rparr>\<rparr>"

inductive tail_loop_step :: "'e tailLoop \<Rightarrow> 'e tailLoop \<Rightarrow> bool" where
  tail_opened: "tw_pc s = TOpen \<Longrightarrow> Tail_attemptOpen Open stopped (tw_tail s) = (True, t) \<Longrightarrow> t_reader t = Some ([], tw_file s) \<Longrightarrow>
     tail_loop_step s (s\<lparr>tw_pc := TAdd, tw_tail := t, tw_same := True, tw_delivered := [], tw_lost := tw_lost s @ unread (tw_tail s)\<rparr>)"
| tail_not_opened: "tw_pc s = TOpen \<Longrightarrow> Tail_attemptOpen Open stopped (tw_tail s) = (False, t) \<Longrightarrow>
     tail_loop_step s (s\<lparr>tw_pc := TEnded, tw_tail := t\<rparr>)"
| tail_add_failed: "tw_pc s = TAdd \<Longrightarrow> tail_loop_step s ((close_file s)\<lparr>tw_pc := TEnded\<rparr>)"
| tail_added: "tw_pc s = TAdd \<Longrightarrow> tail_loop_step s (s\<lparr>tw_pc := TWatch\<rparr>)"
| tail_rotated: "tw_pc s = TWatch \<Longrightarrow> tw_events s = name # names \<Longrightarrow> filepath_Clean name = t_filename (tw_tail s) \<Longrightarrow>
     tail_loop_step s ((close_file s)\<lparr>tw_pc := TOpen, tw_events := names\<rparr>)"
| tail_other: "tw_pc s = TWatch \<Longrightarrow> tw_events s = name # names \<Longrightarrow> filepath_Clean name \<noteq> t_filename (tw_tail s) \<Longrightarrow>
     tail_loop_step s (s\<lparr>tw_events := names\<rparr>)"
| tail_cancelled: "tw_pc s = TWatch \<Longrightarrow> t_stop (tw_tail s) \<Longrightarrow> tail_loop_step s ((close_file s)\<lparr>tw_pc := TEnded\<rparr>)"

text \<open>A byte written to the open file is there to be read.\<close>

definition append_open :: "string \<Rightarrow> 'e Tail \<Rightarrow> 'e Tail" where
  "append_open bytes t = t\<lparr>t_reader := map_option (\<lambda>(buf, rest). (buf, rest @ bytes)) (t_reader t)\<rparr>"

inductive tail_env_step :: "'e tailLoop \<Rightarrow> 'e tailLoop \<Rightarrow> bool" where
  tail_write: "tail_env_step s
     (s\<lparr>tw_file := tw_file s @ bytes, tw_tail := if tw_same s then append_open bytes (tw_tail s) else tw_tail s\<rparr>)"
| tail_write_old: "\<not> tw_same s \<Longrightarrow> tail_env_step s (s\<lparr>tw_tail := append_open bytes (tw_tail s)\<rparr>)"
| tail_rotate: "tail_env_step s
     (s\<lparr>tw_file := contents, tw_same := False, tw_events := tw_events s @ (if tw_pc s = TWatch then [name] else [])\<rparr>)"
| tail_event: "tw_pc s = TWatch \<Longrightarrow> filepath_Clean name \<noteq> filepath_Clean (t_filename (tw_tail s)) \<Longrightarrow>
     tail_env_step s (s\<lparr>tw_events := tw_events s @ [name]\<rparr>)"
| tail_read: "0 < n \<Longrightarrow> 0 < m \<Longrightarrow> Tail_Read n m (tw_tail s) = Some ((bytes, err), t) \<Longrightarrow>
     tail_env_step s (s\<lparr>tw_tail := t, tw_delivered := tw_delivered s @ bytes\<rparr>)"
| tail_close: "Tail_Close (tw_tail s) = Some t \<Longrightarrow> tail_env_step s (s\<lparr>tw_tail := t\<rparr>)"

abbreviation tail_step :: "'e tailLoop \<Rightarrow> 'e tailLoop \<Rightarrow> bool" where
  "tail_step \<equiv> (\<lambda>s s'. tail_loop_step s s' \<or> tail_env_step s s')"

subsection \<open>Lemmas\<close>

lemma retry_constants: "defaultRetryInterval * 2 ^ k \<ge> maxRetryInterval \<longleftrightarrow> 9 \<le> k"
proof -
  have "(300::int) \<le> 2 ^ k \<longleftrightarrow> 9 \<le> k"
  proof
    assume "9 \<le> k"
    then have "(2::int) ^ 9 \<le> 2 ^ k" by (rule power_increasing) simp
    then show "(300::int) \<le> 2 ^ k" by simp
  next
    assume le: "(300::int) \<le> 2 ^ k"
    show "9 \<le> k"
    proof (rule ccontr)
      assume "\<not> 9 \<le> k"
      then have "(2::int) ^ k \<le> 2 ^ 8" by (intro power_increasing) auto
      with le show False by simp
    qed
  qed
  then show ?thesis by (simp add: defaultRetryInterval_def maxRetryInterval_def)
qed

lemma attempt_loop_bounds:
  assumes "attempt_loop Open stopped k = (r, n, waited)" "k \<le> 9"
  shows "n \<le> 10 \<and> 0 \<le> waited \<and> waited \<le> defaultRetryInterval * (2 ^ 9 - 2 ^ k) \<and>
    (\<forall>err. r = CannotOpen err \<longrightarrow> n = 10 \<and> waited = defaultRetryInterval * (2 ^ 9 - 2 ^ k) \<and> (\<forall>j. k \<le> j \<and> j \<le> 9 \<longrightarrow> isl (Open j)))"
  using assms
proof (induction Open stopped k arbitrary: r n waited rule: attempt_loop.induct)
  case (1 Open stopped k)
  have pow: "(2::int) ^ k \<le> 512" using power_increasing [OF 1(3), of "2::int"] by simp
  show ?case
  proof (cases "Open k")
    case (Inr contents)
    with 1(2,3) pow show ?thesis by (auto simp: attempt_loop.simps [of Open stopped k] defaultRetryInterval_def)
  next
    case (Inl err)
    show ?thesis
    proof (cases "9 \<le> k \<or> stopped k")
      case True
      show ?thesis
      proof (cases "9 \<le> k")
        case True
        with 1(3) have "k = 9" by simp
        with 1(2) Inl retry_constants [of 9] show ?thesis by (auto simp: attempt_loop.simps [of Open stopped 9] Let_def)
      next
        case False
        with True 1(2) Inl retry_constants [of k] pow show ?thesis
          by (auto simp: attempt_loop.simps [of Open stopped k] Let_def defaultRetryInterval_def)
      qed
    next
      case False
      then have k: "\<not> defaultRetryInterval * 2 ^ k \<ge> maxRetryInterval" "\<not> stopped k" by (simp_all add: retry_constants)
      obtain r' n' w where more: "attempt_loop Open stopped (Suc k) = (r', n', w)" by (metis prod_cases3)
      with 1(2) Inl k have res: "r = r'" "n = n'" "waited = defaultRetryInterval * 2 ^ k + w"
        by (simp_all add: attempt_loop.simps [of Open stopped k] Let_def)
      have ih: "n' \<le> 10 \<and> 0 \<le> w \<and> w \<le> defaultRetryInterval * (2 ^ 9 - 2 ^ Suc k) \<and>
        (\<forall>err. r' = CannotOpen err \<longrightarrow> n' = 10 \<and> w = defaultRetryInterval * (2 ^ 9 - 2 ^ Suc k) \<and> (\<forall>j. Suc k \<le> j \<and> j \<le> 9 \<longrightarrow> isl (Open j)))"
        using 1(1) [OF refl Inl k more] False by simp
      have "k \<le> j \<longleftrightarrow> j = k \<or> Suc k \<le> j" for j by auto
      with ih Inl show ?thesis by (auto simp: res defaultRetryInterval_def algebra_simps)
    qed
  qed
qed

lemma attempt_loop_opened: "attempt_loop Open stopped k = (Opened contents, n, waited) \<Longrightarrow> \<exists>j. Open j = Ok contents"
proof (induction Open stopped k arbitrary: n waited rule: attempt_loop.induct)
  case (1 Open stopped k)
  then show ?case
    by (auto simp: attempt_loop.simps [of Open stopped k] Let_def split: sum.splits if_splits prod.splits)
qed

definition tail_inv :: "'e tailLoop \<Rightarrow> bool" where
  "tail_inv s \<longleftrightarrow>
     (t_readerErr (tw_tail s) = None \<longrightarrow> t_reader (tw_tail s) \<noteq> None) \<and>
     (tw_same s \<longrightarrow> (\<exists>buf rest. t_reader (tw_tail s) = Some (buf, rest) \<and> tw_delivered s @ buf @ rest = tw_file s)) \<and>
     (tw_pc s \<in> {TAdd, TWatch} \<longrightarrow> t_fileOpen (tw_tail s) \<and> t_readerErr (tw_tail s) = None)"

lemma bufio_Read_split:
  assumes "bufio_Read n m isOpen (buf, rest) = ((bytes, err), buf', rest')"
  shows "bytes @ buf' @ rest' = buf @ rest"
proof -
  have "drop n (take m rest) @ drop m rest = drop n (take m rest) @ drop m rest" ..
  moreover have "take n (take m rest) @ drop n (take m rest) @ drop m rest = rest"
    by (metis append_assoc append_take_drop_id)
  ultimately show ?thesis using assms by (auto simp: bufio_Read_def split: if_splits)
qed

lemma tail_inv_loop: "tail_loop_step s s' \<Longrightarrow> tail_inv s \<Longrightarrow> tail_inv s'"
proof (induction rule: tail_loop_step.induct)
  case (tail_opened s Open stopped t)
  then have "t_readerErr t = None" "t_fileOpen t"
    by (auto simp: Tail_attemptOpen_def split: open_result.splits)
  with tail_opened show ?case by (simp add: tail_inv_def)
next
  case (tail_not_opened s Open stopped t)
  then have "t_readerErr t \<noteq> None" "t_reader t = t_reader (tw_tail s)"
    by (auto simp: Tail_attemptOpen_def split: open_result.splits)
  with tail_not_opened show ?case by (auto simp: tail_inv_def)
qed (auto simp: tail_inv_def close_file_def)

lemma tail_inv_env: "tail_env_step s s' \<Longrightarrow> tail_inv s \<Longrightarrow> tail_inv s'"
proof (induction rule: tail_env_step.induct)
  case (tail_read n m s bytes err t)
  show ?case
  proof (cases "t_readerErr (tw_tail s)")
    case (Some e)
    with tail_read show ?thesis by (auto simp: Tail_Read_def)
  next
    case None
    with tail_read obtain buf rest buf' rest' where r: "t_reader (tw_tail s) = Some (buf, rest)"
      "bufio_Read n m (t_fileOpen (tw_tail s)) (buf, rest) = ((bytes, err), buf', rest')"
      "t = (tw_tail s)\<lparr>t_reader := Some (buf', rest')\<rparr>"
      by (auto simp: Tail_Read_def split: option.splits prod.splits)
    with tail_read(4) bufio_Read_split [OF r(2)] show ?thesis by (auto simp: tail_inv_def)
  qed
qed (auto simp: tail_inv_def append_open_def Tail_Close_def split: if_splits)

lemma tail_inv_reachable:
  assumes "newTail NewWatcher filename = Ok t" "tail_step\<^sup>*\<^sup>* (tail_start t contents) s"
  shows "tail_inv s"
  using assms(2)
proof (induction rule: rtranclp_induct)
  case base
  show ?case using assms(1) by (auto simp: tail_inv_def tail_start_def newTail_def split: option.splits)
qed (auto intro: tail_inv_loop tail_inv_env)

subsection \<open>Properties\<close>

text \<open>
  Opening the file ends after at most ten attempts and at most 51.1 seconds of waiting, and it
  fails for good only when all ten attempts failed.
\<close>

lemma attempt_open_bounded:
  "case attempt_loop Open stopped 0 of (r, n, waited) \<Rightarrow>
     n \<le> 10 \<and> waited \<le> 51100 * Millisecond \<and> (\<forall>err. r = CannotOpen err \<longrightarrow> (\<forall>j \<le> 9. isl (Open j)))"
proof -
  obtain r n waited where eq: "attempt_loop Open stopped 0 = (r, n, waited)" by (metis prod_cases3)
  from attempt_loop_bounds [OF eq] show ?thesis by (simp add: eq defaultRetryInterval_def)
qed

text \<open>
  C16: what was read since the file was opened, what the reader's buffer holds and what is left in the
  file are the contents of the file, as long as the file was not rotated, whoever writes, reads and
  rotates when; and reading never finds a nil reader.
\<close>

theorem tail_reads_in_order:
  assumes "newTail NewWatcher filename = Ok t" "tail_step\<^sup>*\<^sup>* (tail_start t contents) s"
  shows "(tw_same s \<longrightarrow> (\<exists>buf rest. t_reader (tw_tail s) = Some (buf, rest) \<and> tw_delivered s @ buf @ rest = tw_file s)) \<and>
    Tail_Read n m (tw_tail s) \<noteq> None"
  using tail_inv_reachable [OF assms] by (auto simp: tail_inv_def Tail_Read_def split: option.splits prod.splits)

text \<open>
  After the file was rotated there is a moment in which the file is closed and the next one not yet
  opened. A reader that has emptied its buffer then gets an error that is not the end of the file, and
  the file log watcher ends on such an error.
\<close>

lemma read_while_rotating:
  assumes "tw_pc s = TWatch" "tail_inv s" "tw_events s = [name]" "filepath_Clean name = t_filename (tw_tail s)"
    and "t_reader (tw_tail s) = Some ([], rest)"
  shows "\<exists>s'. tail_loop_step s s' \<and> Tail_Read n m (tw_tail s') = Some (([], Some FileClosed), tw_tail s')"
proof -
  have "tail_loop_step s ((close_file s)\<lparr>tw_pc := TOpen, tw_events := []\<rparr>)" by (rule tail_rotated [OF assms(1,3,4)])
  moreover have "Tail_Read n m (tw_tail (close_file s)) = Some (([], Some FileClosed), tw_tail (close_file s))"
    using assms(1,2,5) by (simp add: Tail_Read_def close_file_def tail_inv_def bufio_Read_def)
  ultimately show ?thesis by (intro exI conjI) (assumption, simp)
qed

text \<open>What was not read of a rotated file is dropped when the next one is opened.\<close>

lemma rotated_file_dropped:
  assumes "tw_pc s = TOpen" "t_reader (tw_tail s) = Some (buf, rest)"
  shows "\<exists>s'. tail_loop_step s s' \<and> tw_lost s' = tw_lost s @ [buf @ rest] \<and> t_reader (tw_tail s') = Some ([], tw_file s)"
proof -
  let ?t = "(tw_tail s)\<lparr>t_readerErr := None, t_reader := Some ([], tw_file s), t_fileOpen := True\<rparr>"
  have "Tail_attemptOpen (\<lambda>_. Ok (tw_file s)) (\<lambda>_. False) (tw_tail s) = (True, ?t)"
    by (simp add: Tail_attemptOpen_def attempt_loop.simps)
  from tail_opened [OF assms(1) this] show ?thesis using assms(2) by (intro exI conjI) (assumption | simp add: unread_def)+
qed

text \<open>A rotation between opening the file and watching its directory is not noticed.\<close>

lemma rotation_missed:
  assumes "tw_pc s = TAdd" "tw_events s = []"
  shows "\<exists>s1 s2. tail_env_step s s1 \<and> tail_loop_step s1 s2 \<and> tw_pc s2 = TWatch \<and> \<not> tw_same s2 \<and> tw_events s2 = []"
proof -
  let ?s1 = "s\<lparr>tw_file := [], tw_same := False, tw_events := tw_events s @ (if tw_pc s = TWatch then [[]] else [])\<rparr>"
  have "tail_env_step s ?s1" by (rule tail_rotate)
  moreover have "tail_loop_step ?s1 (?s1\<lparr>tw_pc := TWatch\<rparr>)" by (rule tail_added) (simp add: assms)
  ultimately show ?thesis using assms by (intro exI conjI) (assumption | simp)+
qed

text \<open>The name in an event is cleaned and the configured path is not: rotations of such a path are never noticed.\<close>

lemma unclean_path_not_followed: "filepath_Clean ''/var/log//kern.log'' \<noteq> ''/var/log//kern.log''"
  by code_simp

subsection \<open>Witness\<close>

definition sample_tail :: "unit Tail" where
  "sample_tail = \<lparr>t_filename = ''/log'', t_reader = None, t_fileOpen = False, t_readerErr = Some IoEOF, t_stop = False\<rparr>"

definition sample_opened :: "unit tailLoop" where
  "sample_opened = (tail_start sample_tail ''ab'')\<lparr>tw_pc := TAdd,
     tw_tail := sample_tail\<lparr>t_readerErr := None, t_reader := Some ([], ''ab''), t_fileOpen := True\<rparr>, tw_same := True\<rparr>"

theorem tail_reads_in_order_witness:
  "tail_step\<^sup>*\<^sup>* (tail_start sample_tail ''ab'') sample_opened \<and> tw_same sample_opened \<and>
   (\<exists>buf rest. t_reader (tw_tail sample_opened) = Some (buf, rest) \<and> tw_delivered sample_opened @ buf @ rest = tw_file sample_opened)"
proof -
  have "Tail_attemptOpen (\<lambda>_. Ok ''ab'') (\<lambda>_. False) sample_tail =
      (True, sample_tail\<lparr>t_readerErr := None, t_reader := Some ([], ''ab''), t_fileOpen := True\<rparr>)"
    by (simp add: Tail_attemptOpen_def attempt_loop.simps)
  from tail_opened [of "tail_start sample_tail ''ab''", OF _ _, of "\<lambda>_. Ok ''ab''" "\<lambda>_. False"] this
  have "tail_loop_step (tail_start sample_tail ''ab'') sample_opened"
    by (simp add: tail_start_def sample_opened_def unread_def sample_tail_def)
  then have reached: "tail_step\<^sup>*\<^sup>* (tail_start sample_tail ''ab'') sample_opened" by blast
  have "newTail None ''/log'' = Ok sample_tail" by (simp add: newTail_def sample_tail_def)
  from tail_reads_in_order [OF this reached, of 1 1] reached show ?thesis by (simp add: sample_opened_def)
qed

end
