(* ===== verification/NPD_Main.thy ===== *)
theory NPD_Main
  imports K8s_Exporter Problem_Detector "HOL-Library.Char_ord" "HOL-Library.List_Lexorder"
begin

text \<open>
  The main function (\<^verbatim>\<open>cmd/nodeproblemdetector/node_problem_detector.go\<close>): completing the options, making
  the problem daemons and the exporters and running the problem detector with them; and the way of a
  condition from the problem detector through the Kubernetes exporter to the node, with the loop of the
  condition manager running beside it.
\<close>

subsection \<open>The main function\<close>

text \<open>
  The exporters: the Kubernetes exporter with the events it has recorded, the Prometheus exporter with
  its address, and what the registered handlers make.
\<close>

datatype ('r, 'x) npd_exporter = K8sExporter "'r k8sExporter" "'r recorded_event list" | PrometheusExporter string | Plugable 'x

definition npd_ExportProblems ::
    "(string \<Rightarrow> string \<Rightarrow> string \<Rightarrow> 'r) \<Rightarrow> (Status \<Rightarrow> 'x \<Rightarrow> 'x) \<Rightarrow> Status \<Rightarrow> ('r, 'x) npd_exporter \<Rightarrow> ('r, 'x) npd_exporter" where
  "npd_ExportProblems getEventRecorder export_plugable status exporter =
     (case exporter of
        K8sExporter ke recorded \<Rightarrow>
          (case k8sExporter_ExportProblems getEventRecorder status ke of (evs, ke) \<Rightarrow> K8sExporter ke (recorded @ evs))
      | PrometheusExporter address \<Rightarrow> PrometheusExporter (prometheusExporter_ExportProblems status address)
      | Plugable x \<Rightarrow> Plugable (export_plugable status x))"

datatype 'e main_exit =
    VersionPrinted
  | OptionsDied "'e options_panic"
  | DaemonsDied "'e registry_panic"
  | NoDaemonConfigured
  | K8sExporterDied "'e config_error"
  | PrometheusExporterDied 'e
  | ExportersDied "'e registry_panic"
  | NoExporterSetUp
  | RunFailed detector_error

record ('m, 'x, 'o, 'e, 'srv) main_lib =
  mn_Getenv :: "string \<Rightarrow> string"
  mn_Hostname :: "'e + string"
  mn_url_Parse :: "string \<Rightarrow> 'e option"
  mn_URL :: "string \<Rightarrow> URL"
  mn_daemons :: "string \<rightharpoonup> ('m, 'e) ProblemDaemonHandler"
  mn_daemonOrder :: "(string \<rightharpoonup> 'm) \<Rightarrow> string list"
  mn_Start :: "'m \<Rightarrow> 'e + bool"
  mn_InClusterConfig :: "'e + rest_Config"
  mn_LoadConfig :: "string \<Rightarrow> 'e + rest_Config"
  mn_ReadFile :: "string \<Rightarrow> string option"
  mn_ticks :: nat
  mn_Get :: "string \<Rightarrow> 'srv \<Rightarrow> ('e + Node) \<times> 'srv"
  mn_NewPrometheus :: "'e option"
  mn_exporters :: "string \<rightharpoonup> ('x, 'o, 'e) ExporterHandler"
  mn_exporterOrder :: "string list"

definition default_exporters ::
    "('m, 'x, 'o, 'e, 'srv) main_lib \<Rightarrow> NodeProblemDetectorOptions \<Rightarrow> 'srv \<Rightarrow> 'e main_exit + ('r, 'x) npd_exporter list \<times> 'srv" where
  "default_exporters lib npdo srv =
     (case k8s_NewExporterOrDie (mn_InClusterConfig lib) (mn_LoadConfig lib) (mn_ReadFile lib) (mn_URL lib) (mn_ticks lib)
             (mn_Get lib) npdo srv of
        Inl err \<Rightarrow> Err (K8sExporterDied err)
      | Inr (ke, srv) \<Rightarrow>
          (case prometheus_NewExporterOrDie (mn_NewPrometheus lib) npdo of
             Inl err \<Rightarrow> Err (PrometheusExporterDied err)
           | Inr pe \<Rightarrow>
               Ok ((case ke of None \<Rightarrow> [] | Some ke \<Rightarrow> [K8sExporter ke []]) @
                   (case pe of None \<Rightarrow> [] | Some address \<Rightarrow> [PrometheusExporter address]), srv)))"

text \<open>\<open>order\<close> is the order in which the map of configuration paths is ranged over.\<close>

definition npdMain ::
    "('m, 'x, 'o, 'e, 'srv) main_lib \<Rightarrow> string list \<Rightarrow> NodeProblemDetectorOptions \<Rightarrow> 'srv \<Rightarrow>
     'e main_exit + ('m, ('r, 'x) npd_exporter) problemDetector \<times> ('m, ('r, 'x) npd_exporter) detector \<times> 'srv" where
  "npdMain lib order npdo srv =
     (if o_PrintVersion npdo then Err VersionPrinted
      else
        and_then (map_sum OptionsDied id (complete_options (mn_Getenv lib) (mn_Hostname lib) (mn_url_Parse lib) order npdo)) (\<lambda>npdo.
        and_then (map_sum DaemonsDied id (NewProblemDaemons (mn_daemons lib) order (mn_daemonOrder lib) (o_MonitorConfigPaths npdo)))
          (\<lambda>problemDaemons.
        if problemDaemons = [] then Err NoDaemonConfigured
        else
          and_then (default_exporters lib npdo srv) (\<lambda>(defaultExporters, srv).
          and_then (map_sum ExportersDied id (NewExporters (mn_exporterOrder lib) (mn_exporters lib))) (\<lambda>plugableExporters.
          let npdExporters = defaultExporters @ map Plugable plugableExporters in
          if npdExporters = [] then Err NoExporterSetUp
          else
            let p = NewProblemDetector problemDaemons npdExporters in
            and_then (map_sum RunFailed id (problemDetector_Run (mn_Start lib) p)) (\<lambda>d. Ok (p, d, srv)))))))"

subsection \<open>From the detector to the node\<close>

text \<open>
  The problem detector, the conditions of the status it is exporting that the exporter has not yet
  passed to \<^verbatim>\<open>UpdateCondition\<close>, and the loop of the condition manager. The detector takes no further
  status while it exports one.
\<close>

record ('m, 'x, 's) pipeline =
  pl_det :: "('m, 'x) detector"
  pl_pending :: "Condition list"
  pl_sync :: "'s syncLoop"

definition passed :: "Condition \<Rightarrow> 's syncLoop \<Rightarrow> 's syncLoop" where
  "passed c s = s\<lparr>sl_mgr := conditionManager_UpdateCondition c (sl_mgr s), sl_last := (sl_last s)(c_Type c \<mapsto> c)\<rparr>"

inductive pipeline_step ::
    "(Status \<Rightarrow> 'x \<Rightarrow> 'x) \<Rightarrow> ('m, 'x) problemDetector \<Rightarrow> (NodeCondition list \<Rightarrow> 's \<Rightarrow> 'e option \<times> 's) \<Rightarrow>
     ('m, 'x, 's) pipeline \<Rightarrow> ('m, 'x, 's) pipeline \<Rightarrow> bool"
  for ExportProblems p SetConditions where
  pl_other: "detector_step ExportProblems p (pl_det s) d \<Longrightarrow> d_exported d = d_exported (pl_det s) \<Longrightarrow>
     pipeline_step ExportProblems p SetConditions s (s\<lparr>pl_det := d\<rparr>)"
| pl_export: "pl_pending s = [] \<Longrightarrow> detector_step ExportProblems p (pl_det s) d \<Longrightarrow> d_exported d = d_exported (pl_det s) @ [(i, status)] \<Longrightarrow>
     pipeline_step ExportProblems p SetConditions s (s\<lparr>pl_det := d, pl_pending := s_Conditions status\<rparr>)"
| pl_update: "pl_pending s = c # cs \<Longrightarrow>
     pipeline_step ExportProblems p SetConditions s (s\<lparr>pl_pending := cs, pl_sync := passed c (pl_sync s)\<rparr>)"
| pl_loop: "sync_step (\<lambda>_. False) SetConditions (pl_sync s) s' \<Longrightarrow>
     pipeline_step ExportProblems p SetConditions s (s\<lparr>pl_sync := s'\<rparr>)"

definition pipeline_start :: "('m, 'x) detector \<Rightarrow> duration \<Rightarrow> 's \<Rightarrow> ('m, 'x, 's) pipeline" where
  "pipeline_start d heartbeatPeriod client = \<lparr>pl_det = d, pl_pending = [], pl_sync = sync_start heartbeatPeriod client\<rparr>"

definition exported_conditions :: "('m, 'x) detector \<Rightarrow> Condition list" where
  "exported_conditions d = concat (map (s_Conditions \<circ> snd) (d_exported d))"

subsection \<open>Lemmas\<close>

lemma sync_step_mono:
  assumes "sync_step (\<lambda>_. False) SetConditions s s'"
  shows "sync_step good SetConditions s s'" "sl_last s' = sl_last s"
  using assms
proof (atomize (full), induction rule: sync_step.induct)
  case (sync_tick s order needUpdate c now now')
  have "sync_step good SetConditions s (s\<lparr>sl_mgr := c,
      sl_pc := if needUpdate \<or> conditionManager_needResync now c \<or> conditionManager_needHeartbeat now' c then SyncDue else SyncWait\<rparr>)"
    by (rule sync_step.sync_tick [OF sync_tick])
  then show ?case by simp
qed (auto intro: sync_step.intros)

lemma fold_passed: "sl_mgr (fold passed cs s) = fold conditionManager_UpdateCondition cs (sl_mgr s)"
  by (induction cs arbitrary: s) (simp_all add: passed_def)

text \<open>Passing all the conditions of a status on is what \<^verbatim>\<open>ExportProblems\<close> does to the manager.\<close>

lemma export_passes_conditions:
  assumes "ke_updateConditions ke" "k8sExporter_ExportProblems g status ke = (recorded, ke')" "sl_mgr s = ke_conditionManager ke"
  shows "sl_mgr (fold passed (s_Conditions status) s) = ke_conditionManager ke'"
  using assms by (auto simp: fold_passed k8sExporter_ExportProblems_def Let_def split: prod.splits if_splits)

definition pipeline_inv ::
    "(Status \<Rightarrow> 'x \<Rightarrow> 'x) \<Rightarrow> ('m, 'x) problemDetector \<Rightarrow> (NodeCondition list \<Rightarrow> 's \<Rightarrow> 'e option \<times> 's) \<Rightarrow> duration \<Rightarrow> 's \<Rightarrow>
     ('m, 'x, 's) pipeline \<Rightarrow> bool" where
  "pipeline_inv ExportProblems p SetConditions heartbeatPeriod client s \<longleftrightarrow>
     detector_inv ExportProblems p (pl_det s) \<and>
     (sync_step (\<lambda>_. True) SetConditions)\<^sup>*\<^sup>* (sync_start heartbeatPeriod client) (pl_sync s) \<and>
     (\<exists>cs. exported_conditions (pl_det s) = cs @ pl_pending s \<and>
        (\<forall>t. sl_last (pl_sync s) t = find (\<lambda>u. c_Type u = t) (rev cs)))"

lemma pipeline_inv_step:
  "pipeline_step ExportProblems p SetConditions s s' \<Longrightarrow> pipeline_inv ExportProblems p SetConditions h client s \<Longrightarrow>
   pipeline_inv ExportProblems p SetConditions h client s'"
proof (induction rule: pipeline_step.induct)
  case (pl_other s d)
  then show ?case by (auto simp: pipeline_inv_def exported_conditions_def intro: detector_inv_step)
next
  case (pl_export s d i status)
  then show ?case by (auto simp: pipeline_inv_def exported_conditions_def intro: detector_inv_step)
next
  case (pl_update s c cs)
  have "sync_step (\<lambda>_. True) SetConditions (pl_sync s) (passed c (pl_sync s))"
    unfolding passed_def by (rule sync_update) simp
  with pl_update show ?case
    by (auto simp: pipeline_inv_def passed_def intro: rtranclp.rtrancl_into_rtrancl)
next
  case (pl_loop s s')
  with sync_step_mono(1) [OF pl_loop(1), of "\<lambda>_. True"] sync_step_mono(2) [OF pl_loop(1)] show ?case
    by (auto simp: pipeline_inv_def intro: rtranclp.rtrancl_into_rtrancl)
qed

lemma pipeline_inv_start:
  "problemDetector_Run Start p = Ok d \<Longrightarrow> pipeline_inv ExportProblems p SetConditions h client (pipeline_start d h client)"
  using detector_inv_start [of Start p d ExportProblems]
  by (auto simp: pipeline_inv_def pipeline_start_def exported_conditions_def sync_start_def problemDetector_Run_def
      split: prod.splits if_splits)

lemma pipeline_inv_reachable:
  assumes "problemDetector_Run Start p = Ok d" "(pipeline_step ExportProblems p SetConditions)\<^sup>*\<^sup>* (pipeline_start d h client) s"
  shows "pipeline_inv ExportProblems p SetConditions h client s"
  using assms(2) by (induction rule: rtranclp_induct) (auto intro: pipeline_inv_start [OF assms(1)] pipeline_inv_step)

lemma npdMain_Ok:
  assumes "npdMain lib order npdo srv = Ok (p, d, srv')"
  obtains npdo' es es' where "complete_options (mn_Getenv lib) (mn_Hostname lib) (mn_url_Parse lib) order npdo = Ok npdo'"
    "NewProblemDaemons (mn_daemons lib) order (mn_daemonOrder lib) (o_MonitorConfigPaths npdo') = Ok (pd_monitors p)"
    "default_exporters lib npdo' srv = Ok (es, srv')" "NewExporters (mn_exporterOrder lib) (mn_exporters lib) = Ok es'"
    "pd_exporters p = es @ map Plugable es'" "pd_exporters p \<noteq> []" "problemDetector_Run (mn_Start lib) p = Ok d"
  using assms by (auto simp: npdMain_def Let_def NewProblemDetector_def map_sum_def split: if_splits prod.splits sum.splits)

lemma k8s_exporter_first:
  assumes "default_exporters lib npdo srv = Ok (es, srv')" "o_EnableK8sExporter npdo"
  shows "\<exists>ke es'. es = K8sExporter ke [] # es' \<and> ke_conditionManager ke = NewConditionManager (o_K8sExporterHeartbeatPeriod npdo)"
  using assms
  by (auto simp: default_exporters_def k8s_NewExporterOrDie_def split: sum.splits option.splits prod.splits)

lemma complete_options_k8s:
  "complete_options Getenv Hostname url_Parse order npdo = Ok npdo' \<Longrightarrow> o_EnableK8sExporter npdo' = o_EnableK8sExporter npdo"
  by (auto simp: complete_options_def SetNodeNameOrDie_def SetConfigFromDeprecatedOptionsOrDie_def move_system_log_def
      move_custom_plugin_def Let_def split: option.splits if_splits sum.splits)

subsection \<open>Property\<close>

text \<open>
  C18: when the main function gets to run the problem detector, there is exactly one problem daemon for
  every configuration path the user gave, by whatever option, at least one exporter, and the
  Kubernetes exporter comes first if it is enabled. The maps are ranged over in any order.
\<close>

theorem npd_main_daemons:
  assumes main: "npdMain lib order npdo srv = Ok (p, d, srv')"
    and order: "\<And>npdo'. complete_options (mn_Getenv lib) (mn_Hostname lib) (mn_url_Parse lib) order npdo = Ok npdo' \<Longrightarrow>
      map_order (o_MonitorConfigPaths npdo') order"
    and daemonOrder: "\<And>m. finite (dom m) \<Longrightarrow> map_order m (mn_daemonOrder lib m)"
  shows "length (pd_monitors p) = card (requested_paths npdo) \<and> pd_exporters p \<noteq> [] \<and>
    (o_EnableK8sExporter npdo \<longrightarrow> (\<exists>ke es. pd_exporters p = K8sExporter ke [] # es))"
proof -
  from main obtain npdo' es es' where opts: "complete_options (mn_Getenv lib) (mn_Hostname lib) (mn_url_Parse lib) order npdo = Ok npdo'"
    and daemons: "NewProblemDaemons (mn_daemons lib) order (mn_daemonOrder lib) (o_MonitorConfigPaths npdo') = Ok (pd_monitors p)"
    and es: "default_exporters lib npdo' srv = Ok (es, srv')" "pd_exporters p = es @ map Plugable es'" "pd_exporters p \<noteq> []"
    by (rule npdMain_Ok)
  note order' = order [OF opts]
  have "map_order m (mn_daemonOrder lib m)" if "daemon_map (mn_daemons lib) order (o_MonitorConfigPaths npdo') = Ok m" for m
    using daemonOrder daemon_map_types [OF that [unfolded daemon_map_def]] by simp
  from one_daemon_per_path [OF daemons order' this] options_complete [OF opts order']
  have "length (pd_monitors p) = card (requested_paths npdo)" by (auto simp: all_paths_def)
  moreover have "\<exists>ke es. pd_exporters p = K8sExporter ke [] # es" if "o_EnableK8sExporter npdo"
    using that es k8s_exporter_first [OF es(1)] complete_options_k8s [OF opts] by auto
  ultimately show ?thesis using es(3) by blast
qed

subsection \<open>Witness\<close>

definition sorted_keys :: "(string \<rightharpoonup> 'm) \<Rightarrow> string list" where
  "sorted_keys m = (if finite (dom m) then sorted_list_of_set (dom m) else [])"

definition sample_main_lib :: "(string, unit, unit, unit, unit) main_lib" where
  "sample_main_lib = \<lparr>mn_Getenv = \<lambda>_. ''node-1'', mn_Hostname = Err (), mn_url_Parse = \<lambda>_. None,
     mn_URL = \<lambda>_. \<lparr>u_Scheme = [], u_Host = [], u_Query = \<lambda>_. []\<rparr>, mn_daemons = \<lambda>t. Some \<lparr>pdh_CreateProblemDaemonOrDie = Ok, pdh_CmdOptionDescription = []\<rparr>,
     mn_daemonOrder = sorted_keys, mn_Start = \<lambda>_. Ok True, mn_InClusterConfig = Err (), mn_LoadConfig = \<lambda>_. Err (),
     mn_ReadFile = \<lambda>_. None, mn_ticks = 0, mn_Get = \<lambda>_ s. (Err (), s), mn_NewPrometheus = None, mn_exporters = Map.empty,
     mn_exporterOrder = []\<rparr>"

definition sample_main_options :: NodeProblemDetectorOptions where
  "sample_main_options = sample_options\<lparr>o_PrometheusServerPort := 20257\<rparr>"

definition sample_main :: "unit main_exit + (string, (unit, unit) npd_exporter) problemDetector \<times> (string, (unit, unit) npd_exporter) detector \<times> unit" where
  "sample_main = npdMain sample_main_lib sample_daemon_names sample_main_options ()"

theorem npd_main_daemons_witness:
  "\<exists>p d. sample_main = Ok (p, d, ()) \<and> length (pd_monitors p) = 1 \<and> pd_exporters p \<noteq> []"
proof -
  let ?done = "sample_completed\<lparr>o_PrometheusServerPort := 20257\<rparr>"
  have opts: "complete_options (mn_Getenv sample_main_lib) (mn_Hostname sample_main_lib) (mn_url_Parse sample_main_lib)
      sample_daemon_names sample_main_options = Ok ?done"
    by (simp add: complete_options_def SetNodeNameOrDie_def SetConfigFromDeprecatedOptionsOrDie_def move_system_log_def
        move_custom_plugin_def NodeProblemDetectorOptions_ValidOrDie_def sample_options_def sample_completed_def sample_main_lib_def
        sample_main_options_def NewNodeProblemDetectorOptions_def sample_daemon_names_def systemLogMonitorName_def customPluginMonitorName_def)
  have order: "map_order (o_MonitorConfigPaths ?done) sample_daemon_names"
    by (auto simp: map_order_def sample_completed_def sample_options_def NewNodeProblemDetectorOptions_def
        sample_daemon_names_def systemLogMonitorName_def customPluginMonitorName_def)
  have keys: "map_order m (mn_daemonOrder sample_main_lib m)" if "finite (dom m)" for m
    using that by (simp add: map_order_def sample_main_lib_def sorted_keys_def)
  have daemons: "NewProblemDaemons (mn_daemons sample_main_lib) sample_daemon_names (mn_daemonOrder sample_main_lib)
      (o_MonitorConfigPaths ?done) = Ok [''kernel.json'']"
    by (simp add: NewProblemDaemons_def daemon_map_def create_daemon_def sample_main_lib_def sample_completed_def sample_options_def
        NewNodeProblemDetectorOptions_def sample_daemon_names_def systemLogMonitorName_def customPluginMonitorName_def sorted_keys_def
        List.map_filter_def)
  have exporters: "default_exporters sample_main_lib ?done () =
      (Ok ([PrometheusExporter (net_JoinHostPort [] (strconv_Itoa 20257))], ()) :: unit main_exit + (unit, unit) npd_exporter list \<times> unit)"
    by (simp add: default_exporters_def k8s_NewExporterOrDie_def prometheus_NewExporterOrDie_def sample_main_lib_def sample_completed_def
        sample_options_def NewNodeProblemDetectorOptions_def)
  have lib: "mn_exporterOrder sample_main_lib = []" "mn_Start sample_main_lib = (\<lambda>_. Ok True)" "\<not> o_PrintVersion sample_main_options"
    by (simp_all add: sample_main_lib_def sample_main_options_def sample_options_def NewNodeProblemDetectorOptions_def)
  have "\<exists>p d. sample_main = Ok (p, d, ())"
    by (simp add: sample_main_def npdMain_def lib opts daemons [simplified] exporters Let_def NewExporters_def problemDetector_Run_def
        start_monitors_def NewProblemDetector_def)
  then obtain p d where main: "sample_main = Ok (p, d, ())" by blast
  have "map_order (o_MonitorConfigPaths npdo') sample_daemon_names"
    if "complete_options (mn_Getenv sample_main_lib) (mn_Hostname sample_main_lib) (mn_url_Parse sample_main_lib)
      sample_daemon_names sample_main_options = Ok npdo'" for npdo'
    using that opts order by simp
  from npd_main_daemons [OF main [unfolded sample_main_def] this keys]
  have "length (pd_monitors p) = card (requested_paths sample_main_options)" "pd_exporters p \<noteq> []" by blast+
  moreover have "requested_paths sample_main_options = {''kernel.json''}"
    by (auto simp: requested_paths_def all_paths_def sample_main_options_def sample_options_def NewNodeProblemDetectorOptions_def
        sample_daemon_names_def split: if_splits)
  ultimately show ?thesis using main by auto
qed

end
