(* ===== verification/Windows_Service.thy ===== *)
theory Windows_Service
  imports NPD_Prelude
begin

text \<open>
  The service that runs node-problem-detector on Windows
  (\<^verbatim>\<open>cmd/nodeproblemdetector/node_problem_detector_windows.go\<close>): which runner the main function takes, and
  the method \<^verbatim>\<open>Execute\<close> with its two goroutines. What the service manager sends is a queue of
  requests, what \<^verbatim>\<open>Execute\<close> reports is the list of states it sent; the service manager always receives.
\<close>

subsection \<open>The runner\<close>

datatype svc_runner = SvcRun | DebugRun

datatype 'l event_log = EventLog 'l | StandardOut

definition isRunningAsWindowsService :: "'e + bool \<Rightarrow> bool" where
  "isRunningAsWindowsService IsWindowsService = (case IsWindowsService of Inl err \<Rightarrow> False | Inr runningAsService \<Rightarrow> runningAsService)"

definition setupLogging :: "'e + 'l \<Rightarrow> bool \<Rightarrow> 'l event_log" where
  "setupLogging eventlog_Open runningAsService =
     (if runningAsService
      then (case eventlog_Open of Inl err \<Rightarrow> StandardOut | Inr l \<Rightarrow> EventLog l)
      else StandardOut)"

definition initializeRun :: "'e + bool \<Rightarrow> 'e + 'l \<Rightarrow> svc_runner \<times> 'l event_log" where
  "initializeRun IsWindowsService eventlog_Open =
     (let runningAsService = isRunningAsWindowsService IsWindowsService;
          elog = setupLogging eventlog_Open runningAsService
      in if runningAsService then (SvcRun, elog) else (DebugRun, elog))"

subsection \<open>The service\<close>

datatype svc_State = StartPending | Running | Paused | StopPending | Stopped | OtherState nat

text \<open>A state with whether stop and shutdown requests are accepted.\<close>

record svc_Status =
  ss_State :: svc_State
  ss_Accepts :: bool

datatype svc_Cmd = Interrogate | Stop | Shutdown | Pause | Continue | OtherCmd nat

record svc_ChangeRequest =
  cr_Cmd :: svc_Cmd
  cr_CurrentStatus :: svc_Status

datatype app_pc = AppRunning | AppReports | AppDone
datatype ctl_pc = CtlSelect | CtlReports "svc_Status list" | CtlDone
datatype exec_pc = ExecWaitsApp | ExecWaitsCtl | ExecReports | ExecReturned

record npdService =
  sv_ctxDone :: bool
  sv_app :: app_pc
  sv_ctl :: ctl_pc
  sv_exec :: exec_pc
  sv_requests :: "svc_ChangeRequest list"
  sv_changes :: "svc_Status list"

text \<open>What \<^verbatim>\<open>Execute\<close> does before its goroutines run.\<close>

definition npdService_start :: npdService where
  "npdService_start =
     \<lparr>sv_ctxDone = False, sv_app = AppRunning, sv_ctl = CtlSelect, sv_exec = ExecWaitsApp, sv_requests = [],
      sv_changes = [\<lparr>ss_State = StartPending, ss_Accepts = False\<rparr>, \<lparr>ss_State = Running, ss_Accepts = True\<rparr>]\<rparr>"

text \<open>One request: the states to report, and whether the context is cancelled.\<close>

definition control_request :: "svc_ChangeRequest \<Rightarrow> svc_Status list \<times> bool" where
  "control_request c =
     (case cr_Cmd c of
        Interrogate \<Rightarrow> ([cr_CurrentStatus c, cr_CurrentStatus c], False)
      | Stop \<Rightarrow> ([], True)
      | Shutdown \<Rightarrow> ([], True)
      | Pause \<Rightarrow> ([\<lparr>ss_State = Paused, ss_Accepts = True\<rparr>], False)
      | Continue \<Rightarrow> ([\<lparr>ss_State = Running, ss_Accepts = True\<rparr>], False)
      | OtherCmd n \<Rightarrow> ([], False))"

text \<open>
  The steps of the goroutines. \<open>returns done\<close> is whether the main function may return when the context is cancelled
  or not.
\<close>

inductive npdService_step :: "(bool \<Rightarrow> bool) \<Rightarrow> npdService \<Rightarrow> npdService \<Rightarrow> bool" for returns where
  app_return: "sv_app s = AppRunning \<Longrightarrow> returns (sv_ctxDone s) \<Longrightarrow> npdService_step returns s (s\<lparr>sv_app := AppReports\<rparr>)"
| app_report: "sv_app s = AppReports \<Longrightarrow>
     npdService_step returns s (s\<lparr>sv_app := AppDone, sv_changes := sv_changes s @ [\<lparr>ss_State = StopPending, ss_Accepts = False\<rparr>]\<rparr>)"
| ctl_ctx: "sv_ctl s = CtlSelect \<Longrightarrow> sv_ctxDone s \<Longrightarrow> npdService_step returns s (s\<lparr>sv_ctl := CtlDone\<rparr>)"
| ctl_request: "sv_ctl s = CtlSelect \<Longrightarrow> sv_requests s = c # cs \<Longrightarrow> control_request c = (reports, cancel) \<Longrightarrow>
     npdService_step returns s
       (s\<lparr>sv_requests := cs, sv_ctl := (if reports = [] then CtlSelect else CtlReports reports), sv_ctxDone := (sv_ctxDone s \<or> cancel)\<rparr>)"
| ctl_report: "sv_ctl s = CtlReports (r # rs) \<Longrightarrow>
     npdService_step returns s
       (s\<lparr>sv_ctl := (if rs = [] then CtlSelect else CtlReports rs), sv_changes := sv_changes s @ [r]\<rparr>)"
| exec_app: "sv_exec s = ExecWaitsApp \<Longrightarrow> sv_app s = AppDone \<Longrightarrow> npdService_step returns s (s\<lparr>sv_exec := ExecWaitsCtl\<rparr>)"
| exec_ctl: "sv_exec s = ExecWaitsCtl \<Longrightarrow> sv_ctl s = CtlDone \<Longrightarrow> npdService_step returns s (s\<lparr>sv_exec := ExecReports\<rparr>)"
| exec_report: "sv_exec s = ExecReports \<Longrightarrow>
     npdService_step returns s (s\<lparr>sv_exec := ExecReturned, sv_changes := sv_changes s @ [\<lparr>ss_State = Stopped, ss_Accepts = True\<rparr>]\<rparr>)"

inductive_cases npdService_stepE: "npdService_step returns s s'"

text \<open>The service manager sends a request.\<close>

inductive manager_step :: "npdService \<Rightarrow> npdService \<Rightarrow> bool" where
  manager_send: "manager_step s (s\<lparr>sv_requests := sv_requests s @ [c]\<rparr>)"

definition service_step :: "(bool \<Rightarrow> bool) \<Rightarrow> npdService \<Rightarrow> npdService \<Rightarrow> bool" where
  "service_step returns s s' \<longleftrightarrow> npdService_step returns s s' \<or> manager_step s s'"

subsection \<open>The invariant\<close>

definition service_inv :: "npdService \<Rightarrow> bool" where
  "service_inv s \<longleftrightarrow>
     (sv_exec s \<noteq> ExecWaitsApp \<longrightarrow> sv_app s = AppDone) \<and>
     (sv_exec s \<in> {ExecReports, ExecReturned} \<longrightarrow> sv_ctl s = CtlDone) \<and>
     (sv_ctl s = CtlDone \<longrightarrow> sv_ctxDone s) \<and>
     (\<forall>rs. sv_ctl s = CtlReports rs \<longrightarrow> rs \<noteq> []) \<and>
     (\<exists>rest. sv_changes s = sv_changes npdService_start @ rest) \<and>
     (sv_exec s = ExecReturned \<longrightarrow> ss_State (last (sv_changes s)) = Stopped) \<and>
     (sv_app s = AppDone \<longrightarrow> StopPending \<in> ss_State ` set (sv_changes s))"

lemma service_inv_start: "service_inv npdService_start"
  by (simp add: service_inv_def npdService_start_def)

lemma service_inv_npdService_step: "npdService_step returns s s' \<Longrightarrow> service_inv s \<Longrightarrow> service_inv s'"
  by (induction rule: npdService_step.induct) (simp_all add: service_inv_def, (elim conjE exE, simp)+)

lemma service_inv_step: "service_step returns s s' \<Longrightarrow> service_inv s \<Longrightarrow> service_inv s'"
  unfolding service_step_def
proof (erule disjE)
  assume "manager_step s s'" "service_inv s"
  then show "service_inv s'" by (auto simp: service_inv_def manager_step.simps)
qed (rule service_inv_npdService_step)

lemma service_inv_reachable: "(service_step returns)\<^sup>*\<^sup>* npdService_start s \<Longrightarrow> service_inv s"
  by (induction rule: rtranclp_induct) (auto intro: service_inv_start service_inv_step)

text \<open>After \<^verbatim>\<open>Execute\<close> returned nothing is reported, so nothing is sent on a closed channel.\<close>

lemma returned_quiet: "service_inv s \<Longrightarrow> sv_exec s = ExecReturned \<Longrightarrow> \<not> npdService_step returns s s'"
  by (auto simp: service_inv_def elim!: npdService_stepE)

subsection \<open>Progress\<close>

text \<open>The work that is left once the context is cancelled.\<close>

primrec app_work :: "app_pc \<Rightarrow> nat" where
  "app_work AppRunning = 2"
| "app_work AppReports = 1"
| "app_work AppDone = 0"

primrec ctl_work :: "ctl_pc \<Rightarrow> nat" where
  "ctl_work CtlSelect = 1"
| "ctl_work (CtlReports rs) = 1 + length rs"
| "ctl_work CtlDone = 0"

primrec exec_work :: "exec_pc \<Rightarrow> nat" where
  "exec_work ExecWaitsApp = 3"
| "exec_work ExecWaitsCtl = 2"
| "exec_work ExecReports = 1"
| "exec_work ExecReturned = 0"

definition service_work :: "npdService \<Rightarrow> nat" where
  "service_work s = app_work (sv_app s) + ctl_work (sv_ctl s) + 4 * length (sv_requests s) + exec_work (sv_exec s)"

lemma control_request_reports: "control_request c = (reports, cancel) \<Longrightarrow> length reports \<le> 2"
  by (auto simp: control_request_def split: svc_Cmd.splits)

lemma npdService_step_work: "npdService_step returns s s' \<Longrightarrow> service_work s' < service_work s"
proof (induction rule: npdService_step.induct)
  case (ctl_request s c cs reports cancel)
  with control_request_reports [OF ctl_request(3)] show ?case by (simp add: service_work_def)
qed (simp_all add: service_work_def)

lemma cancelled_steps:
  assumes "service_inv s" "sv_ctxDone s" "returns True" "sv_exec s \<noteq> ExecReturned"
  shows "\<exists>s'. npdService_step returns s s'"
proof (cases "sv_app s")
  case AppRunning
  with assms app_return [of s returns] show ?thesis by auto
next
  case AppReports
  with app_report [of s returns] show ?thesis by auto
next
  case AppDone
  show ?thesis
  proof (cases "sv_ctl s")
    case CtlSelect
    with assms ctl_ctx [of s returns] show ?thesis by auto
  next
    case (CtlReports rs)
    with assms(1) obtain r rs' where "rs = r # rs'" by (cases rs) (auto simp: service_inv_def)
    with CtlReports ctl_report [of s r rs' returns] show ?thesis by auto
  next
    case CtlDone
    with AppDone assms(4) exec_app [of s returns] exec_ctl [of s returns] exec_report [of s returns] show ?thesis
      by (cases "sv_exec s") auto
  qed
qed

lemma ctxDone_step: "npdService_step returns s s' \<Longrightarrow> sv_ctxDone s \<Longrightarrow> sv_ctxDone s'"
  by (induction rule: npdService_step.induct) auto

lemma cancelled_returns:
  assumes "service_inv s" "sv_ctxDone s" "returns True"
  shows "\<exists>s'. (npdService_step returns)\<^sup>*\<^sup>* s s' \<and> sv_exec s' = ExecReturned"
  using assms
proof (induction "service_work s" arbitrary: s rule: less_induct)
  case less
  show ?case
  proof (cases "sv_exec s = ExecReturned")
    case False
    obtain s1 where s1: "npdService_step returns s s1" using cancelled_steps [of s returns] less.prems False by blast
    with less.hyps [OF npdService_step_work [OF s1]] less.prems obtain s' where
      "(npdService_step returns)\<^sup>*\<^sup>* s1 s'" "sv_exec s' = ExecReturned"
      using service_inv_npdService_step ctxDone_step by blast
    with s1 show ?thesis by (meson converse_rtranclp_into_rtranclp)
  qed auto
qed

subsection \<open>Properties\<close>


text \<open>
  The control loop ends only when the context is cancelled. When the main function returns by itself, as
  it does when it was asked for the version or when no problem daemon could be started, the service stays in
  the state in which it waits for the control loop until a stop request comes.
\<close>

definition service_hangs :: npdService where
  "service_hangs = npdService_start\<lparr>sv_app := AppDone, sv_exec := ExecWaitsCtl,
     sv_changes := sv_changes npdService_start @ [\<lparr>ss_State = StopPending, ss_Accepts = False\<rparr>]\<rparr>"

lemma service_hangs_until_stop:
  "(service_step (\<lambda>_. True))\<^sup>*\<^sup>* npdService_start service_hangs \<and> sv_exec service_hangs \<noteq> ExecReturned \<and>
   (\<nexists>s'. npdService_step returns service_hangs s')"
proof -
  let ?s1 = "npdService_start\<lparr>sv_app := AppReports\<rparr>"
  let ?s2 = "?s1\<lparr>sv_app := AppDone, sv_changes := sv_changes ?s1 @ [\<lparr>ss_State = StopPending, ss_Accepts = False\<rparr>]\<rparr>"
  have "npdService_step (\<lambda>_. True) npdService_start ?s1" "npdService_step (\<lambda>_. True) ?s1 ?s2"
    "npdService_step (\<lambda>_. True) ?s2 (?s2\<lparr>sv_exec := ExecWaitsCtl\<rparr>)"
    by (rule app_return app_report exec_app; simp add: npdService_start_def)+
  moreover have "?s2\<lparr>sv_exec := ExecWaitsCtl\<rparr> = service_hangs" by (simp add: service_hangs_def)
  ultimately have "(service_step (\<lambda>_. True))\<^sup>*\<^sup>* npdService_start service_hangs"
    by (metis service_step_def rtranclp.rtrancl_into_rtrancl rtranclp.rtrancl_refl)
  moreover have "\<not> npdService_step returns service_hangs s'" for s'
    by (auto simp: service_hangs_def npdService_start_def elim: npdService_stepE)
  ultimately show ?thesis by (simp add: service_hangs_def)
qed

subsection \<open>Witness\<close>

definition service_stopping :: npdService where
  "service_stopping = npdService_start\<lparr>sv_ctxDone := True\<rparr>"

lemma service_stopping_reachable: "(service_step (\<lambda>d. d))\<^sup>*\<^sup>* npdService_start service_stopping"
proof -
  let ?c = "\<lparr>cr_Cmd = Stop, cr_CurrentStatus = \<lparr>ss_State = Running, ss_Accepts = True\<rparr>\<rparr>"
  let ?s1 = "npdService_start\<lparr>sv_requests := [?c]\<rparr>"
  have "manager_step npdService_start ?s1"
    using manager_send [of npdService_start ?c] by (simp add: npdService_start_def)
  moreover have "npdService_step (\<lambda>d. d) ?s1 service_stopping"
    using ctl_request [of ?s1 ?c "[]" "[]" True "\<lambda>d. d"]
    by (simp add: npdService_start_def service_stopping_def control_request_def)
  ultimately show ?thesis
    by (meson service_step_def rtranclp.rtrancl_into_rtrancl rtranclp.rtrancl_refl)
qed


end
