(* ===== verification/Windows_Port.thy ===== *)
theory Windows_Port
  imports Health_Checker Memory_Collector Log_Watcher
begin

text \<open>
  The functions that Windows has its own version of: running and killing processes
  (\<^verbatim>\<open>pkg/util/exec_windows.go\<close>), uptime and version of the system (\<^verbatim>\<open>pkg/util/helpers_windows.go\<close>), the
  memory collector (\<^verbatim>\<open>memory_collector_windows.go\<close>) and the commands of the health checker
  (\<^verbatim>\<open>health_checker_windows.go\<close>). What a process prints, the registry and \<^verbatim>\<open>gopsutil\<close> are arguments.
\<close>

subsection \<open>Processes\<close>

text \<open>A command: its name and arguments. The commands that were run are a list, oldest first.\<close>

type_synonym command = "string \<times> string list"

definition Powershell :: "string list \<Rightarrow> command" where
  "Powershell args = (''powershell.exe'', [''-NoLogo'', ''-NoProfile'', ''-NonInteractive'', ''-ExecutionPolicy'', ''RemoteSigned''] @ args)"

text \<open>The errors of running a command: it ended with an exit code, or something else went wrong.\<close>

datatype 'e run_error = ExitError int | RunError 'e

datatype 'e kill_error = NoProcessHandle | TaskkillFailed "'e run_error"

definition Kill_windows :: "(command \<Rightarrow> 'e run_error option) \<Rightarrow> int option \<Rightarrow> 'e kill_error option \<times> command list" where
  "Kill_windows Run pid =
     (case pid of
        None \<Rightarrow> (Some NoProcessHandle, [])
      | Some pid \<Rightarrow>
          (let kill = (''TASKKILL'', [''/T'', ''/F'', ''/PID'', strconv_Itoa pid]) in
           case Run kill of
             None \<Rightarrow> (None, [kill])
           | Some (ExitError code) \<Rightarrow> (if code = 128 then (None, [kill]) else (Some (TaskkillFailed (ExitError code)), [kill]))
           | Some err \<Rightarrow> (Some (TaskkillFailed err), [kill])))"

subsection \<open>Uptime and version\<close>

definition GetUptimeDuration_windows :: "'e + uint64 \<Rightarrow> 'e + duration" where
  "GetUptimeDuration_windows host_Uptime = map_sum (\<lambda>e. e) sint host_Uptime"

record 'e registry =
  rg_OpenKey :: "'e option"
  rg_GetStringValue :: "string \<Rightarrow> 'e + string"
  rg_GetIntegerValue :: "string \<Rightarrow> 'e + uint64"

definition GetOSVersion_windows :: "'e registry \<Rightarrow> 32 word \<times> 32 word \<times> 32 word \<Rightarrow> 'e + string" where
  "GetOSVersion_windows k RtlGetNtVersionNumbers =
     (case rg_OpenKey k of
        Some err \<Rightarrow> Err err
      | None \<Rightarrow>
          (let productName = (case rg_GetStringValue k ''ProductName'' of Inl err \<Rightarrow> ''windows'' | Inr v \<Rightarrow> v);
               ubr = (case rg_GetIntegerValue k ''UBR'' of Inl err \<Rightarrow> 0 | Inr v \<Rightarrow> v);
               (major, minor, build) = RtlGetNtVersionNumbers
           in Ok (''windows '' @ strconv_Itoa (uint major) @ ''.'' @ strconv_Itoa (uint minor) @ ''.'' @ strconv_Itoa (uint build) @
                  ''.'' @ strconv_Itoa (uint ubr) @ '' ('' @ productName @ '')'')))"

subsection \<open>Memory\<close>

text \<open>\<^verbatim>\<open>gopsutil\<close> gives the memory in bytes.\<close>

record 'f VirtualMemoryStat =
  vm_Available :: uint64
  vm_Used :: uint64
  vm_UsedPercent :: 'f

definition memoryCollector_collect_windows :: "'e + 'f VirtualMemoryStat \<Rightarrow> memoryCollector option \<Rightarrow> 'f sample list" where
  "memoryCollector_collect_windows mem_VirtualMemory mc =
     (case mc of
        None \<Rightarrow> []
      | Some mc \<Rightarrow>
          (case mem_VirtualMemory of
             Inl err \<Rightarrow> []
           | Inr meminfo \<Rightarrow>
               (sample_i64 MemoryBytesUsedID (mm_mBytesUsed mc) [(stateLabel, ''free'')] (vm_Available meminfo * 1024) @
                sample_i64 MemoryBytesUsedID (mm_mBytesUsed mc) [(stateLabel, ''used'')] (vm_Used meminfo * 1024)) @
               sample_f64 MemoryPercentUsedID (mm_mPercentUsed mc) [(stateLabel, ''used'')] (vm_UsedPercent meminfo)))"

subsection \<open>The health checker\<close>

definition DefaultCriCtl_windows :: string where "DefaultCriCtl_windows = ''C:/etc/kubernetes/node/bin/crictl.exe''"
definition DefaultCriSocketPath_windows :: string where "DefaultCriSocketPath_windows = ''npipe:////./pipe/containerd-containerd''"
definition LogParsingTimeFormat_windows :: string where "LogParsingTimeFormat_windows = ''yyyy-MM-dd HH:mm:ss''"

definition getDockerPath_windows :: string where "getDockerPath_windows = ''docker.exe''"

text \<open>The machine: what a command prints, given the commands before it; the clock; and \<^verbatim>\<open>time.Parse\<close> with the layout of the uptime.\<close>

record 'e win_machine =
  wm_Output :: "command list \<Rightarrow> command \<Rightarrow> 'e + string"
  wm_now :: "command list \<Rightarrow> gotime"
  wm_parse :: "string \<Rightarrow> 'e + gotime"

datatype 'e win_error = CommandFailed 'e | NoTimeCreated string | BadTime 'e | BadOccurrences num_error

definition extractCommandOutput :: "'e win_machine \<Rightarrow> command \<Rightarrow> command list \<Rightarrow> ('e + string) \<times> command list" where
  "extractCommandOutput wm cmd w =
     (case wm_Output wm w cmd of
        Inl err \<Rightarrow> (Err err, w @ [cmd])
      | Inr out \<Rightarrow> (Ok (strings_TrimSuffix out [CHR 0x0D, CHR 0x0A]), w @ [cmd]))"

definition powershell :: "'e win_machine \<Rightarrow> string list \<Rightarrow> command list \<Rightarrow> ('e + string) \<times> command list" where
  "powershell wm args w = extractCommandOutput wm (Powershell args) w"

abbreviation quote1 :: string where "quote1 \<equiv> [CHR 0x27]"
abbreviation quote2 :: string where "quote2 \<equiv> [CHR 0x22]"

definition getTimeCreatedCmd :: "string \<Rightarrow> string" where
  "getTimeCreatedCmd service =
     ''$ProcessId = (Get-WMIObject -Class Win32_Service -Filter '' @ quote2 @ ''Name='' @ quote1 @ service @ quote1 @ quote2 @
     '' | Select-Object -ExpandProperty ProcessId);'' @
     ''if ([string]::IsNullOrEmpty($ProcessId) -or $ProcessId -eq 0) { (Get-WinEvent -FilterHashtable @'' @ ''{logname='' @
     quote1 @ ''system'' @ quote1 @ '';id=7036} '' @
     ''| Where-Object {$_.Message -match '' @ quote1 @ ''.*('' @ service @ '').*(running).*'' @ quote1 @
     ''}  | Select-Object -Property TimeCreated -First 1 | '' @
     ''foreach {$_.TimeCreated.ToUniversalTime().ToString('' @ quote1 @ ''R'' @ quote1 @
     '')} | Out-String).Trim() } else { (Get-Process -Id $ProcessId | Select starttime | '' @
     ''foreach {$_.starttime.ToUniversalTime().ToString('' @ quote1 @ ''R'' @ quote1 @ '')} | Out-String).Trim() }''"

definition uptimeFunc_windows ::
    "'e win_machine \<Rightarrow> string \<Rightarrow> command list \<Rightarrow> ('e win_error + duration) \<times> command list" where
  "uptimeFunc_windows wm service w =
     (case powershell wm [getTimeCreatedCmd service] w of
        (Inl err, w) \<Rightarrow> (Err (CommandFailed err), w)
      | (Inr out, w) \<Rightarrow>
          if out = [] then (Err (NoTimeCreated service), w)
          else
            (case wm_parse wm (filter (\<lambda>c. c \<noteq> CHR '','') out) of
               Inl err \<Rightarrow> (Err (BadTime err), w)
             | Inr t \<Rightarrow> (Ok (time_Sub (wm_now wm w) t), w)))"

definition repairFunc_windows :: "'e win_machine \<Rightarrow> HealthCheckerOptions \<Rightarrow> command list \<Rightarrow> command list" where
  "repairFunc_windows wm hco w = snd (powershell wm [''Restart-Service'', hco_Service hco] w)"

definition countPatternLogCmd :: "string \<Rightarrow> string \<Rightarrow> string" where
  "countPatternLogCmd logStartTime logPattern =
     ''@(Get-WinEvent -Logname System | Where-Object {($_.TimeCreated -ge ([datetime]::ParseExact('' @ quote1 @ logStartTime @
     quote1 @ '','' @ quote1 @ LogParsingTimeFormat_windows @ quote1 @ '', $null))) -and ($_.Message -Match '' @ quote1 @ logPattern @
     quote1 @ '')}).count''"

definition checkForPattern_windows ::
    "'e win_machine \<Rightarrow> string \<Rightarrow> string \<Rightarrow> int \<Rightarrow> command list \<Rightarrow> (bool \<times> 'e win_error option) \<times> command list" where
  "checkForPattern_windows wm logStartTime logPattern logCountThreshold w =
     (case powershell wm [countPatternLogCmd logStartTime logPattern] w of
        (Inl err, w) \<Rightarrow> ((True, Some (CommandFailed err)), w)
      | (Inr out, w) \<Rightarrow>
          (case strconv_Atoi out of
             Inl err \<Rightarrow> ((True, Some (BadOccurrences err)), w)
           | Inr occurrences \<Rightarrow>
               if occurrences \<ge> logCountThreshold then ((False, None), w) else ((True, None), w)))"

subsection \<open>Lemmas\<close>

text \<open>A process that has ended already counts as killed, and a process that was never started is never killed.\<close>

lemma Kill_windows_None_iff:
  "fst (Kill_windows Run pid) = None \<longleftrightarrow>
     (\<exists>n. pid = Some n \<and> Run (''TASKKILL'', [''/T'', ''/F'', ''/PID'', strconv_Itoa n]) \<in> {None, Some (ExitError 128)})"
  by (auto simp: Kill_windows_def Let_def split: option.splits run_error.splits)

text \<open>The check on Windows decides as the check on Linux does when both commands print the same count.\<close>

lemma checkForPattern_agree:
  assumes count: "- (2 ^ 63) \<le> n" "n < 2 ^ 63"
    and linux: "mc_exec mc w CmdTimeout ''/bin/sh'' [''-c'', pattern_command service logStartTime logPattern] = Ok (strconv_Itoa n @ [nl])"
    and windows: "wm_Output wm w' (Powershell [countPatternLogCmd logStartTime logPattern]) = Ok (strconv_Itoa n @ [CHR 0x0D, CHR 0x0A])"
  shows "fst (fst (checkForPattern mc service logStartTime logPattern threshold w)) \<longleftrightarrow>
    fst (fst (checkForPattern_windows wm logStartTime logPattern threshold w'))"
  using linux windows
  by (simp add: checkForPattern_def checkForPattern_windows_def execCommand_def powershell_def extractCommandOutput_def
      strconv_Atoi_Itoa [OF count])

text \<open>On Windows the seconds of the uptime are taken for nanoseconds: the machine looks as if it had just booted, and the start time
  of a log watcher is at most a second back whatever the lookback says, where the version for Linux goes back to the boot.\<close>

lemma windows_uptime_unit:
  assumes "0 \<le> seconds" "seconds < 10 ^ 9"
  shows "GetUptimeDuration_windows (Ok (word_of_int seconds)) = (Ok seconds :: 'e + duration)"
    "GetUptimeDuration (Ok (word_of_int seconds)) = (Ok (seconds * Second) :: 'e + duration)"
proof -
  have small: "sint (word_of_int i :: int64) = i" if "0 \<le> i" "i < 10 ^ 18" for i
    using that by (simp add: signed_of_int signed_take_bit_int_eq_self)
  have mult: "(word_of_int seconds :: int64) * word_of_int Second = word_of_int (seconds * Second)" by simp
  show "GetUptimeDuration_windows (Ok (word_of_int seconds)) = (Ok seconds :: 'e + duration)"
    using assms by (simp add: GetUptimeDuration_windows_def small)
  have "0 \<le> seconds * Second" "seconds * Second < 10 ^ 18" using assms by simp_all
  then show "GetUptimeDuration (Ok (word_of_int seconds)) = (Ok (seconds * Second) :: 'e + duration)"
    unfolding GetUptimeDuration_def map_sum.simps mult by (simp only: small)
qed

text \<open>The bytes are multiplied as if they were kibibytes.\<close>

lemma windows_memory_factor:
  assumes "mm_mBytesUsed mc = Some m" "mm_mPercentUsed mc = None"
  shows "memoryCollector_collect_windows (Ok meminfo) (Some mc) =
    [I64 MemoryBytesUsedID m [(stateLabel, ''free'')] (1024 * vm_Available meminfo),
     I64 MemoryBytesUsedID m [(stateLabel, ''used'')] (1024 * vm_Used meminfo)]"
  using assms by (simp add: memoryCollector_collect_windows_def sample_i64_def sample_f64_def mult.commute)

end
