(* ===== verification/Spec2Isabelle.thy ===== *)
theory Spec2Isabelle
  imports Log_Monitor Custom_Plugin_Monitor K8s_Exporter Problem_Detector Health_Checker Log_Counter File_Log_Watcher
    Kmsg_Watcher System_Stats_Monitor Stackdriver_Exporter Tail_File NPD_Main Windows_Service Windows_Port
begin

text \<open>
  A verification development of node-problem-detector, a Go daemon that runs on every node of a
  Kubernetes cluster, finds problems of the node and reports them. All source paths below are under
  \<^verbatim>\<open>src/\<close>.

  \<^bold>\<open>The program.\<close> Problem daemons (monitors) watch the node. The system log monitor matches lines of the
  logs against rules, the custom plugin monitor runs scripts and reads their exit status, the system
  stats monitor records statistics. The first two send a status, which has events and
  conditions, over a channel. The problem detector merges the channels and passes every status to every
  exporter. The Kubernetes exporter records events and sets the conditions of the node through the
  condition manager, the Prometheus and Stackdriver exporters publish the metrics that the
  monitors record. Two programs come with it and run as custom plugins: the health checker and the
  log counter.

  \<^bold>\<open>Conventions.\<close> A struct is a record whose fields carry a short prefix, a method \<^verbatim>\<open>(r *T) m\<close> is a definition
  \<open>T_m\<close> that takes the receiver last, a pair of a value and an error is a sum (\<open>Err\<close>, \<open>Ok\<close>), a panic or a
  fatal log line is an error value or \<open>None\<close>. Strings are bytes. Times are nanoseconds; integers that may
  wrap around are words of 64 bits. A Go map is a partial function, and a loop over it takes its order as
  an argument with the hypothesis \<open>map_order\<close> that it lists the keys once each, so that the theorems hold
  for every order. Goroutines, channels and timers are inductive step relations, with separate steps for
  the environment; the theorems hold for every interleaving. Fields that only the theorems read are named as such
  where they are declared. Code that is not in the repository (OpenCensus, the Kubernetes API, gopsutil,
  procfs, the journal, the regular expression parser, float arithmetic) is an argument.

  \<^bold>\<open>The theories.\<close>
  \<^item> \<open>NPD_Prelude\<close>: types, collections of facts and lemmas that all components share.
  \<^item> \<open>Go_Strings\<close>, \<open>Go_Conv\<close>, \<open>Go_Path\<close>, \<open>Go_Regexp\<close>: what the program uses of Go's library, with the round
    trips of numbers and the meaning of regular expressions as a relation that an executable matcher computes.
  \<^item> \<open>NPD_Types\<close>: \<^verbatim>\<open>pkg/types\<close>, \<^verbatim>\<open>pkg/util/convert.go\<close> and \<^verbatim>\<open>helpers.go\<close>.
  \<^item> \<open>Metrics\<close>, \<open>Problem_Metrics\<close>: \<^verbatim>\<open>pkg/util/metrics\<close> and \<^verbatim>\<open>pkg/problemmetrics\<close>. The locales \<open>Int64Metric_contract\<close>,
    \<open>Gauge_contract\<close> and \<open>Counter_contract\<close> say what recording promises.
  \<^item> \<open>Log_Pattern\<close>, \<open>Log_Buffer\<close>, \<open>Log_Monitor\<close>: \<^verbatim>\<open>pkg/systemlogmonitor\<close>. The ring buffer with its cache of joined lines
    refines a list of the last lines (\<open>LogBuffer_contract\<close>); matching only the last line is shown to be the same
    where the code does it; the loop of the monitor refines a function of the lines, its statuses are
    well formed, its gauges agree with its conditions, and it is never stuck.
  \<^item> \<open>Tomb_Contract\<close>, \<open>Log_Watcher\<close>, \<open>File_Log_Watcher\<close>, \<open>Kmsg_Watcher\<close>, \<open>Journald_Watcher\<close>, \<open>Tail_File\<close>: \<^verbatim>\<open>pkg/util/tomb\<close>,
    \<^verbatim>\<open>pkg/systemlogmonitor/logwatchers\<close> and \<^verbatim>\<open>third_party/forked/cadvisor/tail\<close>. The locale \<open>tomb_loop\<close> is the contract of a
    goroutine that a tomb stops: what it sends only grows, and after \<open>Stop\<close> returned it sends nothing. The three
    watchers and the loop of the system stats monitor are interpretations. Each watcher sends
    what its source has, in order, from the start time on.
  \<^item> \<open>Custom_Plugin_Config\<close>, \<open>Plugin_Runner\<close>, \<open>Custom_Plugin_Monitor\<close>: \<^verbatim>\<open>pkg/custompluginmonitor\<close>. The goroutines never run more
    commands than configured, none is left when \<open>Stop\<close> returns, results have a bounded message, and statuses are
    well formed.
  \<^item> \<open>Stats_Metrics\<close>, \<open>Disk_Collector\<close>, \<open>Cpu_Collector\<close>, \<open>Net_Collector\<close>, \<open>Memory_Collector\<close>, \<open>Os_Feature\<close>, \<open>Host_Collector\<close>,
    \<open>System_Stats_Monitor\<close>: \<^verbatim>\<open>pkg/systemstatsmonitor\<close> and \<^verbatim>\<open>pkg/util/metrics/system\<close>. What a collection records, on every
    failure too, and what the metrics show after any number of collections.
  \<^item> \<open>Problem_Client\<close>, \<open>Condition_Manager\<close>, \<open>K8s_Exporter\<close>, \<open>Stackdriver_Exporter\<close>: \<^verbatim>\<open>pkg/exporters\<close>. The locale \<open>condition_client\<close>
    is what the condition manager needs of its client; the client of the API satisfies it under the documented behaviour
    of the API server, the in-memory client is an interpretation. The loop of the manager keeps the node
    current, retries, and does not write too often. Fetching the metadata for Stackdriver is bounded.
  \<^item> \<open>Registry\<close>, \<open>NPD_Options\<close>, \<open>Problem_Detector\<close>, \<open>NPD_Main\<close>: \<^verbatim>\<open>pkg/problemdaemon\<close>, \<^verbatim>\<open>pkg/exporters/register.go\<close>, \<^verbatim>\<open>cmd/options\<close>,
    \<^verbatim>\<open>pkg/problemdetector\<close> and \<^verbatim>\<open>cmd/nodeproblemdetector\<close>. Every configured path gets one daemon; statuses are delivered once, in the
    order of each monitor.
  \<^item> \<open>Windows_Service\<close>, \<open>Windows_Port\<close>: the service on Windows and the functions Windows has its own version of.
  \<^item> \<open>Health_Checker\<close>, \<open>Log_Counter\<close>: \<^verbatim>\<open>pkg/healthchecker\<close>, \<^verbatim>\<open>pkg/logcounter\<close> and their commands. A service is restarted only
    when it is unhealthy and has been up for longer than the cool-down time; the counter counts the matching entries.

  This theory composes the problem detector with the condition manager: the node shows the last
  condition that was exported.

  \<^bold>\<open>Bounds and termination.\<close> No definition takes fuel as an argument of its callers. The matcher of regular expressions iterates a
  starred expression as often as the text is long, which is shown to be enough. Loops that end have a termination proof.
  Retrying without a limit in \<open>Stackdriver_Exporter\<close> is a partial function with value \<open>None\<close> when it never returns. Loops that run until they are
  stopped are step relations, and that they end is shown by a measure or a path to the end.

  \<^bold>\<open>Not modelled.\<close> The two functions \<^verbatim>\<open>main\<close> of \<^verbatim>\<open>cmd/nodeproblemdetector\<close>, which register and parse flags with pflag and klog. Starting and
  killing processes on Unix (\<^verbatim>\<open>pkg/util/exec_unix.go\<close>), two system calls which their callers take as arguments. \<^verbatim>\<open>Exec\<close> on Windows, which
  depends on the Windows rules for paths. The stubs for Darwin, the watchers' stubs for Windows and the empty methods of the CPU
  collector there. The files that only import plugins; the tables they fill are arguments. Log output. The test support and
  the end-to-end tests. Floating point arithmetic, of which the theorems use no law. The Go memory model: a step of a goroutine is atomic
  where the code holds a lock or sends on a channel.
\<close>


subsection \<open>Witness\<close>

definition sample_status :: Status where
  "sample_status = \<lparr>s_Source = ''kernel-monitor'', s_Events = [], s_Conditions = [sample_deadlock]\<rparr>"

definition sample_npd :: "(string, unit) problemDetector" where
  "sample_npd = NewProblemDetector [''kernel.json''] [()]"

definition sample_npd_running :: "(string, unit) detector" where
  "sample_npd_running = \<lparr>d_queues = [[]], d_held = [None], d_exporters = [()], d_ctxDone = False, d_returned = False, d_stopped = [],
     d_sent = [[]], d_exported = []\<rparr>"

definition sample_npd_exported :: "(string, unit) detector" where
  "sample_npd_exported = sample_npd_running\<lparr>d_sent := [[sample_status]], d_exported := [(0, sample_status)]\<rparr>"

abbreviation sample_pipeline_step :: "(string, unit, unit FakeProblemClient) pipeline \<Rightarrow> (string, unit, unit FakeProblemClient) pipeline \<Rightarrow> bool" where
  "sample_pipeline_step \<equiv> pipeline_step (\<lambda>_. id) sample_npd FakeProblemClient_SetConditions"

abbreviation at_work :: "(string, unit) detector \<Rightarrow> Condition list \<Rightarrow> unit FakeProblemClient syncLoop \<Rightarrow>
    (string, unit, unit FakeProblemClient) pipeline" where
  "at_work d cs s \<equiv> \<lparr>pl_det = d, pl_pending = cs, pl_sync = s\<rparr>"

lemma sample_status_exported:
  "sample_pipeline_step\<^sup>*\<^sup>* (at_work sample_npd_running [] s) (at_work sample_npd_exported [sample_deadlock] s)"
proof -
  let ?d = sample_npd_running
  let ?sent = "?d\<lparr>d_queues := [[sample_status]], d_sent := [[sample_status]]\<rparr>"
  let ?held = "?d\<lparr>d_held := [Some sample_status], d_sent := [[sample_status]]\<rparr>"
  have "detector_step (\<lambda>_. id) sample_npd ?d ?sent"
    using det_send [of 0 ?d "\<lambda>_. id" sample_npd sample_status] by (simp add: sample_npd_running_def)
  then have 1: "sample_pipeline_step (at_work ?d [] s) (at_work ?sent [] s)"
    using pl_other [where s = "at_work ?d [] s" and d = ?sent] by simp
  have "detector_step (\<lambda>_. id) sample_npd ?sent ?held"
    using det_take [of 0 ?sent sample_status "[]" "\<lambda>_. id" sample_npd] by (simp add: sample_npd_running_def)
  then have 2: "sample_pipeline_step (at_work ?sent [] s) (at_work ?held [] s)"
    using pl_other [where s = "at_work ?sent [] s" and d = ?held] by simp
  have "detector_step (\<lambda>_. id) sample_npd ?held sample_npd_exported"
    using det_export [of ?held 0 sample_status "\<lambda>_. id" sample_npd] by (simp add: sample_npd_running_def sample_npd_exported_def)
  then have 3: "sample_pipeline_step (at_work ?held [] s) (at_work sample_npd_exported [sample_deadlock] s)"
    using pl_export [where s = "at_work ?held [] s" and d = sample_npd_exported and i = 0 and status = sample_status]
    by (simp add: sample_npd_exported_def sample_npd_running_def sample_status_def)
  from 1 2 3 show ?thesis by (meson rtranclp.rtrancl_into_rtrancl rtranclp.rtrancl_refl)
qed

lemma sample_pipeline_synced:
  "sample_pipeline_step\<^sup>*\<^sup>* (pipeline_start sample_npd_running (60 * Second) sample_client) (at_work sample_npd_exported [] sample_synced)"
proof -
  let ?d = sample_npd_exported
  let ?s0 = "sync_start (60 * Second) sample_client"
  let ?due = "sample_pending\<lparr>sl_mgr := sample_merged_mgr, sl_pc := SyncDue\<rparr>"
  have start: "pipeline_start sample_npd_running (60 * Second) sample_client = at_work sample_npd_running [] ?s0"
    by (simp add: pipeline_start_def)
  have "passed sample_deadlock ?s0 = sample_pending"
    by (simp add: passed_def sample_pending_def sync_start_def NewConditionManager_def conditionManager_UpdateCondition_def sample_deadlock_def)
  then have 1: "sample_pipeline_step (at_work ?d [sample_deadlock] ?s0) (at_work ?d [] sample_pending)"
    using pl_update [where s = "at_work ?d [sample_deadlock] ?s0" and c = sample_deadlock and cs = "[]"] by simp
  have "sl_pc sample_pending = SyncWait" by (simp add: sample_pending_def sync_start_def)
  from sync_tick [OF this sample_orders(1) sample_needUpdates, of "\<lambda>_. False" FakeProblemClient_SetConditions]
  have "sync_step (\<lambda>_. False) FakeProblemClient_SetConditions sample_pending ?due" by simp
  then have 2: "sample_pipeline_step (at_work ?d [] sample_pending) (at_work ?d [] ?due)"
    using pl_loop [where s = "at_work ?d [] sample_pending" and s' = ?due] by simp
  have "sync_step (\<lambda>_. False) FakeProblemClient_SetConditions ?due (?due\<lparr>sl_mgr := sample_merged_mgr\<lparr>cm_latestTry := Second\<rparr>,
      sl_client := sample_client\<lparr>fpc_conditions := [''KernelDeadlock'' \<mapsto> sample_api]\<rparr>, sl_pc := SyncWait,
      sl_syncs := Second # sl_syncs ?due\<rparr>)"
    by (rule sync_sync [where order = "[''KernelDeadlock'']"]) (simp_all add: sample_orders(2) sample_sync sample_pending_def sync_start_def)
  then have "sync_step (\<lambda>_. False) FakeProblemClient_SetConditions ?due sample_synced"
    by (simp add: sample_synced_def sample_pending_def sync_start_def)
  then have 3: "sample_pipeline_step (at_work ?d [] ?due) (at_work ?d [] sample_synced)"
    using pl_loop [where s = "at_work ?d [] ?due" and s' = sample_synced] by simp
  from sample_status_exported [of ?s0] 1 2 3 show ?thesis unfolding start by (meson rtranclp.rtrancl_into_rtrancl)
qed


end
